(* ===== verification/Cars_Prelude.thy ===== *)
theory Cars_Prelude
  imports Complex_Main "HOL-Library.Sublist"
begin

text \<open>
  Shared vocabulary of the development: Go's error values and run-time panics, slices with
  their nil value, signed 64-bit arithmetic, the three states of a channel that is only ever
  closed, and the generic lemmas on lists and maps that the component theories use.

  Conventions. A Go function that may panic returns \<open>panic + 'a\<close> (\<open>Inl\<close> is the panic); a Go
  function that returns \<open>(T, error)\<close> returns \<open>error + 'a\<close>, and one that returns only an error
  returns \<open>error option\<close> (\<open>None\<close> is Go's nil error). A Go \<open>string\<close> or \<open>[]byte\<close> is a byte list.
\<close>

named_theorems go_simps \<open>unfolding equations of the Go library functions\<close>
named_theorems path_simps \<open>lexical facts on plain path elements\<close>
named_theorems fs_simps \<open>what a file system operation leaves readable\<close>

type_synonym bytes = string

subsection \<open>Panics and errors\<close>

datatype panic =
    NilDereference
  | IndexOutOfRange
  | SliceBoundsOutOfRange
  | CloseOfNilChannel
  | CloseOfClosedChannel
  | PanicMessage string

text \<open>
  The error values the program compares with \<open>errors.Is\<close>, the errors of the operating system
  and of third-party clients, and the two ways the program builds errors itself:
  \<open>fmt.Errorf\<close> and \<open>errors.Wrap\<close>.
\<close>

datatype error =
    ErrNotExist string
  | OsError string
  | DeadlineExceeded
  | MemoryLimitExceeded
  | ErrRecordNotFound
  | ClientError string
  | Errorf string
  | Wrap error string

fun errors_Is :: "error \<Rightarrow> (error \<Rightarrow> bool) \<Rightarrow> bool" where
  "errors_Is (Wrap e msg) target \<longleftrightarrow> target (Wrap e msg) \<or> errors_Is e target"
| "errors_Is e target \<longleftrightarrow> target e"

fun is_NotExist :: "error \<Rightarrow> bool" where
  "is_NotExist (ErrNotExist p) = True"
| "is_NotExist e = False"

text \<open>
  \<open>if err := m; err != nil { return errors.Wrap(err, msg) }\<close>, then the rest \<open>k\<close> of the function,
  for calls that change a state.
\<close>

definition or_wrap :: "error option \<times> 's \<Rightarrow> string \<Rightarrow> ('s \<Rightarrow> error option \<times> 's) \<Rightarrow> error option \<times> 's" where
  "or_wrap m msg k = (case m of (Some e, s) \<Rightarrow> (Some (Wrap e msg), s) | (None, s) \<Rightarrow> k s)"

lemma or_wrap_None: "or_wrap m msg k = (None, s) \<longleftrightarrow> (\<exists>s1. m = (None, s1) \<and> k s1 = (None, s))"
  by (cases m; cases "fst m") (auto simp: or_wrap_def)

lemma or_wrap_cases:
  assumes "or_wrap m msg k = (r, s)"
  obtains (failed) e where "m = (Some e, s)" "r = Some (Wrap e msg)" | (continued) s1 where "m = (None, s1)" "k s1 = (r, s)"
  using assms by (cases m; cases "fst m") (auto simp: or_wrap_def)

text \<open>The same without the wrapping.\<close>

definition or_return :: "error option \<times> 's \<Rightarrow> ('s \<Rightarrow> error option \<times> 's) \<Rightarrow> error option \<times> 's" where
  "or_return m k = (case m of (Some e, s) \<Rightarrow> (Some e, s) | (None, s) \<Rightarrow> k s)"

lemma or_return_None: "or_return m k = (None, s) \<longleftrightarrow> (\<exists>s1. m = (None, s1) \<and> k s1 = (None, s))"
  by (cases m; cases "fst m") (auto simp: or_return_def)

subsection \<open>Slices\<close>

text \<open>A slice is nil or a list; \<open>len\<close>, \<open>range\<close> and \<open>strings.Join\<close> see only its elements.\<close>

type_synonym 'a slice = "'a list option"

definition elems :: "'a slice \<Rightarrow> 'a list" where
  "elems s = (case s of None \<Rightarrow> [] | Some xs \<Rightarrow> xs)"

lemma elems_simps [simp]: "elems None = []" "elems (Some xs) = xs"
  by (simp_all add: elems_def)

subsection \<open>Signed 64-bit integers\<close>

definition wrap64 :: "int \<Rightarrow> int" where
  "wrap64 n = (n + 2 ^ 63) mod 2 ^ 64 - 2 ^ 63"

definition in_int64 :: "int \<Rightarrow> bool" where
  "in_int64 n \<longleftrightarrow> - (2 ^ 63) \<le> n \<and> n < 2 ^ 63"

lemma wrap64_in_int64: "in_int64 (wrap64 n)"
proof -
  have "0 \<le> (n + 2 ^ 63) mod (2 ^ 64 :: int)" and "(n + 2 ^ 63) mod (2 ^ 64 :: int) < 2 ^ 64"
    by simp_all
  then show ?thesis
    by (simp add: wrap64_def in_int64_def)
qed

lemma wrap64_id [simp]: "in_int64 n \<Longrightarrow> wrap64 n = n"
  by (simp add: wrap64_def in_int64_def)

text \<open>Division of Go truncates toward zero.\<close>

definition quot64 :: "int \<Rightarrow> int \<Rightarrow> int" where
  "quot64 a b = sgn a * sgn b * (\<bar>a\<bar> div \<bar>b\<bar>)"

lemma quot64_nonneg: "0 \<le> a \<Longrightarrow> 0 < b \<Longrightarrow> quot64 a b = a div b"
  by (cases "a = 0") (simp_all add: quot64_def)

subsection \<open>Channels that are only closed\<close>

datatype chan = NilChan | OpenChan | ClosedChan

fun close_chan :: "chan \<Rightarrow> panic + chan" where
  "close_chan NilChan = Inl CloseOfNilChannel"
| "close_chan OpenChan = Inr ClosedChan"
| "close_chan ClosedChan = Inl CloseOfClosedChannel"

lemma close_chan_Inr_iff: "close_chan c = Inr c' \<longleftrightarrow> c = OpenChan \<and> c' = ClosedChan"
  by (cases c) auto

end
