(* ===== verification/Go_Strings.thy ===== *)
theory Go_Strings
  imports Cars_Prelude
begin

text \<open>
  The part of Go's \<open>strings\<close> and \<open>strconv\<close> packages the program uses, on byte strings.
  \<open>ToLower\<close>, \<open>EqualFold\<close>, \<open>Fields\<close> and \<open>TrimSpace\<close> treat bytes above 127 as letters without
  case, which is Go's behaviour on ASCII text; the names, languages and identifiers the program
  passes to them are ASCII.
\<close>

subsection \<open>Split and Join\<close>

text \<open>
  \<open>strings.Split(s, sep)\<close> for a separator of at least one byte: \<open>cur\<close> collects the current
  element backwards.
\<close>

fun split_loop :: "string \<Rightarrow> string \<Rightarrow> string \<Rightarrow> string list" where
  "split_loop sep cur [] = [rev cur]"
| "split_loop sep cur (c # cs) =
     (if take (length sep) (c # cs) = sep
      then rev cur # split_loop sep [] (drop (length sep - 1) cs)
      else split_loop sep (c # cur) cs)"

definition strings_Split :: "string \<Rightarrow> string \<Rightarrow> string list" where
  "strings_Split s sep = split_loop sep [] s"

fun strings_Join :: "string list \<Rightarrow> string \<Rightarrow> string" where
  "strings_Join [] sep = []"
| "strings_Join [x] sep = x"
| "strings_Join (x # y # ys) sep = x @ sep @ strings_Join (y # ys) sep"

lemma split_loop_not_Nil [simp]: "split_loop sep cur s \<noteq> []"
  by (induction sep cur s rule: split_loop.induct) auto

lemma strings_Split_not_Nil [simp]: "strings_Split s sep \<noteq> []"
  by (simp add: strings_Split_def)

lemma strings_Join_Cons: "xs \<noteq> [] \<Longrightarrow> strings_Join (x # xs) sep = x @ sep @ strings_Join xs sep"
  by (cases xs) auto

lemma join_split_loop:
  assumes "sep \<noteq> []"
  shows "strings_Join (split_loop sep cur s) sep = rev cur @ s"
  using assms
proof (induction sep cur s rule: split_loop.induct)
  case (1 sep cur)
  then show ?case by simp
next
  case (2 sep cur c cs)
  show ?case
  proof (cases "take (length sep) (c # cs) = sep")
    case True
    with 2 have "strings_Join (split_loop sep [] (drop (length sep - 1) cs)) sep = drop (length sep - 1) cs"
      by simp
    moreover have split: "c # cs = sep @ drop (length sep - 1) cs"
    proof -
      have "c # cs = take (length sep) (c # cs) @ drop (length sep) (c # cs)" by simp
      with True have "c # cs = sep @ drop (length sep) (c # cs)" by simp
      moreover from \<open>sep \<noteq> []\<close> have "drop (length sep) (c # cs) = drop (length sep - 1) cs"
        by (cases sep) auto
      ultimately show ?thesis by metis
    qed
    ultimately have "sep @ strings_Join (split_loop sep [] (drop (length sep - 1) cs)) sep = c # cs"
      by (simp only:)
    moreover from True have "split_loop sep cur (c # cs) = rev cur # split_loop sep [] (drop (length sep - 1) cs)"
      by simp
    ultimately show ?thesis
      by (simp only: strings_Join_Cons split_loop_not_Nil not_False_eq_True)
  next
    case False
    with 2 show ?thesis by simp
  qed
qed

lemma join_split: "sep \<noteq> [] \<Longrightarrow> strings_Join (strings_Split s sep) sep = s"
  by (simp add: strings_Split_def join_split_loop)

text \<open>With a one-byte separator, splitting a joined list of separator-free elements gives it back.\<close>

lemma split_loop_nosep:
  "c \<notin> set x \<Longrightarrow> split_loop [c] cur (x @ ys) =
     (case ys of [] \<Rightarrow> [rev cur @ x] | _ \<Rightarrow> split_loop [c] (rev x @ cur) ys)"
proof (induction x arbitrary: cur)
  case Nil
  then show ?case by (cases ys) auto
next
  case (Cons a x)
  then have "split_loop [c] cur ((a # x) @ ys) = split_loop [c] (a # cur) (x @ ys)"
    by auto
  also have "\<dots> = (case ys of [] \<Rightarrow> [rev (a # cur) @ x] | _ \<Rightarrow> split_loop [c] (rev x @ a # cur) ys)"
    using Cons by simp
  finally show ?case by (simp split: list.splits)
qed

lemma split_nosep: "c \<notin> set x \<Longrightarrow> strings_Split x [c] = [x]"
  using split_loop_nosep [of c x "[]" "[]"] by (simp add: strings_Split_def)

lemma split_sep_Cons: "c \<notin> set x \<Longrightarrow> strings_Split (x @ c # s) [c] = x # strings_Split s [c]"
  using split_loop_nosep [of c x "[]" "c # s"] by (simp add: strings_Split_def)

lemma split_join:
  "xs \<noteq> [] \<Longrightarrow> (\<And>x. x \<in> set xs \<Longrightarrow> c \<notin> set x) \<Longrightarrow> strings_Split (strings_Join xs [c]) [c] = xs"
proof (induction xs)
  case Nil
  then show ?case by simp
next
  case (Cons x xs)
  then show ?case
    by (cases xs) (auto simp: split_nosep split_sep_Cons)
qed

lemma split_loop_elems_nosep:
  "c \<notin> set cur \<Longrightarrow> x \<in> set (split_loop [c] cur s) \<Longrightarrow> c \<notin> set x"
proof (induction s arbitrary: cur)
  case Nil
  then show ?case by auto
next
  case (Cons a s)
  show ?case
  proof (cases "a = c")
    case True
    with Cons.prems(2) have "x = rev cur \<or> x \<in> set (split_loop [c] [] s)" by auto
    with Cons.prems(1) Cons.IH [of "[]"] show ?thesis by auto
  next
    case False
    with Cons.prems Cons.IH [of "a # cur"] show ?thesis by simp
  qed
qed

lemma split_elems_nosep: "x \<in> set (strings_Split s [c]) \<Longrightarrow> c \<notin> set x"
  unfolding strings_Split_def by (rule split_loop_elems_nosep [of c "[]"]) simp_all

lemma strings_Join_append:
  "xs \<noteq> [] \<Longrightarrow> ys \<noteq> [] \<Longrightarrow> strings_Join (xs @ ys) sep = strings_Join xs sep @ sep @ strings_Join ys sep"
proof (induction xs)
  case (Cons x xs)
  then show ?case by (cases xs) (auto simp: strings_Join_Cons)
qed simp

lemma split_append: "strings_Split (x @ c # s) [c] = strings_Split x [c] @ strings_Split s [c]"
proof -
  have "strings_Split (strings_Join (strings_Split x [c] @ strings_Split s [c]) [c]) [c] = strings_Split x [c] @ strings_Split s [c]"
    using split_elems_nosep by (intro split_join) auto
  moreover have "strings_Join (strings_Split x [c] @ strings_Split s [c]) [c] = x @ c # s"
    by (simp add: strings_Join_append join_split)
  ultimately show ?thesis by simp
qed

subsection \<open>Case, spaces, replacement\<close>

definition ascii_lower :: "char \<Rightarrow> char" where
  "ascii_lower c = (let n = of_char c :: nat in if 65 \<le> n \<and> n \<le> 90 then char_of (n + 32) else c)"

definition strings_ToLower :: "string \<Rightarrow> string" where
  "strings_ToLower s = map ascii_lower s"

definition strings_EqualFold :: "string \<Rightarrow> string \<Rightarrow> bool" where
  "strings_EqualFold s t \<longleftrightarrow> strings_ToLower s = strings_ToLower t"

definition is_space :: "char \<Rightarrow> bool" where
  "is_space c \<longleftrightarrow> (let n = of_char c :: nat in n = 32 \<or> (9 \<le> n \<and> n \<le> 13))"

definition strings_TrimSpace :: "string \<Rightarrow> string" where
  "strings_TrimSpace s = rev (dropWhile is_space (rev (dropWhile is_space s)))"

fun fields_loop :: "string \<Rightarrow> string \<Rightarrow> string list" where
  "fields_loop cur [] = (if cur = [] then [] else [rev cur])"
| "fields_loop cur (c # cs) =
     (if is_space c
      then (if cur = [] then fields_loop [] cs else rev cur # fields_loop [] cs)
      else fields_loop (c # cur) cs)"

definition strings_Fields :: "string \<Rightarrow> string list" where
  "strings_Fields s = fields_loop [] s"

definition replace_char :: "char \<Rightarrow> char \<Rightarrow> string \<Rightarrow> string" where
  "replace_char old new s = map (\<lambda>c. if c = old then new else c) s"

lemma length_ToLower [simp]: "length (strings_ToLower s) = length s"
  by (simp add: strings_ToLower_def)

lemma ToLower_append [simp]: "strings_ToLower (s @ t) = strings_ToLower s @ strings_ToLower t"
  by (simp add: strings_ToLower_def)

lemma of_char_ascii_lower:
  "(of_char (ascii_lower c) :: nat) =
     (if 65 \<le> (of_char c :: nat) \<and> (of_char c :: nat) \<le> 90 then of_char c + 32 else of_char c)"
  by (simp add: ascii_lower_def Let_def)

lemma ascii_lower_idem [simp]: "ascii_lower (ascii_lower c) = ascii_lower c"
proof -
  have "(of_char (ascii_lower (ascii_lower c)) :: nat) = of_char (ascii_lower c)"
    by (subst of_char_ascii_lower) (simp add: of_char_ascii_lower)
  then show ?thesis by simp
qed

lemma ToLower_idem [simp]: "strings_ToLower (strings_ToLower s) = strings_ToLower s"
  by (simp add: strings_ToLower_def)

lemma ToLower_fixpoint_iff:
  "strings_ToLower s = s \<longleftrightarrow> list_all (\<lambda>c. \<not> (65 \<le> (of_char c :: nat) \<and> (of_char c :: nat) \<le> 90)) s"
proof -
  have "ascii_lower c = c \<longleftrightarrow> \<not> (65 \<le> (of_char c :: nat) \<and> (of_char c :: nat) \<le> 90)" for c
  proof -
    have "ascii_lower c = c \<longleftrightarrow> (of_char (ascii_lower c) :: nat) = of_char c" by simp
    then show ?thesis by (simp add: of_char_ascii_lower)
  qed
  then show ?thesis
    by (simp add: strings_ToLower_def list_all_iff map_idI map_eq_conv [where g = id, simplified])
qed


subsection \<open>Decimal numbers\<close>

text \<open>\<open>strconv.Itoa\<close> and \<open>strconv.FormatInt(i, 10)\<close>.\<close>

definition digit_char :: "nat \<Rightarrow> char" where
  "digit_char d = char_of (48 + d)"

fun nat_digits :: "nat \<Rightarrow> string" where
  "nat_digits n = (if n < 10 then [digit_char n] else nat_digits (n div 10) @ [digit_char (n mod 10)])"

declare nat_digits.simps [simp del]

definition strconv_Itoa :: "int \<Rightarrow> string" where
  "strconv_Itoa i = (if i < 0 then CHR ''-'' # nat_digits (nat (- i)) else nat_digits (nat i))"

text \<open>
  \<open>strconv.ParseInt(s, 10, 0)\<close> on a 64-bit machine returns a value and an error: a syntax
  error comes with the value 0, a range error with the nearest representable value.
\<close>

definition is_digit :: "char \<Rightarrow> bool" where
  "is_digit c \<longleftrightarrow> (let n = of_char c :: nat in 48 \<le> n \<and> n \<le> 57)"

definition digit_val :: "char \<Rightarrow> nat" where
  "digit_val c = of_char c - 48"

definition digits_val :: "string \<Rightarrow> nat" where
  "digits_val s = foldl (\<lambda>n c. n * 10 + digit_val c) 0 s"

datatype parse_err = ErrSyntax | ErrRange

definition ParseUint_digits :: "string \<Rightarrow> nat option" where
  "ParseUint_digits s = (if s \<noteq> [] \<and> list_all is_digit s then Some (digits_val s) else None)"

definition strconv_ParseInt :: "string \<Rightarrow> int \<times> parse_err option" where
  "strconv_ParseInt s =
     (case s of
        [] \<Rightarrow> (0, Some ErrSyntax)
      | c # cs \<Rightarrow>
          (let neg = (c = CHR ''-'');
               body = (if c = CHR ''-'' \<or> c = CHR ''+'' then cs else s)
           in case ParseUint_digits body of
                None \<Rightarrow> (0, Some ErrSyntax)
              | Some n \<Rightarrow>
                  if \<not> neg \<and> int n \<ge> 2 ^ 63 then (2 ^ 63 - 1, Some ErrRange)
                  else if neg \<and> int n > 2 ^ 63 then (- (2 ^ 63), Some ErrRange)
                  else (if neg then - int n else int n, None)))"

lemma of_char_digit_char [simp]: "d < 10 \<Longrightarrow> (of_char (digit_char d) :: nat) = 48 + d"
  by (simp add: digit_char_def)

lemma digit_char_simps [simp]:
  "d < 10 \<Longrightarrow> is_digit (digit_char d)" "d < 10 \<Longrightarrow> digit_val (digit_char d) = d"
  by (simp_all add: is_digit_def digit_val_def)

lemma nat_digits_not_Nil [simp]: "nat_digits n \<noteq> []"
  by (subst nat_digits.simps) simp

lemma digits_val_snoc: "digits_val (s @ [c]) = digits_val s * 10 + digit_val c"
  by (simp add: digits_val_def)

lemma nat_digits_all_digits [simp]: "list_all is_digit (nat_digits n)"
proof (induction n rule: nat_digits.induct)
  case (1 n)
  then show ?case by (subst nat_digits.simps) simp
qed

lemma digits_val_nat_digits [simp]: "digits_val (nat_digits n) = n"
proof (induction n rule: nat_digits.induct)
  case (1 n)
  show ?case
  proof (cases "n < 10")
    case True
    then show ?thesis by (subst nat_digits.simps) (simp add: digits_val_def)
  next
    case False
    with 1 show ?thesis by (subst nat_digits.simps) (simp add: digits_val_snoc)
  qed
qed

lemma is_digit_not_sign: "is_digit c \<Longrightarrow> c \<noteq> CHR ''-'' \<and> c \<noteq> CHR ''+''"
  by (auto simp: is_digit_def)

lemma ParseUint_digits_nat_digits [simp]: "ParseUint_digits (nat_digits n) = Some n"
  by (simp add: ParseUint_digits_def)

lemma nat_digits_Cons: obtains c cs where "nat_digits n = c # cs" "c \<noteq> CHR ''-''" "c \<noteq> CHR ''+''"
proof -
  obtain c cs where d: "nat_digits n = c # cs" by (cases "nat_digits n") auto
  moreover from d nat_digits_all_digits [of n] have "is_digit c" by simp
  ultimately show ?thesis using that is_digit_not_sign by blast
qed

text \<open>Printing and parsing: every 64-bit integer is read back, without an error.\<close>

lemma ParseInt_Itoa:
  assumes "in_int64 i"
  shows "strconv_ParseInt (strconv_Itoa i) = (i, None)"
proof (cases "i < 0")
  case True
  with assms show ?thesis
    by (simp add: strconv_Itoa_def strconv_ParseInt_def in_int64_def)
next
  case False
  obtain c cs where "nat_digits (nat i) = c # cs" "c \<noteq> CHR ''-''" "c \<noteq> CHR ''+''"
    by (rule nat_digits_Cons)
  moreover from this have "ParseUint_digits (c # cs) = Some (nat i)"
    using ParseUint_digits_nat_digits [of "nat i"] by simp
  ultimately show ?thesis
    using False assms by (simp add: strconv_Itoa_def strconv_ParseInt_def in_int64_def)
qed

lemma strconv_ParseInt_in_int64: "in_int64 (fst (strconv_ParseInt s))"
  by (auto simp: strconv_ParseInt_def in_int64_def Let_def split: list.splits option.splits)

lemma strconv_Itoa_inject [simp]: "strconv_Itoa i = strconv_Itoa j \<longleftrightarrow> i = j"
proof
  assume eq: "strconv_Itoa i = strconv_Itoa j"
  have val: "nat_digits m = nat_digits n \<Longrightarrow> m = n" for m n
    by (metis digits_val_nat_digits)
  have neg: "CHR ''-'' # nat_digits m \<noteq> nat_digits n" for m n
    by (metis list.inject nat_digits_Cons)
  show "i = j"
    using eq val [of "nat i" "nat j"] val [of "nat (- i)" "nat (- j)"]
      neg [of "nat (- i)" "nat j"] neg [of "nat (- j)" "nat i"]
    by (auto simp: strconv_Itoa_def split: if_splits)
qed simp

lemma strconv_Itoa_chars: "c \<in> set (strconv_Itoa i) \<Longrightarrow> is_digit c \<or> c = CHR ''-''"
  using nat_digits_all_digits by (auto simp: strconv_Itoa_def list_all_iff split: if_splits)

end
