(* ===== verification/Sandbox_Status.thy ===== *)
theory Sandbox_Status
  imports Go_Strings
begin

text \<open>
  The two status enumerations of \<open>internal/sandbox/sandbox.go\<close> and their generated \<open>String\<close>
  methods (\<open>containerstatus_string.go\<close>, \<open>containerteststatus_string.go\<close>). In Go both types are
  integers, and a status read from \<open>runner-out.json\<close> may be any integer, so they are integers here.
  The generated methods cut a name out of one long string by an index table; the locale
  \<open>stringer\<close> states what such a method promises and both tables are shown to keep it.
\<close>

type_synonym ContainerTestStatus = int
type_synonym ContainerStatus = int

definition NoTest :: ContainerTestStatus where "NoTest = 0"
definition TestNotRan :: ContainerTestStatus where "TestNotRan = 1"
definition TestFailed :: ContainerTestStatus where "TestFailed = 2"
definition TestPassed :: ContainerTestStatus where "TestPassed = 3"

definition NotRan :: ContainerStatus where "NotRan = 0"
definition Created :: ContainerStatus where "Created = 1"
definition Running :: ContainerStatus where "Running = 2"
definition Killing :: ContainerStatus where "Killing = 3"
definition Killed :: ContainerStatus where "Killed = 4"
definition Finished :: ContainerStatus where "Finished = 5"
definition MemoryConstraintExceeded :: ContainerStatus where "MemoryConstraintExceeded = 6"
definition TimeLimitExceeded :: ContainerStatus where "TimeLimitExceeded = 7"
definition ProvidedTestFailed :: ContainerStatus where "ProvidedTestFailed = 8"
definition CompilationFailed :: ContainerStatus where "CompilationFailed = 9"
definition RunTimeError :: ContainerStatus where "RunTimeError = 10"
definition NonDeterministicError :: ContainerStatus where "NonDeterministicError = 11"

lemmas test_status_defs = NoTest_def TestNotRan_def TestFailed_def TestPassed_def

lemmas status_defs =
  NotRan_def Created_def Running_def Killing_def Killed_def Finished_def
  MemoryConstraintExceeded_def TimeLimitExceeded_def ProvidedTestFailed_def
  CompilationFailed_def RunTimeError_def NonDeterministicError_def

subsection \<open>The generated String methods\<close>

text \<open>The slice \<open>s[a:b]\<close> of a string.\<close>

definition substring :: "string \<Rightarrow> nat \<Rightarrow> nat \<Rightarrow> string" where
  "substring s a b = take (b - a) (drop a s)"

definition ContainerStatus_name :: string where
  "ContainerStatus_name = ''NotRanCreatedRunningKillingKilledFinishedMemoryConstraintExceededTimeLimitExceededProvidedTestFailedCompilationFailedRunTimeErrorNonDeterministicError''"

definition ContainerStatus_index :: "nat list" where
  "ContainerStatus_index = [0, 6, 13, 20, 27, 33, 41, 65, 82, 100, 117, 129, 150]"

definition ContainerStatus_String :: "ContainerStatus \<Rightarrow> string" where
  "ContainerStatus_String i =
     (if i < 0 \<or> i \<ge> int (length ContainerStatus_index) - 1
      then ''ContainerStatus('' @ strconv_Itoa i @ '')''
      else substring ContainerStatus_name (ContainerStatus_index ! nat i) (ContainerStatus_index ! nat (i + 1)))"

definition ContainerTestStatus_name :: string where
  "ContainerTestStatus_name = ''NoTestTestNotRanTestFailedTestPassed''"

definition ContainerTestStatus_index :: "nat list" where
  "ContainerTestStatus_index = [0, 6, 16, 26, 36]"

definition ContainerTestStatus_String :: "ContainerTestStatus \<Rightarrow> string" where
  "ContainerTestStatus_String i =
     (if i < 0 \<or> i \<ge> int (length ContainerTestStatus_index) - 1
      then ''ContainerTestStatus('' @ strconv_Itoa i @ '')''
      else substring ContainerTestStatus_name (ContainerTestStatus_index ! nat i) (ContainerTestStatus_index ! nat (i + 1)))"

subsection \<open>What a stringer promises\<close>

text \<open>
  A declared constant prints as its identifier, every other value as the type name with the
  number in brackets. Two values never print the same.
\<close>

locale stringer =
  fixes to_string :: "int \<Rightarrow> string" and type_name :: string and names :: "string list"
  assumes declared: "n < length names \<Longrightarrow> to_string (int n) = names ! n"
    and undeclared: "\<not> (0 \<le> i \<and> i < int (length names)) \<Longrightarrow> to_string i = type_name @ ''('' @ strconv_Itoa i @ '')''"
    and distinct_names: "distinct names"
    and identifiers: "list_all (\<lambda>n. n \<noteq> [] \<and> CHR ''('' \<notin> set n) names"
begin

lemma to_string_in_names: "0 \<le> i \<Longrightarrow> i < int (length names) \<Longrightarrow> to_string i = names ! nat i \<and> names ! nat i \<in> set names"
  using declared [of "nat i"] by simp

lemma to_string_nonempty: "to_string i \<noteq> []"
  using to_string_in_names [of i] undeclared [of i] identifiers by (cases "0 \<le> i \<and> i < int (length names)") (auto simp: list_all_iff)

lemma to_string_inject: "to_string i = to_string j \<Longrightarrow> i = j"
proof -
  assume eq: "to_string i = to_string j"
  define inside where "inside k \<longleftrightarrow> 0 \<le> k \<and> k < int (length names)" for k
  have bracket: "CHR ''('' \<in> set (to_string k) \<longleftrightarrow> \<not> inside k" for k
    using to_string_in_names [of k] undeclared [of k] identifiers
    by (auto simp: inside_def list_all_iff)
  have same: "inside i \<longleftrightarrow> inside j" using bracket [of i] bracket [of j] eq by auto
  show "i = j"
  proof (cases "inside i")
    case True
    with same eq have "names ! nat i = names ! nat j"
      using to_string_in_names [of i] to_string_in_names [of j] by (simp add: inside_def)
    with True same distinct_names have "nat i = nat j"
      by (simp add: inside_def nth_eq_iff_index_eq nat_less_iff)
    with True same show ?thesis by (simp add: inside_def eq_nat_nat_iff)
  next
    case False
    with same have "to_string i = type_name @ ''('' @ strconv_Itoa i @ '')''"
      and "to_string j = type_name @ ''('' @ strconv_Itoa j @ '')''"
      using undeclared unfolding inside_def by blast+
    with eq have "type_name @ ''('' @ strconv_Itoa i @ '')'' = type_name @ ''('' @ strconv_Itoa j @ '')''"
      by (simp only:)
    then show ?thesis by simp
  qed
qed

end

definition status_names :: "string list" where
  "status_names =
     [''NotRan'', ''Created'', ''Running'', ''Killing'', ''Killed'', ''Finished'',
      ''MemoryConstraintExceeded'', ''TimeLimitExceeded'', ''ProvidedTestFailed'',
      ''CompilationFailed'', ''RunTimeError'', ''NonDeterministicError'']"

definition test_status_names :: "string list" where
  "test_status_names = [''NoTest'', ''TestNotRan'', ''TestFailed'', ''TestPassed'']"

lemma nat_cases_upto: "i < Suc n \<Longrightarrow> (i < n \<Longrightarrow> P) \<Longrightarrow> (i = n \<Longrightarrow> P) \<Longrightarrow> P"
  by (auto simp: less_Suc_eq)

lemma ContainerStatus_table:
  "list_all (\<lambda>i. ContainerStatus_String (int i) = status_names ! i) [0..<12]"
  by code_simp

lemma ContainerTestStatus_table:
  "list_all (\<lambda>i. ContainerTestStatus_String (int i) = test_status_names ! i) [0..<4]"
  by code_simp

interpretation container_status: stringer ContainerStatus_String "''ContainerStatus''" status_names
proof unfold_locales
  fix i :: nat
  assume "i < length status_names"
  then have "i \<in> set [0..<12]" by (simp add: status_names_def)
  with ContainerStatus_table show "ContainerStatus_String (int i) = status_names ! i"
    unfolding list_all_iff by blast
qed (auto simp: ContainerStatus_String_def ContainerStatus_index_def status_names_def)

interpretation test_status: stringer ContainerTestStatus_String "''ContainerTestStatus''" test_status_names
proof unfold_locales
  fix i :: nat
  assume "i < length test_status_names"
  then have "i \<in> set [0..<4]" by (simp add: test_status_names_def)
  with ContainerTestStatus_table show "ContainerTestStatus_String (int i) = test_status_names ! i"
    unfolding list_all_iff by blast
qed (auto simp: ContainerTestStatus_String_def ContainerTestStatus_index_def test_status_names_def)

text \<open>
  C40. The printed status determines the status: the declared constants print as their names and no
  other integer prints like one of them, in both enumerations.
\<close>

theorem status_strings_injective:
  "inj ContainerStatus_String \<and> inj ContainerTestStatus_String
     \<and> map ContainerStatus_String
         [NotRan, Created, Running, Killing, Killed, Finished, MemoryConstraintExceeded, TimeLimitExceeded,
          ProvidedTestFailed, CompilationFailed, RunTimeError, NonDeterministicError] = status_names
     \<and> map ContainerTestStatus_String [NoTest, TestNotRan, TestFailed, TestPassed] = test_status_names"
proof -
  have "map (\<lambda>i. ContainerStatus_String (int i)) [0..<12] = status_names"
    "map (\<lambda>i. ContainerTestStatus_String (int i)) [0..<4] = test_status_names"
    using ContainerStatus_table ContainerTestStatus_table
    by (auto simp: list_all_iff status_names_def test_status_names_def intro!: nth_equalityI)
  moreover have "inj ContainerStatus_String" by (rule injI) (rule container_status.to_string_inject)
  moreover have "inj ContainerTestStatus_String" by (rule injI) (rule test_status.to_string_inject)
  ultimately show ?thesis
    by (simp add: status_defs test_status_defs upt_rec numeral_eq_Suc)
qed

end
