(* ===== verification/Go_Path.thy ===== *)
theory Go_Path
  imports Go_Strings
begin

text \<open>
  \<open>filepath.Clean\<close> and \<open>filepath.Join\<close> on Unix paths, and their effect on plain elements: names
  that are not empty, not \<open>.\<close> or \<open>..\<close>, and hold no slash. On an absolute cleaned directory,
  joining a plain name appends one element, and distinct names give distinct paths.
\<close>

subsection \<open>Clean and Join\<close>

text \<open>
  Clean walks over the elements with a stack (the last element on top): empty elements and \<open>.\<close>
  are dropped, \<open>..\<close> removes the element before it, is dropped at the root, and is kept at the
  start of a relative path.
\<close>

fun clean_elem :: "bool \<Rightarrow> string list \<Rightarrow> string \<Rightarrow> string list" where
  "clean_elem rooted st e =
     (if e = [] \<or> e = ''.'' then st
      else if e = ''..'' then
        (case st of
           [] \<Rightarrow> if rooted then [] else [e]
         | x # xs \<Rightarrow> if x = ''..'' then e # st else xs)
      else e # st)"

definition filepath_Clean :: "string \<Rightarrow> string" where
  "filepath_Clean p =
     (if p = [] then ''.''
      else let rooted = (hd p = CHR ''/'');
               out = strings_Join (rev (foldl (clean_elem rooted) [] (strings_Split p ''/''))) ''/''
           in if rooted then CHR ''/'' # out
              else if out = [] then ''.'' else out)"

fun filepath_Join :: "string list \<Rightarrow> string" where
  "filepath_Join [] = []"
| "filepath_Join (e # es) =
     (if e = [] then filepath_Join es else filepath_Clean (strings_Join (e # es) ''/''))"

subsection \<open>Plain elements\<close>

definition plain :: "string \<Rightarrow> bool" where
  "plain e \<longleftrightarrow> e \<noteq> [] \<and> e \<noteq> ''.'' \<and> e \<noteq> ''..'' \<and> CHR ''/'' \<notin> set e"

definition abs_path :: "string list \<Rightarrow> string" where
  "abs_path es = CHR ''/'' # strings_Join es ''/''"

lemma foldl_clean_plain:
  "list_all plain es \<Longrightarrow> foldl (clean_elem r) st es = rev es @ st"
  by (induction es arbitrary: st) (auto simp: plain_def)

lemma strings_Join_snoc: "strings_Join (es @ [e]) sep = (if es = [] then e else strings_Join es sep @ sep @ e)"
proof (induction es)
  case Nil
  then show ?case by simp
next
  case (Cons x xs)
  then show ?case by (cases xs) auto
qed

lemma abs_path_not_Nil [simp]: "abs_path es \<noteq> []"
  by (simp add: abs_path_def)

lemma split_abs_path:
  assumes "list_all plain es"
  shows "strings_Split (abs_path es) ''/'' = (if es = [] then [[], []] else [] # es)"
proof -
  have "strings_Split (abs_path es) ''/'' = [] # strings_Split (strings_Join es ''/'') ''/''"
    using split_sep_Cons [of "CHR ''/''" "[]" "strings_Join es ''/''"] by (simp add: abs_path_def)
  moreover have "es \<noteq> [] \<Longrightarrow> strings_Split (strings_Join es ''/'') ''/'' = es"
    using assms by (intro split_join) (auto simp: list_all_iff plain_def)
  moreover have "strings_Split [] ''/'' = [[]]"
    by (simp add: strings_Split_def)
  ultimately show ?thesis by simp
qed

lemma clean_abs_path [path_simps]: "list_all plain es \<Longrightarrow> filepath_Clean (abs_path es) = abs_path es"
proof -
  assume es: "list_all plain es"
  have "foldl (clean_elem r) [] (strings_Split (abs_path es) ''/'') = rev es" for r
    using es by (simp add: split_abs_path foldl_clean_plain)
  then show ?thesis
    by (simp add: filepath_Clean_def Let_def) (simp add: abs_path_def)
qed

lemma split_abs_path_Nil_snoc: "plain e \<Longrightarrow> strings_Split (''//'' @ e) ''/'' = [[], [], e]"
  using split_sep_Cons [of "CHR ''/''" "[]" "CHR ''/'' # e"] split_sep_Cons [of "CHR ''/''" "[]" e]
    split_nosep [of "CHR ''/''" e]
  by (simp add: plain_def)

lemma join_abs_path [path_simps]:
  assumes "list_all plain es" and "plain e"
  shows "filepath_Join [abs_path es, e] = abs_path (es @ [e])"
proof (cases "es = []")
  case True
  have "filepath_Clean (''//'' @ e) = abs_path [e]"
    using assms split_abs_path_Nil_snoc [OF assms(2)]
    by (simp add: filepath_Clean_def Let_def abs_path_def plain_def)
  with True show ?thesis by (simp add: abs_path_def)
next
  case False
  then have "strings_Join [abs_path es, e] ''/'' = abs_path (es @ [e])"
    by (simp add: abs_path_def strings_Join_snoc)
  moreover have "filepath_Clean (abs_path (es @ [e])) = abs_path (es @ [e])"
    using assms by (intro clean_abs_path) simp
  ultimately show ?thesis by simp
qed

text \<open>The elements of a path, as the operating system resolves it: empty elements do not count.\<close>

definition path_elems :: "string \<Rightarrow> string list" where
  "path_elems p = filter (\<lambda>e. e \<noteq> []) (strings_Split p ''/'')"

lemma path_elems_abs_path [path_simps]:
  "list_all plain es \<Longrightarrow> path_elems (abs_path es) = es"
  by (auto simp: path_elems_def split_abs_path list_all_iff plain_def filter_id_conv)

lemma abs_path_inject:
  "list_all plain es \<Longrightarrow> list_all plain fs \<Longrightarrow> abs_path es = abs_path fs \<longleftrightarrow> es = fs"
  by (metis path_elems_abs_path)

text \<open>A leading extra slash, as \<open>ConvertPathToUnix\<close> adds one, does not change what is resolved.\<close>

lemma path_elems_slash [path_simps]: "path_elems (CHR ''/'' # p) = path_elems p"
  using split_sep_Cons [of "CHR ''/''" "[]" p] by (simp add: path_elems_def)

lemma clean_relative [path_simps]:
  assumes "list_all plain es" and "es \<noteq> []"
  shows "filepath_Clean (strings_Join es ''/'') = strings_Join es ''/''"
proof -
  obtain e es' where es: "es = e # es'" using assms(2) by (cases es) auto
  with assms(1) obtain c cs where e: "e = c # cs" "c \<noteq> CHR ''/''" by (cases e) (auto simp: plain_def)
  have start: "\<exists>x. strings_Join es ''/'' = c # x" using es e by (cases es') auto
  have "strings_Split (strings_Join es ''/'') ''/'' = es"
    using assms by (intro split_join) (auto simp: list_all_iff plain_def)
  then have "foldl (clean_elem False) [] (strings_Split (strings_Join es ''/'') ''/'') = rev es"
    using assms(1) by (simp add: foldl_clean_plain)
  with start e(2) show ?thesis by (auto simp: filepath_Clean_def Let_def)
qed

lemma join_relative [path_simps]: "plain a \<Longrightarrow> plain b \<Longrightarrow> filepath_Join [a, b] = a @ ''/'' @ b"
  using clean_relative [of "[a, b]"] by (simp add: plain_def)

lemma join_relative_inject:
  assumes "plain a" "plain b" "plain a'" "plain b'"
  shows "filepath_Join [a, b] = filepath_Join [a', b'] \<longleftrightarrow> a = a' \<and> b = b'"
proof
  assume "filepath_Join [a, b] = filepath_Join [a', b']"
  then have "strings_Split (strings_Join [a, b] ''/'') ''/'' = strings_Split (strings_Join [a', b'] ''/'') ''/''"
    using assms by (simp add: join_relative del: filepath_Join.simps)
  moreover have "strings_Split (strings_Join [x, y] ''/'') ''/'' = [x, y]" if "plain x" "plain y" for x y
    using that by (intro split_join) (auto simp: plain_def)
  ultimately show "a = a' \<and> b = b'" using assms by simp
qed simp

lemma join_join_abs_path [path_simps]:
  assumes "list_all plain es" and "plain a" and "plain b"
  shows "filepath_Join [filepath_Join [abs_path es, a], b] = abs_path (es @ [a, b])"
  using join_abs_path [of es a] join_abs_path [of "es @ [a]" b] assms by simp

end
