(* ===== verification/Compilers.thy ===== *)
theory Compilers
  imports Go_Path
begin

text \<open>
  \<open>internal/sandbox/compiler.go\<close>: the table of supported languages, the lookup by language name
  and the embedded templates. The Go table is a map, whose iteration order is not specified; here
  it is a list with distinct keys, \<open>Compilers_lookup\<close> is the map access \<open>Compilers[k]\<close>, and a loop over
  the table takes the order as an argument.
\<close>

record LanguageCompiler =
  lc_Language :: string
  lc_Dockerfile :: string
  lc_Compiler :: string
  lc_runSteps :: string
  lc_compileSteps :: "string slice"
  lc_Interpreter :: bool
  lc_VirtualMachineName :: string
  lc_SourceFile :: string
  lc_OutputFile :: string
  lc_OutputErrFile :: string
  lc_CompilerOutputFile :: string
  lc_InputFile :: string

definition native_compilers :: "(string \<times> LanguageCompiler) list" where
  [simp]: "native_compilers =
    [(''python2'', \<lparr>lc_Language = ''Python 2 (pypy)'',
        lc_Dockerfile = ''python2'',
        lc_Compiler = [],
        lc_runSteps = ''pypy /input/solution.py'',
        lc_compileSteps = None,
        lc_Interpreter = True,
        lc_VirtualMachineName = ''virtual_machine_python2'',
        lc_SourceFile = ''solution.py'',
        lc_OutputFile = ''output'',
        lc_OutputErrFile = ''output_error'',
        lc_CompilerOutputFile = ''compile'',
        lc_InputFile = ''input''\<rparr>),
     (''python'', \<lparr>lc_Language = ''Python (pypy)'',
        lc_Dockerfile = ''python'',
        lc_Compiler = [],
        lc_runSteps = ''pypy /input/solution.py'',
        lc_compileSteps = None,
        lc_Interpreter = True,
        lc_VirtualMachineName = ''virtual_machine_python'',
        lc_SourceFile = ''solution.py'',
        lc_OutputFile = ''output'',
        lc_OutputErrFile = ''output_error'',
        lc_CompilerOutputFile = ''compile'',
        lc_InputFile = ''input''\<rparr>),
     (''node'', \<lparr>lc_Language = ''NodeJs (Javascript)'',
        lc_Dockerfile = ''node'',
        lc_Compiler = [],
        lc_runSteps = ''node /input/solution.js'',
        lc_compileSteps = None,
        lc_Interpreter = True,
        lc_VirtualMachineName = ''virtual_machine_node'',
        lc_SourceFile = ''solution.js'',
        lc_OutputFile = ''output'',
        lc_OutputErrFile = ''output_error'',
        lc_CompilerOutputFile = ''compile'',
        lc_InputFile = ''input''\<rparr>),
     (''ruby'', \<lparr>lc_Language = ''Ruby'',
        lc_Dockerfile = ''ruby'',
        lc_Compiler = [],
        lc_runSteps = ''ruby /input/solution.rb'',
        lc_compileSteps = None,
        lc_Interpreter = True,
        lc_VirtualMachineName = ''virtual_machine_ruby'',
        lc_SourceFile = ''solution.rb'',
        lc_OutputFile = ''output'',
        lc_OutputErrFile = ''output_error'',
        lc_CompilerOutputFile = ''compile'',
        lc_InputFile = ''input''\<rparr>),
     (''rust'', \<lparr>lc_Language = ''Rust'',
        lc_Dockerfile = ''rust'',
        lc_Compiler = ''rustc'',
        lc_runSteps = ''/solution'',
        lc_compileSteps = Some [''rustc -o /solution /input/solution.rs''],
        lc_Interpreter = False,
        lc_VirtualMachineName = ''virtual_machine_rust'',
        lc_SourceFile = ''solution.rs'',
        lc_OutputFile = ''output'',
        lc_OutputErrFile = ''output_error'',
        lc_CompilerOutputFile = ''compile'',
        lc_InputFile = ''input''\<rparr>),
     (''go'', \<lparr>lc_Language = ''Golang'',
        lc_Dockerfile = ''go'',
        lc_Compiler = ''go'',
        lc_runSteps = ''/solution'',
        lc_compileSteps = Some [''cp /input/solution.go /project/main.go'', ''go build -o /solution /project/main.go''],
        lc_Interpreter = False,
        lc_VirtualMachineName = ''virtual_machine_go'',
        lc_SourceFile = ''solution.go'',
        lc_OutputFile = ''output'',
        lc_OutputErrFile = ''output_error'',
        lc_CompilerOutputFile = ''compile'',
        lc_InputFile = ''input''\<rparr>),
     (''c'', \<lparr>lc_Language = ''C'',
        lc_Dockerfile = ''gcc'',
        lc_Compiler = ''gcc'',
        lc_runSteps = ''/solution'',
        lc_compileSteps = Some [''gcc -g -O2 -std=gnu11 -static -o /solution /input/solution.c -lm''],
        lc_Interpreter = False,
        lc_VirtualMachineName = ''virtual_machine_gcc'',
        lc_SourceFile = ''solution.c'',
        lc_OutputFile = ''output'',
        lc_OutputErrFile = ''output_error'',
        lc_CompilerOutputFile = ''compile'',
        lc_InputFile = ''input''\<rparr>),
     (''cpp'', \<lparr>lc_Language = ''C++'',
        lc_Dockerfile = ''gcc'',
        lc_Compiler = ''gcc'',
        lc_runSteps = ''/solution'',
        lc_compileSteps = Some [''g++ -g -O2 -std=gnu++17 -static -lrt -Wl,--whole-archive -lpthread -Wl,--no-whole-archive -o /solution /input/solution.cpp''],
        lc_Interpreter = False,
        lc_VirtualMachineName = ''virtual_machine_gcc'',
        lc_SourceFile = ''solution.cpp'',
        lc_OutputFile = ''output'',
        lc_OutputErrFile = ''output_error'',
        lc_CompilerOutputFile = ''compile'',
        lc_InputFile = ''input''\<rparr>)]"

definition runtime_compilers :: "(string \<times> LanguageCompiler) list" where
  [simp]: "runtime_compilers =
    [(''fsharp'', \<lparr>lc_Language = ''F#'',
        lc_Dockerfile = ''dotnet'',
        lc_Compiler = ''dotnet'',
        lc_runSteps = ''/{{.ID}}-output/template-f'',
        lc_compileSteps = Some [''cp -R /template-f/ /{{.ID}}/'', ''cp /input/solution.fs /{{.ID}}/Program.fs'', ''dotnet build --configuration Release -o /{{.ID}}-output/ /{{.ID}}/''],
        lc_Interpreter = False,
        lc_VirtualMachineName = ''virtual_machine_dotnet'',
        lc_SourceFile = ''solution.fs'',
        lc_OutputFile = ''output'',
        lc_OutputErrFile = ''output_error'',
        lc_CompilerOutputFile = ''compile'',
        lc_InputFile = ''input''\<rparr>),
     (''csharp'', \<lparr>lc_Language = ''C#'',
        lc_Dockerfile = ''dotnet'',
        lc_Compiler = ''dotnet'',
        lc_runSteps = ''/{{.ID}}-output/template-c'',
        lc_compileSteps = Some [''cp -R /template-c/ /{{.ID}}/'', ''cp /input/solution.cs /{{.ID}}/Program.cs'', ''dotnet build --configuration Release -o /{{.ID}}-output/ /{{.ID}}/''],
        lc_Interpreter = False,
        lc_VirtualMachineName = ''virtual_machine_dotnet'',
        lc_SourceFile = ''solution.cs'',
        lc_OutputFile = ''output'',
        lc_OutputErrFile = ''output_error'',
        lc_CompilerOutputFile = ''compile'',
        lc_InputFile = ''input''\<rparr>),
     (''java'', \<lparr>lc_Language = ''Java'',
        lc_Dockerfile = ''openjdk'',
        lc_Compiler = ''openjdk'',
        lc_runSteps = ''java -Xmx2048m -cp . Solution'',
        lc_compileSteps = Some [''javac /input/Solution.java''],
        lc_Interpreter = False,
        lc_VirtualMachineName = ''virtual_machine_openjdk'',
        lc_SourceFile = ''Solution.java'',
        lc_OutputFile = ''output'',
        lc_OutputErrFile = ''output_error'',
        lc_CompilerOutputFile = ''compile'',
        lc_InputFile = ''input''\<rparr>),
     (''scala'', \<lparr>lc_Language = ''Scala'',
        lc_Dockerfile = ''openjdk'',
        lc_Compiler = ''openjdk'',
        lc_runSteps = ''/scala -J-Xmx2048m -cp . Solution'',
        lc_compileSteps = Some [''/scalac /input/Solution.scala''],
        lc_Interpreter = False,
        lc_VirtualMachineName = ''virtual_machine_openjdk'',
        lc_SourceFile = ''Solution.scala'',
        lc_OutputFile = ''output'',
        lc_OutputErrFile = ''output_error'',
        lc_CompilerOutputFile = ''compile'',
        lc_InputFile = ''input''\<rparr>),
     (''kotlin'', \<lparr>lc_Language = ''Kotlin'',
        lc_Dockerfile = ''openjdk'',
        lc_Compiler = ''openjdk'',
        lc_runSteps = ''java -Xmx2048m -jar /solution.jar'',
        lc_compileSteps = Some [''/kotlinc solution.kt -include-runtime -d /solution.jar''],
        lc_Interpreter = False,
        lc_VirtualMachineName = ''virtual_machine_openjdk'',
        lc_SourceFile = ''solution.kt'',
        lc_OutputFile = ''output'',
        lc_OutputErrFile = ''output_error'',
        lc_CompilerOutputFile = ''compile'',
        lc_InputFile = ''input''\<rparr>),
     (''php'', \<lparr>lc_Language = ''PHP'',
        lc_Dockerfile = ''php'',
        lc_Compiler = [],
        lc_runSteps = ''php /input/solution.php'',
        lc_compileSteps = None,
        lc_Interpreter = True,
        lc_VirtualMachineName = ''virtual_machine_php'',
        lc_SourceFile = ''solution.php'',
        lc_OutputFile = ''output'',
        lc_OutputErrFile = ''output_error'',
        lc_CompilerOutputFile = ''compile'',
        lc_InputFile = ''input''\<rparr>)]"

definition Compilers :: "(string \<times> LanguageCompiler) list" where
  "Compilers = native_compilers @ runtime_compilers"

text \<open>Reading a missing key of a map of pointers gives the nil pointer.\<close>

definition Compilers_lookup :: "string \<Rightarrow> LanguageCompiler option" where
  "Compilers_lookup k = map_of Compilers k"

definition mustGetCompilerByLanguage :: "string \<Rightarrow> panic + LanguageCompiler" where
  "mustGetCompilerByLanguage language =
     (case Compilers_lookup (strings_ToLower language) of
        Some c \<Rightarrow> Inr c
      | None \<Rightarrow> Inl (PanicMessage (''language compiler does not exist for language: '' @ language)))"

subsection \<open>Embedded templates\<close>

text \<open>
  The embedded file system is what \<open>go:embed templates/*\<close> put into the binary; it is a parameter,
  a map from file names to contents. The \<open>sync.Once\<close> guards the package variable.
\<close>

record template_state =
  ts_once :: bool
  CompilerTemplate :: "string \<rightharpoonup> string"

definition initial_templates :: template_state where
  "initial_templates = \<lparr>ts_once = False, CompilerTemplate = Map.empty\<rparr>"

fun load_templates :: "(string \<rightharpoonup> bytes) \<Rightarrow> string list \<Rightarrow> (string \<rightharpoonup> string) \<Rightarrow> (string \<rightharpoonup> string)" where
  "load_templates content [] m = m"
| "load_templates content (s # ss) m =
     (case content (''templates/'' @ s @ ''.txt'') of
        None \<Rightarrow> load_templates content ss m
      | Some data \<Rightarrow> load_templates content ss (m(s \<mapsto> data)))"

definition LoadEmbeddedTemplateFiles :: "(string \<rightharpoonup> bytes) \<Rightarrow> string list \<Rightarrow> template_state \<Rightarrow> template_state" where
  "LoadEmbeddedTemplateFiles content order st =
     (if ts_once st then st
      else st\<lparr>ts_once := True, CompilerTemplate := load_templates content order (CompilerTemplate st)\<rparr>)"

subsection \<open>The table\<close>

lemma distinct_Compilers: "distinct (map fst Compilers)"
  by (simp add: Compilers_def)

lemma Compilers_lookup_iff: "Compilers_lookup k = Some c \<longleftrightarrow> (k, c) \<in> set Compilers"
  using distinct_Compilers by (simp add: Compilers_lookup_def)

lemma Compilers_lookup_dom: "Compilers_lookup k \<noteq> None \<longleftrightarrow> k \<in> set (map fst Compilers)"
  by (simp add: Compilers_lookup_def map_of_eq_None_iff)

lemma Compilers_all: "Compilers_lookup k = Some c \<Longrightarrow> list_all (\<lambda>(k, c). P k c) Compilers \<Longrightarrow> P k c"
  by (auto simp: Compilers_lookup_iff list_all_iff)

text \<open>
  What the sandbox and the runner rely on: every file name is a plain path element, the files the
  loader and the runner put in the working directory have different names, and a language is
  interpreted exactly when it has no compile steps.
\<close>

definition compiler_ok :: "LanguageCompiler \<Rightarrow> bool" where
  "compiler_ok c \<longleftrightarrow>
     list_all plain [lc_SourceFile c, lc_InputFile c, lc_OutputFile c, lc_OutputErrFile c, lc_CompilerOutputFile c]
     \<and> distinct [lc_SourceFile c, lc_InputFile c, ''runner.json'', ''runner-out.json'',
                 ''run-standard-output'', ''run-error-output'']
     \<and> distinct [lc_SourceFile c, lc_OutputFile c, lc_OutputErrFile c, lc_CompilerOutputFile c]
     \<and> lc_runSteps c \<noteq> []
     \<and> (lc_Interpreter c \<longleftrightarrow> elems (lc_compileSteps c) = [])"

lemma Compilers_table_ok: "list_all (\<lambda>(k, c). compiler_ok c) Compilers"
  by (simp add: Compilers_def compiler_ok_def plain_def)

lemma Compilers_ok: "Compilers_lookup k = Some c \<Longrightarrow> compiler_ok c"
  using Compilers_table_ok by (rule Compilers_all [where P = "\<lambda>k c. compiler_ok c", rotated])

lemma load_templates_apply:
  "load_templates content order m s =
     (if s \<in> set order \<and> content (''templates/'' @ s @ ''.txt'') \<noteq> None
      then content (''templates/'' @ s @ ''.txt'') else m s)"
  by (induction order arbitrary: m) (auto split: option.splits)

lemma load_templates_complete:
  assumes "set order = set (map fst Compilers)"
  shows "load_templates content order Map.empty =
           (\<lambda>s. if Compilers_lookup s = None then None else content (''templates/'' @ s @ ''.txt''))"
proof
  fix s
  show "load_templates content order Map.empty s = (if Compilers_lookup s = None then None else content (''templates/'' @ s @ ''.txt''))"
    using Compilers_lookup_dom [of s] by (cases "Compilers_lookup s") (simp_all add: load_templates_apply assms)
qed

text \<open>
  Whatever order the map of languages is iterated in, the first call loads for every supported
  language exactly the embedded file that bears its name, if there is one; later calls change
  nothing.
\<close>

theorem LoadEmbeddedTemplateFiles_loads:
  assumes "set order = set (map fst Compilers)"
  shows "CompilerTemplate (LoadEmbeddedTemplateFiles content order initial_templates) =
           (\<lambda>s. if Compilers_lookup s = None then None else content (''templates/'' @ s @ ''.txt''))
         \<and> LoadEmbeddedTemplateFiles content' order' (LoadEmbeddedTemplateFiles content order initial_templates) =
           LoadEmbeddedTemplateFiles content order initial_templates"
  by (simp add: LoadEmbeddedTemplateFiles_def initial_templates_def load_templates_complete [OF assms])

theorem LoadEmbeddedTemplateFiles_loads_witness:
  "CompilerTemplate (LoadEmbeddedTemplateFiles [''templates/go.txt'' \<mapsto> ''package main'', ''templates/ada.txt'' \<mapsto> ''x'']
       (rev (map fst Compilers)) initial_templates) ''go'' = Some ''package main''
     \<and> CompilerTemplate (LoadEmbeddedTemplateFiles [''templates/go.txt'' \<mapsto> ''package main'', ''templates/ada.txt'' \<mapsto> ''x'']
       (rev (map fst Compilers)) initial_templates) ''ada'' = None"
  using LoadEmbeddedTemplateFiles_loads [of "rev (map fst Compilers)"]
  by (simp add: Compilers_lookup_def) (simp add: Compilers_def)

end
