(* ===== verification/Go_Filesystem.thy ===== *)
theory Go_Filesystem
  imports Go_Path
begin

text \<open>
  The file system calls of the \<open>os\<close> package the program makes. A file system holds regular files
  and directories by their path elements. Which calls the operating system refuses for other
  reasons (permissions, a full disk, a vanished device) is the field \<open>fault\<close>, an arbitrary
  predicate, so that every error branch of the callers can be taken.
\<close>

datatype fs_op = OpMkdir | OpCreate | OpWrite | OpRead | OpStat | OpRemove

record fs =
  files :: "string list \<rightharpoonup> bytes"
  dirs :: "string list set"
  fault :: "fs_op \<Rightarrow> string list \<Rightarrow> bool"

text \<open>
  \<open>os.MkdirAll\<close> makes the missing directories of the path from the root down, and stops at the
  first one it cannot make: a regular file is in the way, or the call is refused.
\<close>

fun mkdir_each :: "fs \<Rightarrow> string list list \<Rightarrow> error option \<times> fs" where
  "mkdir_each f [] = (None, f)"
| "mkdir_each f (d # ds) =
     (if d \<in> dirs f then mkdir_each f ds
      else if files f d \<noteq> None then (Some (OsError ''not a directory''), f)
      else if fault f OpMkdir d then (Some (OsError ''mkdir''), f)
      else mkdir_each (f\<lparr>dirs := insert d (dirs f)\<rparr>) ds)"

definition os_MkdirAll :: "string \<Rightarrow> fs \<Rightarrow> error option \<times> fs" where
  "os_MkdirAll p f = mkdir_each f (prefixes (path_elems p))"

text \<open>\<open>os.Create\<close> truncates or makes the file; its directory must exist.\<close>

definition os_Create :: "string \<Rightarrow> fs \<Rightarrow> error option \<times> fs" where
  "os_Create p f =
     (let k = path_elems p
      in if k \<in> dirs f \<or> butlast k \<notin> dirs f \<or> fault f OpCreate k
         then (Some (OsError ''create''), f)
         else (None, f\<lparr>files := (files f)(k \<mapsto> [])\<rparr>))"

text \<open>Writing to a file opened with \<open>os.Create\<close> appends at its end.\<close>

definition file_Write :: "string \<Rightarrow> bytes \<Rightarrow> fs \<Rightarrow> error option \<times> fs" where
  "file_Write p data f =
     (let k = path_elems p
      in if fault f OpWrite k then (Some (OsError ''write''), f)
         else (None, f\<lparr>files := (files f)(k \<mapsto> (case files f k of None \<Rightarrow> [] | Some old \<Rightarrow> old) @ data)\<rparr>))"

definition os_ReadFile :: "string \<Rightarrow> fs \<Rightarrow> error + bytes" where
  "os_ReadFile p f =
     (let k = path_elems p
      in if fault f OpRead k then Inl (OsError ''read'')
         else (case files f k of
                 None \<Rightarrow> Inl (if k \<in> dirs f then OsError ''is a directory'' else ErrNotExist p)
               | Some b \<Rightarrow> Inr b))"

definition os_Stat :: "string \<Rightarrow> fs \<Rightarrow> error option" where
  "os_Stat p f =
     (let k = path_elems p
      in if fault f OpStat k then Some (OsError ''stat'')
         else if files f k = None \<and> k \<notin> dirs f then Some (ErrNotExist p)
         else None)"

text \<open>\<open>os.RemoveAll\<close> removes the path and everything below it; a refused call removes nothing here.\<close>

definition below :: "string list \<Rightarrow> string list \<Rightarrow> bool" where
  "below d k \<longleftrightarrow> prefix d k"

definition os_RemoveAll :: "string \<Rightarrow> fs \<Rightarrow> error option \<times> fs" where
  "os_RemoveAll p f =
     (let d = path_elems p
      in if fault f OpRemove d then (Some (OsError ''remove''), f)
         else (None, f\<lparr>files := (\<lambda>k. if below d k then None else files f k),
                        dirs := {k \<in> dirs f. \<not> below d k}\<rparr>))"

subsection \<open>What the operations keep\<close>

lemma mkdir_each_frame:
  "mkdir_each f ds = (r, f') \<Longrightarrow> files f' = files f \<and> fault f' = fault f \<and> dirs f \<subseteq> dirs f' \<and> dirs f' \<subseteq> dirs f \<union> set ds"
proof (induction f ds arbitrary: r f' rule: mkdir_each.induct)
  case (1 f)
  then show ?case by simp
next
  case (2 f d ds)
  show ?case
  proof (cases "d \<in> dirs f")
    case True
    with 2 have "mkdir_each f ds = (r, f')" by simp
    with "2.IH"(1) [OF True] show ?thesis by auto
  next
    case False
    show ?thesis
    proof (cases "files f d \<noteq> None \<or> fault f OpMkdir d")
      case True
      with "2.prems" False have "f' = f" by (auto split: if_splits)
      then show ?thesis by auto
    next
      case ok: False
      then have pre: "\<not> files f d \<noteq> None" "\<not> fault f OpMkdir d" by auto
      with "2.prems" False have "mkdir_each (f\<lparr>dirs := insert d (dirs f)\<rparr>) ds = (r, f')" by simp
      from "2.IH"(2) [OF False pre this] show ?thesis by auto
    qed
  qed
qed

lemma mkdir_each_ok: "mkdir_each f ds = (None, f') \<Longrightarrow> set ds \<subseteq> dirs f'"
proof (induction f ds rule: mkdir_each.induct)
  case (1 f)
  then show ?case by simp
next
  case (2 f d ds)
  show ?case
  proof (cases "d \<in> dirs f")
    case True
    with "2.prems" have step: "mkdir_each f ds = (None, f')" by simp
    with "2.IH"(1) [OF True] mkdir_each_frame [OF step] True show ?thesis by auto
  next
    case False
    with "2.prems" have ok: "\<not> files f d \<noteq> None" "\<not> fault f OpMkdir d"
      and step: "mkdir_each (f\<lparr>dirs := insert d (dirs f)\<rparr>) ds = (None, f')"
      by (auto split: if_splits)
    with "2.IH"(2) [OF False] mkdir_each_frame [OF step] show ?thesis by auto
  qed
qed

lemma mkdir_each_total:
  assumes "\<forall>op k. \<not> fault f op k" and "list_all (\<lambda>k. files f k = None) ds"
  shows "fst (mkdir_each f ds) = None"
  using assms by (induction f ds rule: mkdir_each.induct) auto

lemma os_MkdirAll_frame:
  "os_MkdirAll p f = (r, f') \<Longrightarrow> files f' = files f \<and> fault f' = fault f \<and> dirs f \<subseteq> dirs f'
     \<and> dirs f' \<subseteq> dirs f \<union> set (prefixes (path_elems p))"
  unfolding os_MkdirAll_def by (rule mkdir_each_frame)

lemma os_MkdirAll_ok: "os_MkdirAll p f = (None, f') \<Longrightarrow> path_elems p \<in> dirs f'"
  unfolding os_MkdirAll_def by (drule mkdir_each_ok) auto

lemma os_Create_cases:
  assumes "os_Create p f = (r, f')"
  obtains (ok) "r = None" "f' = f\<lparr>files := (files f)(path_elems p \<mapsto> [])\<rparr>" "butlast (path_elems p) \<in> dirs f"
  | (failed) e where "r = Some e" "f' = f"
  using assms by (auto simp: os_Create_def Let_def split: if_splits)

lemma file_Write_cases:
  assumes "file_Write p d f = (r, f')"
  obtains (ok) "r = None" "f' = f\<lparr>files := (files f)(path_elems p \<mapsto> (case files f (path_elems p) of None \<Rightarrow> [] | Some old \<Rightarrow> old) @ d)\<rparr>"
  | (failed) e where "r = Some e" "f' = f"
  using assms by (auto simp: file_Write_def Let_def split: if_splits)

lemma os_RemoveAll_ok:
  "os_RemoveAll p f = (None, f') \<Longrightarrow> below (path_elems p) k \<Longrightarrow> files f' k = None \<and> k \<notin> dirs f'"
  by (auto simp: os_RemoveAll_def Let_def split: if_splits)

lemma os_RemoveAll_frame:
  "os_RemoveAll p f = (r, f') \<Longrightarrow> fault f' = fault f \<and> (\<forall>k. \<not> below (path_elems p) k \<longrightarrow> files f' k = files f k \<and> (k \<in> dirs f' \<longleftrightarrow> k \<in> dirs f))"
  by (auto simp: os_RemoveAll_def Let_def split: if_splits)

end
