(* ===== verification/Go_Json.thy ===== *)
theory Go_Json
  imports Go_Strings
begin

text \<open>
  The package \<open>encoding/json\<close> as the program uses it: the text \<open>json.Marshal\<close> and
  \<open>json.MarshalIndent\<close> write, the text \<open>json.Unmarshal\<close> accepts, and how a decoded value is
  stored in the fields of a Go struct. The main result is that what is written is read back:
  \<open>json_parse\<close> inverts both writers on values whose strings are valid UTF-8.

  A number keeps its literal, as the decoder does. Field names match with ASCII case folding.
\<close>

datatype json =
    JNull
  | JBool bool
  | JNum string
  | JStr string
  | JArr "json list"
  | JObj "(string \<times> json) list"

subsection \<open>UTF-8\<close>

text \<open>
  The length of the valid multi-byte sequence a string starts with, 0 if there is none: the
  ranges of \<open>utf8.DecodeRune\<close>, without overlong forms, surrogates and values past U+10FFFF.
\<close>

definition byte_in :: "nat \<Rightarrow> nat \<Rightarrow> char \<Rightarrow> bool" where
  "byte_in lo hi c \<longleftrightarrow> lo \<le> (of_char c :: nat) \<and> (of_char c :: nat) \<le> hi"

definition second_ok :: "char \<Rightarrow> char \<Rightarrow> bool" where
  "second_ok a b \<longleftrightarrow>
     (let n = of_char a :: nat
      in if n = 224 then byte_in 160 191 b
         else if n = 237 then byte_in 128 159 b
         else if n = 240 then byte_in 144 191 b
         else if n = 244 then byte_in 128 143 b
         else byte_in 128 191 b)"

definition seq_len :: "char \<Rightarrow> nat" where
  "seq_len a =
     (if byte_in 194 223 a then 2 else if byte_in 224 239 a then 3
      else if byte_in 240 244 a then 4 else 0)"

definition utf8_size :: "string \<Rightarrow> nat" where
  "utf8_size s =
     (case s of
        [] \<Rightarrow> 0
      | a # cs \<Rightarrow>
          let k = seq_len a
          in if k \<noteq> 0 \<and> k \<le> length s \<and> second_ok a (hd cs)
                \<and> list_all (byte_in 128 191) (take (k - 1) cs)
             then k else 0)"

definition is_ascii :: "char \<Rightarrow> bool" where
  "is_ascii c \<longleftrightarrow> (of_char c :: nat) < 128"

fun valid_utf8 :: "string \<Rightarrow> bool" where
  "valid_utf8 [] = True"
| "valid_utf8 (c # cs) =
     (if is_ascii c then valid_utf8 cs
      else utf8_size (c # cs) \<noteq> 0 \<and> valid_utf8 (drop (utf8_size (c # cs) - 1) cs))"

text \<open>\<open>utf8.EncodeRune\<close>, for a code point that is not a surrogate.\<close>

definition encode_rune :: "nat \<Rightarrow> string" where
  "encode_rune r =
     (if r < 128 then [char_of r]
      else if r < 2048 then [char_of (192 + r div 64), char_of (128 + r mod 64)]
      else if r < 65536 then
        [char_of (224 + r div 4096), char_of (128 + r div 64 mod 64), char_of (128 + r mod 64)]
      else
        [char_of (240 + r div 262144), char_of (128 + r div 4096 mod 64),
         char_of (128 + r div 64 mod 64), char_of (128 + r mod 64)])"

abbreviation replacement :: string where
  "replacement \<equiv> [CHR 0xEF, CHR 0xBF, CHR 0xBD]"

subsection \<open>Writing\<close>

definition hex_char :: "nat \<Rightarrow> char" where
  "hex_char d = (if d < 10 then char_of (48 + d) else char_of (87 + d))"

definition u_escape :: "nat \<Rightarrow> string" where
  "u_escape n = [CHR 0x5C, CHR ''u'', hex_char (n div 4096 mod 16), hex_char (n div 256 mod 16),
                 hex_char (n div 16 mod 16), hex_char (n mod 16)]"

definition escape_ascii :: "char \<Rightarrow> string" where
  "escape_ascii c =
     (if c = CHR 0x22 \<or> c = CHR 0x5C then [CHR 0x5C, c]
      else if c = CHR 0x0A then [CHR 0x5C, CHR ''n'']
      else if c = CHR 0x0D then [CHR 0x5C, CHR ''r'']
      else if c = CHR 0x09 then [CHR 0x5C, CHR ''t'']
      else if (of_char c :: nat) < 32 \<or> c = CHR ''<'' \<or> c = CHR ''>'' \<or> c = CHR ''&''
      then u_escape (of_char c)
      else [c])"

text \<open>
  The line separators U+2028 and U+2029 are the bytes \<open>E2 80 A8\<close> and \<open>E2 80 A9\<close>; a byte that
  starts no valid sequence is written as U+FFFD.
\<close>

definition escape_seq :: "string \<Rightarrow> string" where
  "escape_seq q =
     (if q = [CHR 0xE2, CHR 0x80, CHR 0xA8] then u_escape 8232
      else if q = [CHR 0xE2, CHR 0x80, CHR 0xA9] then u_escape 8233
      else q)"

fun escape :: "string \<Rightarrow> string" where
  "escape [] = []"
| "escape (c # cs) =
     (if is_ascii c then escape_ascii c @ escape cs
      else if utf8_size (c # cs) = 0 then u_escape 65533 @ escape cs
      else escape_seq (c # take (utf8_size (c # cs) - 1) cs) @ escape (drop (utf8_size (c # cs) - 1) cs))"

definition quote :: "string \<Rightarrow> string" where
  "quote s = CHR 0x22 # escape s @ [CHR 0x22]"

text \<open>
  One writer for both layouts: \<open>nl n\<close> is what separates elements at nesting level \<open>n\<close> (nothing
  for \<open>Marshal\<close>, a newline and tabs for \<open>MarshalIndent\<close>) and \<open>sp\<close> what follows a colon.
\<close>

fun write_value :: "(nat \<Rightarrow> string) \<Rightarrow> string \<Rightarrow> nat \<Rightarrow> json \<Rightarrow> string"
and write_elems :: "(nat \<Rightarrow> string) \<Rightarrow> string \<Rightarrow> nat \<Rightarrow> json list \<Rightarrow> string"
and write_members :: "(nat \<Rightarrow> string) \<Rightarrow> string \<Rightarrow> nat \<Rightarrow> (string \<times> json) list \<Rightarrow> string" where
  "write_value nl sp n JNull = ''null''"
| "write_value nl sp n (JBool b) = (if b then ''true'' else ''false'')"
| "write_value nl sp n (JNum lit) = lit"
| "write_value nl sp n (JStr s) = quote s"
| "write_value nl sp n (JArr vs) =
     (if vs = [] then ''[]'' else CHR ''['' # write_elems nl sp (Suc n) vs @ nl n @ '']'')"
| "write_value nl sp n (JObj ms) =
     (if ms = [] then ''{}'' else CHR ''{'' # write_members nl sp (Suc n) ms @ nl n @ ''}'')"
| "write_elems nl sp n [] = []"
| "write_elems nl sp n (v # vs) =
     nl n @ write_value nl sp n v @ (if vs = [] then [] else CHR '','' # write_elems nl sp n vs)"
| "write_members nl sp n [] = []"
| "write_members nl sp n ((k, v) # ms) =
     nl n @ quote k @ CHR '':'' # sp @ write_value nl sp n v
       @ (if ms = [] then [] else CHR '','' # write_members nl sp n ms)"

definition json_Marshal :: "json \<Rightarrow> bytes" where
  "json_Marshal v = write_value (\<lambda>n. []) [] 0 v"

definition json_MarshalIndent :: "json \<Rightarrow> bytes" where
  "json_MarshalIndent v = write_value (\<lambda>n. CHR 0x0A # replicate n (CHR 0x09)) '' '' 0 v"

subsection \<open>Reading\<close>

definition is_ws :: "char \<Rightarrow> bool" where
  "is_ws c \<longleftrightarrow> c = CHR '' '' \<or> c = CHR 0x09 \<or> c = CHR 0x0A \<or> c = CHR 0x0D"

definition skip_ws :: "string \<Rightarrow> string" where
  "skip_ws s = dropWhile is_ws s"

definition hex_val :: "char \<Rightarrow> nat option" where
  "hex_val c =
     (if byte_in 48 57 c then Some (of_char c - 48)
      else if byte_in 97 102 c then Some (of_char c - 87)
      else if byte_in 65 70 c then Some (of_char c - 55)
      else None)"

definition getu4 :: "string \<Rightarrow> nat option" where
  "getu4 s =
     (case s of
        a # b # c # d # r \<Rightarrow>
          (case (hex_val a, hex_val b, hex_val c, hex_val d) of
             (Some i, Some j, Some k, Some l) \<Rightarrow> Some (((i * 16 + j) * 16 + k) * 16 + l)
           | _ \<Rightarrow> None)
      | _ \<Rightarrow> None)"

definition is_surrogate :: "nat \<Rightarrow> bool" where
  "is_surrogate u \<longleftrightarrow> 55296 \<le> u \<and> u < 57344"

text \<open>\<open>utf16.DecodeRune\<close> on a high surrogate and the escape that follows it.\<close>

definition surrogate_pair :: "nat \<Rightarrow> string \<Rightarrow> nat option" where
  "surrogate_pair u s =
     (if u < 56320 \<and> take 2 s = [CHR 0x5C, CHR ''u''] then
        (case getu4 (drop 2 s) of
           Some l \<Rightarrow> if 56320 \<le> l \<and> l < 57344
                     then Some (65536 + (u - 55296) * 1024 + (l - 56320)) else None
         | None \<Rightarrow> None)
      else None)"

definition simple_escape :: "char \<Rightarrow> char option" where
  "simple_escape e =
     (if e = CHR 0x22 \<or> e = CHR 0x5C \<or> e = CHR ''/'' then Some e
      else if e = CHR ''b'' then Some (CHR 0x08)
      else if e = CHR ''f'' then Some (CHR 0x0C)
      else if e = CHR ''n'' then Some (CHR 0x0A)
      else if e = CHR ''r'' then Some (CHR 0x0D)
      else if e = CHR ''t'' then Some (CHR 0x09)
      else None)"

definition emit :: "string \<Rightarrow> (string \<times> string) option \<Rightarrow> (string \<times> string) option" where
  "emit p r = map_option (\<lambda>(a, b). (p @ a, b)) r"

text \<open>The body of a string literal up to its closing quote: the decoded bytes and the rest.\<close>

function parse_str :: "string \<Rightarrow> (string \<times> string) option" where
  "parse_str s =
     (case s of
        [] \<Rightarrow> None
      | c # cs \<Rightarrow>
          if c = CHR 0x22 then Some ([], cs)
          else if c = CHR 0x5C then
            (case cs of
               [] \<Rightarrow> None
             | e # r \<Rightarrow>
                 if e = CHR ''u'' then
                   (case getu4 r of
                      None \<Rightarrow> None
                    | Some u \<Rightarrow>
                        if is_surrogate u then
                          (case surrogate_pair u (drop 4 r) of
                             Some p \<Rightarrow> emit (encode_rune p) (parse_str (drop 10 r))
                           | None \<Rightarrow> emit replacement (parse_str (drop 4 r)))
                        else emit (encode_rune u) (parse_str (drop 4 r)))
                 else
                   (case simple_escape e of
                      None \<Rightarrow> None
                    | Some b \<Rightarrow> emit [b] (parse_str r)))
          else if (of_char c :: nat) < 32 then None
          else if is_ascii c then emit [c] (parse_str cs)
          else if utf8_size s = 0 then emit replacement (parse_str cs)
          else emit (c # take (utf8_size s - 1) cs) (parse_str (drop (utf8_size s - 1) cs)))"
  by pat_completeness auto
termination
  by (relation "measure length") auto

declare parse_str.simps [simp del]

text \<open>The number grammar: a sign, an integer part without leading zeros, a fraction, an exponent.\<close>

definition scan_digits :: "string \<Rightarrow> (string \<times> string) option" where
  "scan_digits s = (if s \<noteq> [] \<and> is_digit (hd s) then Some (takeWhile is_digit s, dropWhile is_digit s) else None)"

definition scan_int :: "string \<Rightarrow> (string \<times> string) option" where
  "scan_int s =
     (case s of
        [] \<Rightarrow> None
      | c # cs \<Rightarrow> if c = CHR ''0'' then Some ([c], cs) else scan_digits s)"

definition scan_frac :: "string \<Rightarrow> (string \<times> string) option" where
  "scan_frac s =
     (case s of
        [] \<Rightarrow> Some ([], s)
      | c # cs \<Rightarrow> if c = CHR ''.'' then map_option (\<lambda>(d, r). (c # d, r)) (scan_digits cs) else Some ([], s))"

definition scan_exp :: "string \<Rightarrow> (string \<times> string) option" where
  "scan_exp s =
     (case s of
        [] \<Rightarrow> Some ([], s)
      | c # cs \<Rightarrow>
          if c = CHR ''e'' \<or> c = CHR ''E'' then
            (case cs of
               [] \<Rightarrow> None
             | d # ds \<Rightarrow>
                 if d = CHR ''+'' \<or> d = CHR ''-''
                 then map_option (\<lambda>(x, r). (c # d # x, r)) (scan_digits ds)
                 else map_option (\<lambda>(x, r). (c # x, r)) (scan_digits cs))
          else Some ([], s))"

definition scan_number :: "string \<Rightarrow> (string \<times> string) option" where
  "scan_number s =
     (let neg = (s \<noteq> [] \<and> hd s = CHR ''-''); body = (if neg then tl s else s)
      in case scan_int body of
           None \<Rightarrow> None
         | Some (i, r1) \<Rightarrow>
             (case scan_frac r1 of
                None \<Rightarrow> None
              | Some (f, r2) \<Rightarrow>
                  (case scan_exp r2 of
                     None \<Rightarrow> None
                   | Some (e, r3) \<Rightarrow> Some ((if neg then [CHR ''-''] else []) @ i @ f @ e, r3))))"

definition parse_word :: "string \<Rightarrow> json \<Rightarrow> string \<Rightarrow> (json \<times> string) option" where
  "parse_word w v s = (if take (length w) s = w then Some (v, drop (length w) s) else None)"

text \<open>
  The recursive descent. The first number is fuel: each call spends one unit, and
  \<open>parse_fuel_enough\<close> below shows that \<open>2 * length s + 1\<close> units are enough for any text \<open>s\<close>. The second is the
  remaining nesting depth, 10000 at the top as in Go's scanner.
\<close>

fun parse_value :: "nat \<Rightarrow> nat \<Rightarrow> string \<Rightarrow> (json \<times> string) option"
and parse_elems :: "nat \<Rightarrow> nat \<Rightarrow> string \<Rightarrow> (json list \<times> string) option"
and parse_members :: "nat \<Rightarrow> nat \<Rightarrow> string \<Rightarrow> ((string \<times> json) list \<times> string) option" where
  "parse_value 0 d s = None"
| "parse_value (Suc n) d s =
     (case skip_ws s of
        [] \<Rightarrow> None
      | c # cs \<Rightarrow>
          if c = CHR 0x22 then map_option (\<lambda>(x, r). (JStr x, r)) (parse_str cs)
          else if c = CHR ''['' then
            (if d = 0 then None
             else (case skip_ws cs of
                     [] \<Rightarrow> None
                   | e # r \<Rightarrow> if e = CHR '']'' then Some (JArr [], r)
                              else map_option (\<lambda>(vs, q). (JArr vs, q)) (parse_elems n (d - 1) cs)))
          else if c = CHR ''{'' then
            (if d = 0 then None
             else (case skip_ws cs of
                     [] \<Rightarrow> None
                   | e # r \<Rightarrow> if e = CHR ''}'' then Some (JObj [], r)
                              else map_option (\<lambda>(ms, q). (JObj ms, q)) (parse_members n (d - 1) cs)))
          else if c = CHR ''t'' then parse_word ''true'' (JBool True) (c # cs)
          else if c = CHR ''f'' then parse_word ''false'' (JBool False) (c # cs)
          else if c = CHR ''n'' then parse_word ''null'' JNull (c # cs)
          else map_option (\<lambda>(lit, r). (JNum lit, r)) (scan_number (c # cs)))"
| "parse_elems 0 d s = None"
| "parse_elems (Suc n) d s =
     (case parse_value n d s of
        None \<Rightarrow> None
      | Some (v, r) \<Rightarrow>
          (case skip_ws r of
             [] \<Rightarrow> None
           | c # q \<Rightarrow> if c = CHR '','' then map_option (\<lambda>(vs, t). (v # vs, t)) (parse_elems n d q)
                      else if c = CHR '']'' then Some ([v], q)
                      else None))"
| "parse_members 0 d s = None"
| "parse_members (Suc n) d s =
     (case skip_ws s of
        [] \<Rightarrow> None
      | b # bs \<Rightarrow>
          if b \<noteq> CHR 0x22 then None
          else (case parse_str bs of
                  None \<Rightarrow> None
                | Some (k, r) \<Rightarrow>
                    (case skip_ws r of
                       [] \<Rightarrow> None
                     | c # q \<Rightarrow>
                         if c \<noteq> CHR '':'' then None
                         else (case parse_value n d q of
                                 None \<Rightarrow> None
                               | Some (v, t) \<Rightarrow>
                                   (case skip_ws t of
                                      [] \<Rightarrow> None
                                    | e # u \<Rightarrow>
                                        if e = CHR '','' then map_option (\<lambda>(ms, w). ((k, v) # ms, w)) (parse_members n d u)
                                        else if e = CHR ''}'' then Some ([(k, v)], u)
                                        else None)))))"

definition json_parse :: "bytes \<Rightarrow> json option" where
  "json_parse s =
     (case parse_value (2 * length s + 2) 10000 s of
        None \<Rightarrow> None
      | Some (v, r) \<Rightarrow> if skip_ws r = [] then Some v else None)"

subsection \<open>Every reader consumes input, and the fuel is enough\<close>

lemma skip_ws_length: "length (skip_ws s) \<le> length s"
  by (simp add: skip_ws_def length_dropWhile_le)

lemma emit_Some: "emit p r = Some (x, q) \<longleftrightarrow> (\<exists>y. r = Some (y, q) \<and> x = p @ y)"
  by (cases r) (auto simp: emit_def)

lemma parse_str_Some_shorter:
  assumes "parse_str s = Some (x, r)"
  shows "(\<exists>c. s = c # r) \<or> (\<exists>t y. length t < length s \<and> parse_str t = Some (y, r))"
proof (cases s)
  case Nil
  with assms show ?thesis by (simp add: parse_str.simps [of "[]"])
next
  case (Cons c cs)
  note unfold = assms [unfolded Cons parse_str.simps [of "c # cs"]]
  show ?thesis
  proof (cases "c = CHR 0x22")
    case True
    with unfold Cons show ?thesis by simp
  next
    case False
    have "\<exists>k y. parse_str (drop k cs) = Some (y, r)"
    proof (cases "c = CHR 0x5C")
      case True
      with unfold False obtain e q where cs: "cs = e # q" by (cases cs) auto
      have "\<exists>k y. parse_str (drop k q) = Some (y, r)"
        using unfold True False cs
        by (auto simp: emit_Some split: if_splits option.splits intro: exI [of _ 0])
      then obtain k y where "parse_str (drop (Suc k) cs) = Some (y, r)" using cs by auto
      then show ?thesis by blast
    next
      case bs: False
      show ?thesis
        using unfold False bs
        by (auto simp: emit_Some split: if_splits intro: exI [of _ 0])
    qed
    then obtain k y where "parse_str (drop k cs) = Some (y, r)" by blast
    moreover have "length (drop k cs) < length s" using Cons by simp
    ultimately show ?thesis by blast
  qed
qed

lemma parse_str_length: "parse_str s = Some (x, r) \<Longrightarrow> length r < length s"
proof (induction "length s" arbitrary: s x rule: less_induct)
  case less
  from parse_str_Some_shorter [OF less.prems] show ?case
    using less.hyps by (auto dest: less_trans)
qed

lemma scan_digits_length: "scan_digits s = Some (x, r) \<Longrightarrow> length r < length s"
  by (cases s) (auto simp: scan_digits_def split: if_splits intro: le_less_trans [OF length_dropWhile_le])

lemma scan_int_length: "scan_int s = Some (x, r) \<Longrightarrow> length r < length s"
  by (cases s) (auto simp: scan_int_def dest: scan_digits_length split: if_splits)

lemma scan_frac_length: "scan_frac s = Some (x, r) \<Longrightarrow> length r \<le> length s"
  by (cases s) (auto simp: scan_frac_def dest!: scan_digits_length split: if_splits)

lemma scan_exp_length: "scan_exp s = Some (x, r) \<Longrightarrow> length r \<le> length s"
  by (cases s) (auto simp: scan_exp_def dest!: scan_digits_length split: if_splits list.splits)

lemma scan_number_length: "scan_number s = Some (x, r) \<Longrightarrow> length r < length s"
  by (cases s)
    (auto simp: scan_number_def Let_def split: option.splits if_splits
      dest!: scan_int_length scan_frac_length scan_exp_length)

lemma scan_number_Cons_length: "scan_number (c # cs) = Some (x, r) \<Longrightarrow> length r \<le> length cs"
  by (drule scan_number_length) simp

lemma parse_word_Cons_length:
  "parse_word (a # w) v (c # cs) = Some (x, r) \<Longrightarrow> length r \<le> length cs"
  by (auto simp: parse_word_def split: if_splits)

lemma skip_ws_Cons_length: "skip_ws s = c # cs \<Longrightarrow> length cs < length s"
  using skip_ws_length [of s] by simp

lemma parse_length_all:
  "(\<forall>d s v r. parse_value n d s = Some (v, r) \<longrightarrow> length r < length s) \<and>
   (\<forall>d s vs r. parse_elems n d s = Some (vs, r) \<longrightarrow> length r < length s) \<and>
   (\<forall>d s ms r. parse_members n d s = Some (ms, r) \<longrightarrow> length r < length s)"
proof (induction n)
  case 0
  show ?case by simp
next
  case (Suc n)
  have v: "parse_value n d s = Some (v, r) \<Longrightarrow> length r < length s" for d s v r
    using Suc by blast
  have e: "parse_elems n d s = Some (vs, r) \<Longrightarrow> length r < length s" for d s vs r
    using Suc by blast
  have m: "parse_members n d s = Some (ms, r) \<Longrightarrow> length r < length s" for d s ms r
    using Suc by blast
  have "parse_value (Suc n) d s = Some (v, r) \<Longrightarrow> length r < length s" for d s v r
    by (auto split: if_splits list.splits
        dest!: parse_str_length scan_number_Cons_length parse_word_Cons_length skip_ws_Cons_length e m)
  moreover have "parse_elems (Suc n) d s = Some (vs, r) \<Longrightarrow> length r < length s" for d s vs r
    by (auto split: option.splits if_splits list.splits dest!: skip_ws_Cons_length v e)
  moreover have "parse_members (Suc n) d s = Some (ms, r) \<Longrightarrow> length r < length s" for d s ms r
    by (auto split: option.splits if_splits list.splits
        dest!: skip_ws_Cons_length parse_str_length v m)
  ultimately show ?case by blast
qed

lemma parse_value_length: "parse_value n d s = Some (v, r) \<Longrightarrow> length r < length s"
  using parse_length_all by blast

text \<open>One more unit of fuel changes nothing once there are two per byte.\<close>

lemma parse_fuel_all:
  "(\<forall>d s. 2 * length s + 1 \<le> n \<longrightarrow> parse_value (Suc n) d s = parse_value n d s) \<and>
   (\<forall>d s. 2 * length s + 2 \<le> n \<longrightarrow> parse_elems (Suc n) d s = parse_elems n d s) \<and>
   (\<forall>d s. 2 * length s + 2 \<le> n \<longrightarrow> parse_members (Suc n) d s = parse_members n d s)"
proof (induction n)
  case 0
  show ?case by simp
next
  case (Suc n)
  have v: "2 * length s + 1 \<le> n \<Longrightarrow> parse_value (Suc n) d s = parse_value n d s" for d s
    using Suc by blast
  have e: "2 * length s + 2 \<le> n \<Longrightarrow> parse_elems (Suc n) d s = parse_elems n d s" for d s
    using Suc by blast
  have m: "2 * length s + 2 \<le> n \<Longrightarrow> parse_members (Suc n) d s = parse_members n d s" for d s
    using Suc by blast
  have "parse_value (Suc (Suc n)) d s = parse_value (Suc n) d s" if len: "2 * length s + 1 \<le> Suc n" for d s
  proof (cases "skip_ws s")
    case Nil
    then show ?thesis by (simp only: parse_value.simps list.case)
  next
    case (Cons c cs)
    have "2 * length cs + 2 \<le> n" using skip_ws_Cons_length [OF Cons] len by simp
    with Cons e [of cs] m [of cs] show ?thesis by (simp only: parse_value.simps list.case)
  qed
  moreover have "parse_elems (Suc (Suc n)) d s = parse_elems (Suc n) d s" if len: "2 * length s + 2 \<le> Suc n" for d s
  proof -
    have "parse_elems (Suc n) d q = parse_elems n d q" if "parse_value n d s = Some (w, r)" "skip_ws r = c # q" for w r c q
      using parse_value_length [OF that(1)] skip_ws_Cons_length [OF that(2)] len by (intro e) simp
    with v [of s d] len show ?thesis
      by (simp only: parse_elems.simps) (auto split: option.splits list.splits)
  qed
  moreover have "parse_members (Suc (Suc n)) d s = parse_members (Suc n) d s" if len: "2 * length s + 2 \<le> Suc n" for d s
  proof -
    have v': "parse_value (Suc n) d q = parse_value n d q"
      if "skip_ws s = b # bs" "parse_str bs = Some (k, r)" "skip_ws r = c # q" for b bs k r c q
      using skip_ws_Cons_length [OF that(1)] parse_str_length [OF that(2)] skip_ws_Cons_length [OF that(3)] len
      by (intro v) simp
    have m': "parse_members (Suc n) d u = parse_members n d u"
      if "skip_ws s = b # bs" "parse_str bs = Some (k, r)" "skip_ws r = c # q"
        "parse_value n d q = Some (w, t)" "skip_ws t = x # u" for b bs k r c q w t x u
      using skip_ws_Cons_length [OF that(1)] parse_str_length [OF that(2)] skip_ws_Cons_length [OF that(3)]
        parse_value_length [OF that(4)] skip_ws_Cons_length [OF that(5)] len
      by (intro m) simp
    show ?thesis
      unfolding parse_members.simps(2) [of "Suc n" d s] parse_members.simps(2) [of n d s]
      by (intro list.case_cong option.case_cong prod.case_cong if_cong refl)
        (auto simp only: v' m' prod.inject)
  qed
  ultimately show ?case by blast
qed

lemma parse_fuel_enough:
  assumes "2 * length s + 1 \<le> n"
  shows "parse_value n d s = parse_value (2 * length s + 1) d s"
  using assms
proof (induction n rule: dec_induct)
  case base
  show ?case by simp
next
  case (step n)
  then show ?case using parse_fuel_all [of n] by auto
qed


subsection \<open>Round trip of strings\<close>

lemma byte_in_shift: "byte_in lo hi c \<Longrightarrow> lo \<le> of_char c \<and> of_char c \<le> hi"
  by (simp add: byte_in_def)

lemma hex_val_hex_char [simp]: "d < 16 \<Longrightarrow> hex_val (hex_char d) = Some d"
  by (auto simp: hex_val_def hex_char_def byte_in_def)

lemma getu4_u_escape:
  assumes "n < 65536"
  shows "getu4 (drop 2 (u_escape n) @ r) = Some n"
proof -
  have val: "((n div 4096 mod 16 * 16 + n div 256 mod 16) * 16 + n div 16 mod 16) * 16 + n mod 16 = n"
  proof -
    have "n div 4096 mod 16 = n div 4096" using assms by simp
    moreover have "n div 256 = n div 4096 * 16 + n div 256 mod 16"
      using div_mult_mod_eq [of "n div 256" 16] by (simp add: div_mult2_eq [symmetric])
    moreover have "n div 16 = n div 256 * 16 + n div 16 mod 16"
      using div_mult_mod_eq [of "n div 16" 16] by (simp add: div_mult2_eq [symmetric])
    moreover have "n = n div 16 * 16 + n mod 16" by simp
    ultimately show ?thesis by metis
  qed
  have "getu4 (drop 2 (u_escape n) @ r) = Some (((n div 4096 mod 16 * 16 + n div 256 mod 16) * 16 + n div 16 mod 16) * 16 + n mod 16)"
    by (simp only: u_escape_def getu4_def) simp
  with val show ?thesis by (simp only:)
qed

lemma parse_u_escape:
  assumes "n < 65536" and "\<not> is_surrogate n"
  shows "parse_str (u_escape n @ r) = emit (encode_rune n) (parse_str r)"
  using getu4_u_escape [OF assms(1), of r] assms(2)
  by (subst parse_str.simps) (simp add: u_escape_def)

lemma parse_escape_ascii:
  assumes "is_ascii c"
  shows "parse_str (escape_ascii c @ r) = emit [c] (parse_str r)"
proof -
  have u: "parse_str (u_escape (of_char c) @ r) = emit [c] (parse_str r)"
    using assms parse_u_escape [of "of_char c" r] by (simp add: is_ascii_def is_surrogate_def encode_rune_def)
  show ?thesis
  proof (cases "c = CHR 0x22 \<or> c = CHR 0x5C \<or> c = CHR 0x0A \<or> c = CHR 0x0D \<or> c = CHR 0x09")
    case True
    then show ?thesis by (subst parse_str.simps) (auto simp: escape_ascii_def simple_escape_def)
  next
    case plain: False
    show ?thesis
    proof (cases "(of_char c :: nat) < 32 \<or> c = CHR ''<'' \<or> c = CHR ''>'' \<or> c = CHR ''&''")
      case True
      with plain have "escape_ascii c = u_escape (of_char c)" by (simp only: escape_ascii_def) simp
      then show ?thesis using u by simp
    next
      case False
      with plain have "escape_ascii c = [c]" by (simp only: escape_ascii_def) simp
      then show ?thesis using assms plain False by (subst parse_str.simps) simp
    qed
  qed
qed

lemma utf8_size_pos:
  assumes "utf8_size (c # cs) \<noteq> 0"
  shows "2 \<le> utf8_size (c # cs)" and "utf8_size (c # cs) \<le> length (c # cs)" and "\<not> is_ascii c"
  using assms
  by (auto simp: utf8_size_def seq_len_def Let_def is_ascii_def byte_in_def split: if_splits)

lemma utf8_size_take:
  assumes "utf8_size (c # cs) = k" "k \<noteq> 0"
  shows "utf8_size (c # take (k - 1) cs @ r) = k"
proof -
  have k: "seq_len c = k" "k \<le> length (c # cs)" "second_ok c (hd cs)" "list_all (byte_in 128 191) (take (k - 1) cs)"
    using assms by (auto simp: utf8_size_def Let_def split: if_splits)
  have "2 \<le> k" using utf8_size_pos(1) assms by auto
  with k(2) obtain b bs where cs: "cs = b # bs" by (cases cs) auto
  with \<open>2 \<le> k\<close> have "hd (take (k - 1) cs @ r) = b" by (cases k) (auto simp: take_Cons split: nat.splits)
  moreover have "take (k - 1) (take (k - 1) cs @ r) = take (k - 1) cs" using k(2) by simp
  moreover have "k \<le> length (c # take (k - 1) cs @ r)" using k(2) by simp
  ultimately show ?thesis
    using k assms(2) cs by (simp add: utf8_size_def Let_def)
qed

lemma char_of_eqI: "of_char c = (n :: nat) \<Longrightarrow> char_of n = c"
  by auto

lemma encode_rune_separators:
  "encode_rune 8232 = [CHR 0xE2, CHR 0x80, CHR 0xA8]" "encode_rune 8233 = [CHR 0xE2, CHR 0x80, CHR 0xA9]"
  by (simp_all add: encode_rune_def char_of_eqI)

lemma parse_escape_seq:
  assumes "utf8_size (c # cs) = k" "k \<noteq> 0"
  shows "parse_str (escape_seq (c # take (k - 1) cs) @ r) = emit (c # take (k - 1) cs) (parse_str r)"
proof -
  let ?q = "c # take (k - 1) cs"
  consider "?q = [CHR 0xE2, CHR 0x80, CHR 0xA8]" | "?q = [CHR 0xE2, CHR 0x80, CHR 0xA9]"
    | "escape_seq ?q = ?q"
    unfolding escape_seq_def by argo
  then show ?thesis
  proof cases
    case 1
    then show ?thesis
      using parse_u_escape [of 8232 r] by (simp add: escape_seq_def is_surrogate_def encode_rune_separators)
  next
    case 2
    then show ?thesis
      using parse_u_escape [of 8233 r] by (simp add: escape_seq_def is_surrogate_def encode_rune_separators)
  next
    case 3
    have "\<not> is_ascii c" and "length (take (k - 1) cs) = k - 1"
      using utf8_size_pos [of c cs] assms by auto
    moreover have "c \<noteq> CHR 0x22" "c \<noteq> CHR 0x5C" "\<not> (of_char c :: nat) < 32"
      using \<open>\<not> is_ascii c\<close> by (auto simp: is_ascii_def)
    ultimately show ?thesis
      unfolding 3 using utf8_size_take [OF assms, of r] assms(2)
      by (subst parse_str.simps) simp
  qed
qed

lemma parse_escape:
  "valid_utf8 s \<Longrightarrow> parse_str (escape s @ CHR 0x22 # r) = Some (s, r)"
proof (induction s rule: escape.induct)
  case 1
  show ?case by (subst parse_str.simps) simp
next
  case (2 c cs)
  show ?case
  proof (cases "is_ascii c")
    case True
    with 2 show ?thesis by (simp add: parse_escape_ascii emit_def)
  next
    case False
    with "2.prems" have k: "utf8_size (c # cs) \<noteq> 0" by simp
    with False 2 have "parse_str (escape (drop (utf8_size (c # cs) - 1) cs) @ CHR 0x22 # r)
        = Some (drop (utf8_size (c # cs) - 1) cs, r)" by simp
    with False k show ?thesis
      by (simp add: parse_escape_seq [OF refl, unfolded One_nat_def] emit_def)
  qed
qed


subsection \<open>Round trip of values\<close>

text \<open>
  The values the program writes: integer literals as \<open>strconv\<close> prints them, strings and keys of
  valid UTF-8, and at most \<open>d\<close> levels of nesting.
\<close>

definition int_lit :: "string \<Rightarrow> bool" where
  "int_lit lit \<longleftrightarrow> lit = strconv_Itoa (fst (strconv_ParseInt lit))"

fun json_ok :: "nat \<Rightarrow> json \<Rightarrow> bool" where
  "json_ok d (JNum lit) = int_lit lit"
| "json_ok d (JStr s) = valid_utf8 s"
| "json_ok d (JArr vs) = (0 < d \<and> list_all (json_ok (d - 1)) vs)"
| "json_ok d (JObj ms) = (0 < d \<and> list_all (\<lambda>(k, v). valid_utf8 k \<and> json_ok (d - 1) v) ms)"
| "json_ok d v = True"

definition stops :: "string \<Rightarrow> bool" where
  "stops r \<longleftrightarrow> r = [] \<or> is_ws (hd r) \<or> hd r = CHR '','' \<or> hd r = CHR '']'' \<or> hd r = CHR ''}''"

lemma stops_simps [simp]:
  "stops []" "stops (CHR '','' # r)" "stops ('']'' @ r)" "stops (CHR '']'' # r)" "stops (CHR ''}'' # r)"
  by (simp_all add: stops_def)

lemma stops_ws: "list_all is_ws w \<Longrightarrow> stops r \<Longrightarrow> stops (w @ r)"
  by (cases w) (auto simp: stops_def)

lemma stops_chars:
  assumes "stops (c # r)"
  shows "\<not> is_digit c" "c \<noteq> CHR ''.''" "c \<noteq> CHR ''e''" "c \<noteq> CHR ''E''"
  using assms by (auto simp: stops_def is_ws_def is_digit_def)

lemma skip_ws_append: "list_all is_ws w \<Longrightarrow> skip_ws (w @ r) = skip_ws r"
  by (induction w) (auto simp: skip_ws_def)

lemma skip_ws_Cons: "skip_ws (c # r) = (if is_ws c then skip_ws r else c # r)"
  by (simp add: skip_ws_def)

lemma not_ws [simp]:
  "\<not> is_ws (CHR 0x22)" "\<not> is_ws (CHR ''['')" "\<not> is_ws (CHR '']'')" "\<not> is_ws (CHR ''{'')" "\<not> is_ws (CHR ''}'')"
  "\<not> is_ws (CHR '','')" "\<not> is_ws (CHR '':'')" "\<not> is_ws (CHR ''t'')" "\<not> is_ws (CHR ''f'')" "\<not> is_ws (CHR ''n'')"
  "\<not> is_ws (CHR ''-'')"
  by (simp_all add: is_ws_def)

lemma hd_nat_digits: "0 < n \<Longrightarrow> hd (nat_digits n) \<noteq> CHR ''0''"
proof (induction n rule: nat_digits.induct)
  case (1 n)
  show ?case
  proof (cases "n < 10")
    case True
    have "digit_char n = CHR ''0'' \<Longrightarrow> n = 0"
      using of_char_digit_char [OF True] by simp
    with True 1 show ?thesis by (subst nat_digits.simps) auto
  next
    case False
    then have "hd (nat_digits (n div 10)) \<noteq> CHR ''0''" by (intro 1) simp_all
    with False show ?thesis by (subst nat_digits.simps) simp
  qed
qed

lemma scan_int_nat_digits:
  assumes "stops r"
  shows "scan_int (nat_digits n @ r) = Some (nat_digits n, r)"
proof (cases "n = 0")
  case True
  have "nat_digits 0 = ''0''" by (subst nat_digits.simps) (simp add: digit_char_def char_of_eqI)
  with True show ?thesis by (simp add: scan_int_def)
next
  case False
  obtain c cs where d: "nat_digits n = c # cs" by (cases "nat_digits n") auto
  have all: "list_all is_digit (c # cs)" using nat_digits_all_digits [of n] d by simp
  have "takeWhile is_digit (c # cs @ r) = c # cs" "dropWhile is_digit (c # cs @ r) = r"
    using all assms stops_chars(1)
    by (cases r; force simp: list_all_iff takeWhile_append dropWhile_append)+
  with hd_nat_digits [of n] False d all show ?thesis
    by (simp add: scan_int_def scan_digits_def)
qed

lemma scan_number_Itoa:
  assumes "stops r"
  shows "scan_number (strconv_Itoa i @ r) = Some (strconv_Itoa i, r)"
proof -
  have frac: "scan_frac r = Some ([], r)" "scan_exp r = Some ([], r)"
    using assms stops_chars by (cases r; force simp: scan_frac_def scan_exp_def)+
  show ?thesis
  proof (cases "i < 0")
    case True
    with frac show ?thesis
      by (simp add: scan_number_def strconv_Itoa_def scan_int_nat_digits [OF assms])
  next
    case False
    obtain c cs where d: "nat_digits (nat i) = c # cs" "c \<noteq> CHR ''-''" by (rule nat_digits_Cons)
    with False frac scan_int_nat_digits [OF assms, of "nat i"] show ?thesis
      by (simp add: scan_number_def strconv_Itoa_def)
  qed
qed

lemma Itoa_first:
  obtains c cs where "strconv_Itoa i = c # cs" "is_digit c \<or> c = CHR ''-''"
proof -
  obtain c cs where "strconv_Itoa i = c # cs"
    by (cases "strconv_Itoa i") (auto simp: strconv_Itoa_def split: if_splits)
  with that strconv_Itoa_chars [of c i] show ?thesis by auto
qed

lemma number_start:
  assumes "is_digit c \<or> c = CHR ''-''"
  shows "\<not> is_ws c" "c \<noteq> CHR 0x22" "c \<noteq> CHR ''[''" "c \<noteq> CHR ''{''" "c \<noteq> CHR ''t''" "c \<noteq> CHR ''f''" "c \<noteq> CHR ''n''"
    "c \<noteq> CHR '']''" "c \<noteq> CHR ''}''"
  using assms by (auto simp: is_digit_def is_ws_def)

lemma parse_value_int:
  assumes "int_lit lit" "stops r"
  shows "parse_value (Suc n) d (lit @ r) = Some (JNum lit, r)"
proof -
  obtain c cs where c: "lit = c # cs" "is_digit c \<or> c = CHR ''-''"
    using assms(1) Itoa_first [of "fst (strconv_ParseInt lit)"] by (metis int_lit_def)
  have "scan_number (lit @ r) = Some (lit, r)"
    using assms scan_number_Itoa [OF assms(2)] by (metis int_lit_def)
  with c number_start [OF c(2)] show ?thesis
    by (simp add: skip_ws_Cons)
qed

lemma write_value_start:
  assumes "json_ok d v"
  obtains c cs where "write_value nl sp n v = c # cs" "\<not> is_ws c" "c \<noteq> CHR '']''" "c \<noteq> CHR ''}''"
proof -
  have "\<exists>c cs. write_value nl sp n v = c # cs \<and> \<not> is_ws c \<and> c \<noteq> CHR '']'' \<and> c \<noteq> CHR ''}''"
  proof (cases v)
    case (JNum lit)
    with assms have "lit = strconv_Itoa (fst (strconv_ParseInt lit))" by (simp add: int_lit_def)
    then obtain c cs where "lit = c # cs" "is_digit c \<or> c = CHR ''-''" by (metis Itoa_first)
    with JNum number_start [of c] show ?thesis by simp
  qed (auto simp: quote_def)
  with that show ?thesis by blast
qed

lemma parse_value_skip: "list_all is_ws w \<Longrightarrow> parse_value k d (w @ s) = parse_value k d s"
  by (cases k) (simp_all add: skip_ws_append)

definition layout :: "(nat \<Rightarrow> string) \<Rightarrow> string \<Rightarrow> bool" where
  "layout nl sp \<longleftrightarrow> (\<forall>n. list_all is_ws (nl n)) \<and> list_all is_ws sp"

lemma layoutD: "layout nl sp \<Longrightarrow> list_all is_ws (nl n)" "layout nl sp \<Longrightarrow> list_all is_ws sp"
  by (auto simp: layout_def)

lemma skip_write_elems:
  assumes "layout nl sp" and "json_ok d v"
  obtains c cs where "skip_ws (write_elems nl sp n (v # vs) @ r) = c # cs" "c \<noteq> CHR '']''"
proof -
  obtain c cs where "write_value nl sp n v = c # cs" "\<not> is_ws c" "c \<noteq> CHR '']''"
    by (rule write_value_start [OF assms(2), of nl sp n])
  with that assms(1) show ?thesis by (simp add: skip_ws_append layoutD skip_ws_Cons)
qed

lemma skip_write_members:
  assumes "layout nl sp"
  obtains cs where "skip_ws (write_members nl sp n ((k, v) # ms) @ r) = CHR 0x22 # cs"
  using assms by (auto simp: skip_ws_append layoutD skip_ws_Cons quote_def)

text \<open>The cases of the round trip, given the round trip of the parts.\<close>

lemma parse_write_array:
  assumes lay: "layout nl sp" and ok: "json_ok d (JArr vs)" and fuel: "2 * length (write_value nl sp n (JArr vs)) \<le> fuel"
    and parts: "\<And>f w. list_all (json_ok (d - 1)) vs \<Longrightarrow> vs \<noteq> [] \<Longrightarrow> list_all is_ws w
        \<Longrightarrow> 2 * length (write_elems nl sp (Suc n) vs) + 1 \<le> f
        \<Longrightarrow> parse_elems f (d - 1) (write_elems nl sp (Suc n) vs @ w @ CHR '']'' # r) = Some (vs, r)"
  shows "parse_value fuel d (write_value nl sp n (JArr vs) @ r) = Some (JArr vs, r)"
proof (cases vs)
  case Nil
  with ok fuel show ?thesis by (cases fuel) (auto simp: skip_ws_Cons)
next
  case (Cons v vs')
  with fuel obtain f where f: "fuel = Suc f" and len: "2 * length (write_elems nl sp (Suc n) vs) + 1 \<le> f"
    by (cases fuel) auto
  have d: "0 < d" "list_all (json_ok (d - 1)) vs" using ok by simp_all
  have "parse_elems f (d - 1) (write_elems nl sp (Suc n) vs @ nl n @ CHR '']'' # r) = Some (vs, r)"
    using Cons lay d len by (intro parts) (auto simp: layoutD)
  moreover have "json_ok (d - 1) v" using Cons d by simp
  then obtain c cs where "skip_ws (write_elems nl sp (Suc n) (v # vs') @ nl n @ CHR '']'' # r) = c # cs" "c \<noteq> CHR '']''"
    by (rule skip_write_elems [OF lay])
  ultimately show ?thesis using f d(1) Cons by (simp add: skip_ws_Cons del: write_elems.simps)
qed

lemma parse_write_object:
  assumes lay: "layout nl sp" and ok: "json_ok d (JObj ms)" and fuel: "2 * length (write_value nl sp n (JObj ms)) \<le> fuel"
    and parts: "\<And>f w. list_all (\<lambda>(k, v). valid_utf8 k \<and> json_ok (d - 1) v) ms \<Longrightarrow> ms \<noteq> [] \<Longrightarrow> list_all is_ws w
        \<Longrightarrow> 2 * length (write_members nl sp (Suc n) ms) + 1 \<le> f
        \<Longrightarrow> parse_members f (d - 1) (write_members nl sp (Suc n) ms @ w @ CHR ''}'' # r) = Some (ms, r)"
  shows "parse_value fuel d (write_value nl sp n (JObj ms) @ r) = Some (JObj ms, r)"
proof (cases ms)
  case Nil
  with ok fuel show ?thesis by (cases fuel) (auto simp: skip_ws_Cons)
next
  case (Cons m ms')
  obtain k v where m: "m = (k, v)" by (cases m)
  from Cons fuel obtain f where f: "fuel = Suc f" and len: "2 * length (write_members nl sp (Suc n) ms) + 1 \<le> f"
    by (cases fuel) auto
  have d: "0 < d" "list_all (\<lambda>(k, v). valid_utf8 k \<and> json_ok (d - 1) v) ms" using ok by simp_all
  have "parse_members f (d - 1) (write_members nl sp (Suc n) ms @ nl n @ CHR ''}'' # r) = Some (ms, r)"
    using Cons lay d len by (intro parts) (auto simp: layoutD)
  moreover obtain cs where "skip_ws (write_members nl sp (Suc n) ((k, v) # ms') @ nl n @ CHR ''}'' # r) = CHR 0x22 # cs"
    by (rule skip_write_members [OF lay])
  ultimately show ?thesis using f d(1) Cons m by (simp add: skip_ws_Cons del: write_members.simps)
qed

lemma parse_write_elem:
  assumes lay: "layout nl sp" and ok: "list_all (json_ok d) (v # vs)" and w: "list_all is_ws w"
    and fuel: "2 * length (write_elems nl sp n (v # vs)) + 1 \<le> fuel"
    and first: "\<And>f r. stops r \<Longrightarrow> 2 * length (write_value nl sp n v) \<le> f \<Longrightarrow> parse_value f d (write_value nl sp n v @ r) = Some (v, r)"
    and others: "\<And>f. vs \<noteq> [] \<Longrightarrow> 2 * length (write_elems nl sp n vs) + 1 \<le> f
        \<Longrightarrow> parse_elems f d (write_elems nl sp n vs @ w @ CHR '']'' # r) = Some (vs, r)"
  shows "parse_elems fuel d (write_elems nl sp n (v # vs) @ w @ CHR '']'' # r) = Some (v # vs, r)"
proof -
  from fuel obtain f where f: "fuel = Suc f" and len: "2 * length (write_elems nl sp n (v # vs)) \<le> f" by (cases fuel) auto
  let ?rest = "(if vs = [] then [] else CHR '','' # write_elems nl sp n vs) @ w @ CHR '']'' # r"
  have "stops ?rest" using w by (auto intro: stops_ws)
  then have v: "parse_value f d (nl n @ write_value nl sp n v @ ?rest) = Some (v, ?rest)"
    using lay len by (subst parse_value_skip) (auto simp: layoutD intro!: first)
  show ?thesis
  proof (cases "vs = []")
    case True
    with v f w show ?thesis by (simp add: skip_ws_append skip_ws_Cons)
  next
    case False
    then have "parse_elems f d (write_elems nl sp n vs @ w @ CHR '']'' # r) = Some (vs, r)"
      using len by (intro others) auto
    with False v f show ?thesis by (simp add: skip_ws_Cons)
  qed
qed

lemma parse_write_member:
  assumes lay: "layout nl sp" and ok: "list_all (\<lambda>(k, v). valid_utf8 k \<and> json_ok d v) ((k, v) # ms)" and w: "list_all is_ws w"
    and fuel: "2 * length (write_members nl sp n ((k, v) # ms)) + 1 \<le> fuel"
    and first: "\<And>f r. stops r \<Longrightarrow> 2 * length (write_value nl sp n v) \<le> f \<Longrightarrow> parse_value f d (write_value nl sp n v @ r) = Some (v, r)"
    and others: "\<And>f. ms \<noteq> [] \<Longrightarrow> 2 * length (write_members nl sp n ms) + 1 \<le> f
        \<Longrightarrow> parse_members f d (write_members nl sp n ms @ w @ CHR ''}'' # r) = Some (ms, r)"
  shows "parse_members fuel d (write_members nl sp n ((k, v) # ms) @ w @ CHR ''}'' # r) = Some ((k, v) # ms, r)"
proof -
  from fuel obtain f where f: "fuel = Suc f" and len: "2 * length (write_members nl sp n ((k, v) # ms)) \<le> f" by (cases fuel) auto
  let ?rest = "(if ms = [] then [] else CHR '','' # write_members nl sp n ms) @ w @ CHR ''}'' # r"
  have "stops ?rest" using w by (auto intro: stops_ws)
  then have v: "parse_value f d (sp @ write_value nl sp n v @ ?rest) = Some (v, ?rest)"
    using lay len by (subst parse_value_skip) (auto simp: layoutD intro!: first)
  have k: "parse_str (escape k @ CHR 0x22 # q) = Some (k, q)" for q using ok by (simp add: parse_escape)
  show ?thesis
  proof (cases "ms = []")
    case True
    with v k f w lay show ?thesis by (simp add: skip_ws_append skip_ws_Cons layoutD quote_def)
  next
    case False
    then have "parse_members f d (write_members nl sp n ms @ w @ CHR ''}'' # r) = Some (ms, r)"
      using len by (intro others) auto
    with False v k f lay show ?thesis by (simp add: skip_ws_append skip_ws_Cons layoutD quote_def)
  qed
qed

lemma parse_write_all:
  shows "layout nl sp \<Longrightarrow> json_ok d v \<Longrightarrow> stops r \<Longrightarrow> 2 * length (write_value nl sp n v) \<le> fuel
           \<Longrightarrow> parse_value fuel d (write_value nl sp n v @ r) = Some (v, r)"
    and "layout nl sp \<Longrightarrow> list_all (json_ok d) vs \<Longrightarrow> vs \<noteq> [] \<Longrightarrow> list_all is_ws w \<Longrightarrow> 2 * length (write_elems nl sp n vs) + 1 \<le> fuel
           \<Longrightarrow> parse_elems fuel d (write_elems nl sp n vs @ w @ CHR '']'' # r) = Some (vs, r)"
    and "layout nl sp \<Longrightarrow> list_all (\<lambda>(k, v). valid_utf8 k \<and> json_ok d v) ms \<Longrightarrow> ms \<noteq> [] \<Longrightarrow> list_all is_ws w
           \<Longrightarrow> 2 * length (write_members nl sp n ms) + 1 \<le> fuel
           \<Longrightarrow> parse_members fuel d (write_members nl sp n ms @ w @ CHR ''}'' # r) = Some (ms, r)"
proof (induction nl sp n v and nl sp n vs and nl sp n ms arbitrary: d r fuel and d r w fuel and d r w fuel
    rule: write_value_write_elems_write_members.induct)
  case (1 nl sp n)
  then show ?case by (cases fuel) (auto simp: skip_ws_Cons parse_word_def)
next
  case (2 nl sp n b)
  then show ?case by (cases fuel; cases b) (auto simp: skip_ws_Cons parse_word_def)
next
  case (3 nl sp n lit)
  then have "lit \<noteq> []" using Itoa_first by (metis int_lit_def json_ok.simps(1) list.distinct(1))
  with 3 show ?case by (cases fuel) (simp_all add: parse_value_int del: parse_value.simps)
next
  case (4 nl sp n s)
  then show ?case by (cases fuel) (auto simp: quote_def skip_ws_Cons parse_escape)
next
  case (5 nl sp n vs)
  show ?case by (rule parse_write_array [OF "5.prems"(1,2,4) "5.IH"]) (use "5.prems"(1) in auto)
next
  case (6 nl sp n ms)
  show ?case by (rule parse_write_object [OF "6.prems"(1,2,4) "6.IH"]) (use "6.prems"(1) in auto)
next
  case (8 nl sp n v vs)
  show ?case by (rule parse_write_elem [OF "8.prems"(1,2,4,5) "8.IH"]) (use "8.prems" in auto)
next
  case (10 nl sp n k v ms)
  show ?case by (rule parse_write_member [OF "10.prems"(1,2,4,5) "10.IH"]) (use "10.prems" in auto)
qed simp_all

lemma json_parse_write:
  assumes "layout nl sp" and "json_ok 10000 v"
  shows "json_parse (write_value nl sp n v) = Some v"
proof -
  have "parse_value (2 * length (write_value nl sp n v) + 2) 10000 (write_value nl sp n v @ []) = Some (v, [])"
    using assms by (intro parse_write_all(1)) simp_all
  then show ?thesis by (simp add: json_parse_def skip_ws_def)
qed

text \<open>Both writers are inverted by the reader.\<close>

lemma json_parse_Marshal: "json_ok 10000 v \<Longrightarrow> json_parse (json_Marshal v) = Some v"
  unfolding json_Marshal_def by (rule json_parse_write) (simp_all add: layout_def)

lemma json_parse_MarshalIndent: "json_ok 10000 v \<Longrightarrow> json_parse (json_MarshalIndent v) = Some v"
  unfolding json_MarshalIndent_def by (rule json_parse_write) (simp_all add: layout_def is_ws_def list_all_iff)

declare valid_utf8.simps(2) [simp del]

lemma valid_utf8_ascii [simp]: "(of_char c :: nat) < 128 \<Longrightarrow> valid_utf8 (c # cs) \<longleftrightarrow> valid_utf8 cs"
  by (simp add: valid_utf8.simps(2) is_ascii_def)

lemma valid_utf8_append: "valid_utf8 s \<Longrightarrow> valid_utf8 t \<Longrightarrow> valid_utf8 (s @ t)"
proof (induction s rule: valid_utf8.induct)
  case 1
  then show ?case by simp
next
  case (2 c cs)
  show ?case
  proof (cases "is_ascii c")
    case True
    with 2 show ?thesis by (simp add: is_ascii_def)
  next
    case False
    let ?k = "utf8_size (c # cs)"
    from 2 False have k: "?k \<noteq> 0" and rest: "valid_utf8 (drop (?k - 1) cs @ t)"
      by (simp_all add: valid_utf8.simps(2))
    have len: "?k - 1 \<le> length cs" using utf8_size_pos(2) [OF k] by simp
    have "utf8_size (c # take (?k - 1) cs @ drop (?k - 1) cs @ t) = ?k"
      by (rule utf8_size_take [OF refl k])
    then have "utf8_size (c # cs @ t) = ?k"
      by (metis append.assoc append_take_drop_id)
    with False k rest len show ?thesis by (simp add: valid_utf8.simps(2))
  qed
qed

subsection \<open>Struct fields\<close>

text \<open>
  Encoding of the field types the program's structs have: strings, 64-bit integers and slices
  of strings, a nil slice being \<open>null\<close>.
\<close>

definition enc_int :: "int \<Rightarrow> json" where
  "enc_int i = JNum (strconv_Itoa i)"

definition enc_strings :: "string slice \<Rightarrow> json" where
  "enc_strings s = (case s of None \<Rightarrow> JNull | Some xs \<Rightarrow> JArr (map JStr xs))"

text \<open>
  Decoding a value into a field returns whether it fitted (otherwise the decoder remembers an
  \<open>UnmarshalTypeError\<close> and goes on) and the new content; \<open>null\<close> leaves a string or an integer as
  it is and makes a slice nil.
\<close>

fun dec_string :: "json \<Rightarrow> string \<Rightarrow> bool \<times> string" where
  "dec_string (JStr s) old = (True, s)"
| "dec_string JNull old = (True, old)"
| "dec_string v old = (False, old)"

fun dec_int :: "json \<Rightarrow> int \<Rightarrow> bool \<times> int" where
  "dec_int (JNum lit) old =
     (case strconv_ParseInt lit of (i, None) \<Rightarrow> (True, i) | (i, Some e) \<Rightarrow> (False, old))"
| "dec_int JNull old = (True, old)"
| "dec_int v old = (False, old)"

fun dec_elems :: "json list \<Rightarrow> string list \<Rightarrow> bool \<times> string list" where
  "dec_elems [] old = (True, [])"
| "dec_elems (v # vs) old =
     (let (ok, x) = dec_string v (case old of [] \<Rightarrow> [] | o1 # os \<Rightarrow> o1);
          (oks, xs) = dec_elems vs (tl old)
      in (ok \<and> oks, x # xs))"

fun dec_strings :: "json \<Rightarrow> string slice \<Rightarrow> bool \<times> string slice" where
  "dec_strings (JArr vs) old = (let (ok, xs) = dec_elems vs (elems old) in (ok, Some xs))"
| "dec_strings JNull old = (True, None)"
| "dec_strings v old = (False, old)"

definition field_is :: "string \<Rightarrow> string \<Rightarrow> bool" where
  "field_is name key \<longleftrightarrow> strings_EqualFold name key"

text \<open>
  \<open>json.Unmarshal\<close> into a struct: a syntax error stores nothing; the members of an object are
  stored in order by \<open>store\<close>; \<open>null\<close> stores nothing; any other value is a type error.
\<close>

datatype unmarshal_err = SyntaxError | UnmarshalTypeError

definition json_Unmarshal ::
  "(string \<Rightarrow> json \<Rightarrow> 'r \<Rightarrow> bool \<times> 'r) \<Rightarrow> bytes \<Rightarrow> 'r \<Rightarrow> unmarshal_err option \<times> 'r" where
  "json_Unmarshal store data r =
     (case json_parse data of
        None \<Rightarrow> (Some SyntaxError, r)
      | Some (JObj ms) \<Rightarrow>
          (case foldl (\<lambda>(ok, x) (k, v). let (ok', x') = store k v x in (ok \<and> ok', x')) (True, r) ms of
             (True, x) \<Rightarrow> (None, x)
           | (False, x) \<Rightarrow> (Some UnmarshalTypeError, x))
      | Some JNull \<Rightarrow> (None, r)
      | Some v \<Rightarrow> (Some UnmarshalTypeError, r))"

lemma json_ok_enc_int [simp]: "in_int64 i \<Longrightarrow> json_ok d (enc_int i)"
  by (simp add: enc_int_def int_lit_def ParseInt_Itoa)

lemma json_ok_enc_strings [simp]:
  "0 < d \<Longrightarrow> list_all valid_utf8 (elems s) \<Longrightarrow> json_ok d (enc_strings s)"
  by (cases s) (simp_all add: enc_strings_def list_all_iff)

lemma dec_int_enc_int [simp]: "in_int64 i \<Longrightarrow> dec_int (enc_int i) old = (True, i)"
  by (simp add: enc_int_def ParseInt_Itoa)

lemma dec_elems_JStr [simp]: "dec_elems (map JStr xs) old = (True, xs)"
  by (induction xs arbitrary: old) auto

lemma dec_strings_enc_strings [simp]: "dec_strings (enc_strings s) old = (True, s)"
  by (cases s) (simp_all add: enc_strings_def)

end
