(* ===== verification/Memory_Units.thy ===== *)
theory Memory_Units
  imports Cars_Prelude
begin

text \<open>
  \<open>internal/memory/memory.go\<close>: amounts of memory as signed 64-bit byte counts, and their
  conversion to floating point units. A \<open>float64\<close> is the rational number it stands for;
  \<open>float64_of_int\<close> is Go's conversion, which rounds to 53 significant bits, half to even.
\<close>

type_synonym Memory = int

definition Byte :: Memory where "Byte = 1"
definition Kilobyte :: Memory where "Kilobyte = 1024 * Byte"
definition Megabyte :: Memory where "Megabyte = 1024 * Kilobyte"
definition Gigabyte :: Memory where "Gigabyte = 1024 * Megabyte"

lemmas memory_units = Byte_def Kilobyte_def Megabyte_def Gigabyte_def

definition Bytes :: "Memory \<Rightarrow> int" where
  "Bytes d = d"

text \<open>
  Rounding: the significand keeps 53 bits, so \<open>2 ^ e\<close> is the unit in the last place of a number
  below \<open>2 ^ (53 + e)\<close>.
\<close>

fun ulp_exp :: "nat \<Rightarrow> nat" where
  "ulp_exp n = (if n < 2 ^ 53 then 0 else Suc (ulp_exp (n div 2)))"

declare ulp_exp.simps [simp del]

definition round_even :: "nat \<Rightarrow> nat \<Rightarrow> nat" where
  "round_even n u =
     (let q = n div u; r = n mod u
      in (if 2 * r < u \<or> (2 * r = u \<and> even q) then q else q + 1) * u)"

definition float64_of_int :: "int \<Rightarrow> rat" where
  "float64_of_int i = of_int (sgn i * int (round_even (nat \<bar>i\<bar>) (2 ^ ulp_exp (nat \<bar>i\<bar>))))"

definition Kilobytes :: "Memory \<Rightarrow> rat" where
  "Kilobytes d = float64_of_int d / float64_of_int Kilobyte"

definition Megabytes :: "Memory \<Rightarrow> rat" where
  "Megabytes d = float64_of_int d / float64_of_int Megabyte"

definition Gigabytes :: "Memory \<Rightarrow> rat" where
  "Gigabytes d = float64_of_int d / float64_of_int Gigabyte"

lemma float64_of_int_exact:
  assumes "\<bar>i\<bar> < 2 ^ 53"
  shows "float64_of_int i = of_int i"
proof -
  have "ulp_exp (nat \<bar>i\<bar>) = 0"
    using assms by (subst ulp_exp.simps) (simp add: nat_less_iff)
  then show ?thesis
    by (simp add: float64_of_int_def round_even_def Let_def sgn_mult_abs)
qed

lemma memory_units_float:
  "float64_of_int Kilobyte = 1024" "float64_of_int Megabyte = 1048576" "float64_of_int Gigabyte = 1073741824"
  by (simp_all add: float64_of_int_exact memory_units)

end
