(* ===== verification/Execution_Profile.thy ===== *)
theory Execution_Profile
  imports Go_Filesystem Go_Json Memory_Units
begin

text \<open>
  Which execution profile a machine uses: the environment name (\<open>internal/config/config.go\<close>), the
  check for the gVisor runtime (\<open>internal/docker/daemon.go\<close>) and the profile table
  (\<open>internal/sandbox/profile.go\<close>). All three keep package variables behind a \<open>sync.Once\<close>; they are
  the fields of \<open>machine\<close>. The environment variable, the operating system name and the file
  system are arguments, so that they may differ from call to call.
\<close>

subsection \<open>The profile table\<close>

type_synonym Runtime = string

definition Default :: Runtime where "Default = ''''"
definition GVisor :: Runtime where "GVisor = ''runsc''"

text \<open>Durations are 64-bit counts of nanoseconds.\<close>

type_synonym Duration = int

definition Second :: Duration where "Second = 1000000000"

record Profile =
  p_Runtime :: Runtime
  p_AutoRemove :: bool
  p_CodeTimeout :: Duration
  p_CompileTimeout :: Duration
  p_ContainerMemory :: Memory
  p_ExecutionMemory :: Memory
  p_MemorySwap :: Memory

definition profiles :: "string \<rightharpoonup> Profile" where
  "profiles =
     [''development_linux'' \<mapsto>
        \<lparr>p_Runtime = GVisor, p_AutoRemove = True, p_CodeTimeout = Second * 5, p_CompileTimeout = Second * 20,
         p_ContainerMemory = Gigabyte * 2, p_ExecutionMemory = Gigabyte, p_MemorySwap = 0\<rparr>,
      ''development_windows'' \<mapsto>
        \<lparr>p_Runtime = Default, p_AutoRemove = True, p_CodeTimeout = Second * 5, p_CompileTimeout = Second * 20,
         p_ContainerMemory = Gigabyte * 2, p_ExecutionMemory = Gigabyte, p_MemorySwap = 0\<rparr>,
      ''production'' \<mapsto>
        \<lparr>p_Runtime = GVisor, p_AutoRemove = True, p_CodeTimeout = Second, p_CompileTimeout = Second * 10,
         p_ContainerMemory = Gigabyte * 2, p_ExecutionMemory = Gigabyte, p_MemorySwap = 0\<rparr>,
      ''staging'' \<mapsto>
        \<lparr>p_Runtime = GVisor, p_AutoRemove = True, p_CodeTimeout = Second * 2, p_CompileTimeout = Second * 20,
         p_ContainerMemory = Gigabyte * 2, p_ExecutionMemory = Gigabyte, p_MemorySwap = 0\<rparr>]"

subsection \<open>Package state\<close>

record machine =
  envOnce :: bool
  currentEnvironment :: string
  daemonOnce :: bool
  installed :: bool
  gvisorOnce :: bool
  profile_table :: "string \<rightharpoonup> Profile"

definition initial_machine :: machine where
  "initial_machine =
     \<lparr>envOnce = False, currentEnvironment = '''', daemonOnce = False, installed = False,
      gvisorOnce = False, profile_table = profiles\<rparr>"

subsection \<open>Environment and operating system\<close>

definition DefaultEnvironment :: string where
  "DefaultEnvironment = ''development''"

fun known_environment :: "string list \<Rightarrow> string \<Rightarrow> string option" where
  "known_environment [] e = None"
| "known_environment (s # ss) e = (if e = s then Some s else known_environment ss e)"

definition GetCurrentEnvironment :: "string \<Rightarrow> machine \<Rightarrow> string \<times> machine" where
  "GetCurrentEnvironment getenv m =
     (if envOnce m then (currentEnvironment m, m)
      else
        let env =
          (if getenv = [] then DefaultEnvironment
           else case known_environment [''staging'', ''production'', ''development''] getenv of
                  Some s \<Rightarrow> s
                | None \<Rightarrow> DefaultEnvironment)
        in (env, m\<lparr>envOnce := True, currentEnvironment := env\<rparr>))"

definition GetCurrentOs :: "string \<Rightarrow> string" where
  "GetCurrentOs goos = (if strings_EqualFold goos ''windows'' then ''windows'' else ''linux'')"

subsection \<open>The Docker daemon's runtimes\<close>

text \<open>
  The configuration struct has one field, a map from runtime names to structs with a path. The
  decoder adds a map entry for every member of the object, whatever its value; \<open>null\<close> makes the
  map nil, and other values leave it as it is. The document \<open>null\<close> makes the pointer to the struct
  nil, and reading its field then panics.
\<close>

fun runtime_path :: "json \<Rightarrow> string" where
  "runtime_path (JObj ms) =
     foldl (\<lambda>p (k, v). if field_is ''path'' k then snd (dec_string v p) else p) [] ms"
| "runtime_path v = []"

fun store_runtimes :: "json \<Rightarrow> (string \<rightharpoonup> string) \<Rightarrow> (string \<rightharpoonup> string)" where
  "store_runtimes (JObj ms) old = foldl (\<lambda>m (k, v). m(k \<mapsto> runtime_path v)) old ms"
| "store_runtimes JNull old = Map.empty"
| "store_runtimes v old = old"

definition daemon_runtimes :: "bytes \<Rightarrow> panic + (string \<rightharpoonup> string)" where
  "daemon_runtimes data =
     (case json_parse data of
        Some JNull \<Rightarrow> Inl NilDereference
      | Some (JObj ms) \<Rightarrow>
          Inr (foldl (\<lambda>m (k, v). if field_is ''runtimes'' k then store_runtimes v m else m) Map.empty ms)
      | _ \<Rightarrow> Inr Map.empty)"

definition GVisorRuntime :: string where
  "GVisorRuntime = ''runsc''"

definition dockerDaemonPath :: string where
  "dockerDaemonPath = ''/etc/docker/daemon.json''"

definition IsGvisorInstalled :: "fs \<Rightarrow> machine \<Rightarrow> panic + (bool \<times> machine)" where
  "IsGvisorInstalled f m =
     (if daemonOnce m then Inr (installed m, m)
      else
        let done = (\<lambda>b. Inr (b, m\<lparr>daemonOnce := True, installed := b\<rparr>))
        in case os_Stat dockerDaemonPath f of
             Some (ErrNotExist p) \<Rightarrow> done False
           | _ \<Rightarrow>
               (case os_ReadFile dockerDaemonPath f of
                  Inl err \<Rightarrow> done False
                | Inr fileBytes \<Rightarrow>
                    (case daemon_runtimes fileBytes of
                       Inl p \<Rightarrow> Inl p
                     | Inr runtimes \<Rightarrow> done (runtimes GVisorRuntime \<noteq> None))))"

subsection \<open>Choosing the profile\<close>

text \<open>
  Profiles are shared by pointer: a pointer is the key of the table entry, or \<open>None\<close> for nil.
  Once, for the first profile asked for, the runtime is reset when gVisor is missing.
\<close>

definition disableGVisorCheckWrapper :: "fs \<Rightarrow> string option \<Rightarrow> machine \<Rightarrow> panic + (string option \<times> machine)" where
  "disableGVisorCheckWrapper f profile m =
     (if gvisorOnce m then Inr (profile, m)
      else
        case IsGvisorInstalled f (m\<lparr>gvisorOnce := True\<rparr>) of
          Inl p \<Rightarrow> Inl p
        | Inr (True, m1) \<Rightarrow> Inr (profile, m1)
        | Inr (False, m1) \<Rightarrow>
            (case profile of
               None \<Rightarrow> Inl NilDereference
             | Some k \<Rightarrow>
                 Inr (profile, m1\<lparr>profile_table := (profile_table m1)(k := map_option (p_Runtime_update (\<lambda>_. Default)) (profile_table m1 k))\<rparr>)))"

definition table_pointer :: "machine \<Rightarrow> string \<Rightarrow> string option" where
  "table_pointer m k = (if profile_table m k = None then None else Some k)"

definition choose_profile :: "machine \<Rightarrow> string \<Rightarrow> string \<Rightarrow> string option" where
  "choose_profile m currentEnv currentOs =
     (let envProfile = table_pointer m currentEnv;
          envOsProfile = table_pointer m (currentEnv @ ''_'' @ currentOs)
      in if envOsProfile = None \<and> envProfile = None then table_pointer m DefaultEnvironment
         else if envOsProfile \<noteq> None then envOsProfile
         else envProfile)"

definition GetProfileForMachine :: "string \<Rightarrow> string \<Rightarrow> fs \<Rightarrow> machine \<Rightarrow> panic + (Profile option \<times> machine)" where
  "GetProfileForMachine goos getenv f m =
     (let (currentEnv, m1) = GetCurrentEnvironment getenv m;
          currentOs = GetCurrentOs goos
      in case disableGVisorCheckWrapper f (choose_profile m1 currentEnv currentOs) m1 of
           Inl p \<Rightarrow> Inl p
         | Inr (p, m2) \<Rightarrow> Inr (Option.bind p (profile_table m2), m2))"

subsection \<open>Properties\<close>

definition profile_key :: "string \<Rightarrow> string \<Rightarrow> string" where
  "profile_key goos env =
     (if env = ''development'' then ''development_'' @ GetCurrentOs goos else env)"

definition known_env :: "string \<Rightarrow> bool" where
  "known_env e \<longleftrightarrow> e = ''staging'' \<or> e = ''production'' \<or> e = ''development''"

lemma GetCurrentOs_cases: "GetCurrentOs goos = ''windows'' \<or> GetCurrentOs goos = ''linux''"
  by (simp add: GetCurrentOs_def)

text \<open>
  The state between calls: the environment is a known one once it has been read; the table has its
  four keys and differs from the source's only in runtimes that were reset; after the gVisor check
  has run without finding gVisor, the profile this machine uses has the default runtime.
\<close>

definition table_ok :: "(string \<rightharpoonup> Profile) \<Rightarrow> bool" where
  "table_ok t \<longleftrightarrow> (\<forall>k. t k = profiles k \<or> t k = map_option (p_Runtime_update (\<lambda>_. Default)) (profiles k))"

definition machine_ok :: "string \<Rightarrow> machine \<Rightarrow> bool" where
  "machine_ok goos m \<longleftrightarrow>
     (envOnce m \<longrightarrow> known_env (currentEnvironment m)) \<and> table_ok (profile_table m)
     \<and> (gvisorOnce m \<longrightarrow> envOnce m \<and> daemonOnce m
          \<and> (\<not> installed m \<longrightarrow> map_option p_Runtime (profile_table m (profile_key goos (currentEnvironment m))) = Some Default))"

lemma table_ok_None: "table_ok t \<Longrightarrow> t k = None \<longleftrightarrow> profiles k = None"
  unfolding table_ok_def by (metis map_option_is_None)

lemma profiles_dom:
  "profiles k \<noteq> None \<longleftrightarrow> k \<in> {''development_linux'', ''development_windows'', ''production'', ''staging''}"
  by (auto simp: profiles_def)

lemma profile_key_exists: "known_env e \<Longrightarrow> profiles (profile_key goos e) \<noteq> None"
  using GetCurrentOs_cases [of goos] by (auto simp: known_env_def profile_key_def profiles_dom simp del: not_None_eq)

lemma chosen_pointer:
  assumes "known_env e" and "table_ok (profile_table m)"
  shows "choose_profile m e (GetCurrentOs goos) = Some (profile_key goos e)"
proof -
  have ptr: "table_pointer m k = (if profiles k = None then None else Some k)" for k
    using assms(2) by (simp add: table_pointer_def table_ok_None)
  have os: "GetCurrentOs goos \<in> {''windows'', ''linux''}"
    using GetCurrentOs_cases [of goos] by simp
  from assms(1) consider "e = ''staging''" | "e = ''production''" | "e = ''development''"
    by (auto simp: known_env_def)
  then show ?thesis
    using os by cases (auto simp: choose_profile_def Let_def ptr profile_key_def profiles_def)
qed

lemma GetCurrentEnvironment_known:
  assumes "GetCurrentEnvironment getenv m = (e, m')" and "machine_ok goos m"
  shows "known_env e" "envOnce m'" "currentEnvironment m' = e" "profile_table m' = profile_table m"
    "gvisorOnce m' = gvisorOnce m" "daemonOnce m' = daemonOnce m" "installed m' = installed m" "machine_ok goos m'"
  using assms
  by (auto simp: GetCurrentEnvironment_def machine_ok_def known_env_def DefaultEnvironment_def Let_def split: if_splits)

lemma IsGvisorInstalled_frame:
  assumes "IsGvisorInstalled f m = Inr (b, m')"
  shows "daemonOnce m'" "installed m' = b" "profile_table m' = profile_table m" "envOnce m' = envOnce m"
    "currentEnvironment m' = currentEnvironment m" "gvisorOnce m' = gvisorOnce m"
  using assms
  by (auto simp: IsGvisorInstalled_def Let_def split: if_splits option.splits sum.splits error.splits)

lemma table_ok_reset:
  "table_ok t \<Longrightarrow> table_ok (t(k := map_option (p_Runtime_update (\<lambda>_. Default)) (t k)))"
  unfolding table_ok_def
proof
  fix j
  assume ok: "\<forall>k. t k = profiles k \<or> t k = map_option (p_Runtime_update (\<lambda>_. Default)) (profiles k)"
  then have "map_option (p_Runtime_update (\<lambda>_. Default)) (t k) = map_option (p_Runtime_update (\<lambda>_. Default)) (profiles k)"
    by (cases "profiles k") (use ok [rule_format, of k] in auto)
  with ok show "(t(k := map_option (p_Runtime_update (\<lambda>_. Default)) (t k))) j = profiles j
      \<or> (t(k := map_option (p_Runtime_update (\<lambda>_. Default)) (t k))) j = map_option (p_Runtime_update (\<lambda>_. Default)) (profiles j)"
    by simp
qed

lemma GetProfileForMachine_ok:
  assumes m: "machine_ok goos m" and call: "GetProfileForMachine goos getenv f m = Inr (r, m')"
  shows "machine_ok goos m' \<and> r = profile_table m' (profile_key goos (currentEnvironment m')) \<and> gvisorOnce m' \<and> known_env (currentEnvironment m')"
proof -
  obtain e m1 where env: "GetCurrentEnvironment getenv m = (e, m1)" by (cases "GetCurrentEnvironment getenv m")
  note m1 = GetCurrentEnvironment_known [OF env m]
  let ?k = "profile_key goos e"
  have "table_ok (profile_table m1)" using m1(8) by (simp add: machine_ok_def)
  from chosen_pointer [OF m1(1) this] call env
  obtain p where wrap: "disableGVisorCheckWrapper f (Some ?k) m1 = Inr (p, m')" and r: "r = Option.bind p (profile_table m')"
    by (auto simp: GetProfileForMachine_def split: sum.splits)
  show ?thesis
  proof (cases "gvisorOnce m1")
    case True
    with wrap m1 r show ?thesis by (auto simp: disableGVisorCheckWrapper_def)
  next
    case False
    with wrap obtain b m2 where g: "IsGvisorInstalled f (m1\<lparr>gvisorOnce := True\<rparr>) = Inr (b, m2)"
      by (auto simp: disableGVisorCheckWrapper_def split: sum.splits)
    note m2 = IsGvisorInstalled_frame [OF g]
    have some: "profile_table m1 ?k \<noteq> None"
      using profile_key_exists [OF m1(1)] m1(8) by (simp add: machine_ok_def table_ok_None)
    show ?thesis
      using wrap False g m1 m2 r some table_ok_reset [of "profile_table m1" ?k]
      by (cases b) (auto simp: disableGVisorCheckWrapper_def machine_ok_def)
  qed
qed

lemma initial_machine_ok: "machine_ok goos initial_machine"
  by (simp add: machine_ok_def initial_machine_def table_ok_def)

text \<open>The one document that makes the gVisor check panic.\<close>

definition null_daemon_file :: "fs \<Rightarrow> bool" where
  "null_daemon_file f \<longleftrightarrow>
     (case os_ReadFile dockerDaemonPath f of Inl e \<Rightarrow> False | Inr b \<Rightarrow> json_parse b = Some JNull)"

lemma IsGvisorInstalled_total:
  "daemonOnce m \<or> \<not> null_daemon_file f \<Longrightarrow> \<exists>b m'. IsGvisorInstalled f m = Inr (b, m')"
  by (auto simp: IsGvisorInstalled_def null_daemon_file_def daemon_runtimes_def Let_def
      split: option.splits error.splits sum.splits json.splits)

lemma disableGVisorCheckWrapper_total:
  assumes "daemonOnce m \<or> \<not> null_daemon_file f"
  shows "\<exists>p m'. disableGVisorCheckWrapper f (Some k) m = Inr (p, m')"
proof (cases "gvisorOnce m")
  case False
  obtain b m' where "IsGvisorInstalled f (m\<lparr>gvisorOnce := True\<rparr>) = Inr (b, m')"
    using IsGvisorInstalled_total [of "m\<lparr>gvisorOnce := True\<rparr>" f] assms by auto
  with False show ?thesis by (cases b) (simp_all add: disableGVisorCheckWrapper_def)
qed (simp add: disableGVisorCheckWrapper_def)

lemma GetProfileForMachine_total:
  assumes "machine_ok goos m" and "daemonOnce m \<or> \<not> null_daemon_file f"
  shows "\<exists>r m'. GetProfileForMachine goos getenv f m = Inr (r, m')"
proof -
  obtain e m1 where env: "GetCurrentEnvironment getenv m = (e, m1)" by (cases "GetCurrentEnvironment getenv m")
  note m1 = GetCurrentEnvironment_known [OF env assms(1)]
  then have "choose_profile m1 e (GetCurrentOs goos) = Some (profile_key goos e)"
    by (intro chosen_pointer) (simp_all add: machine_ok_def)
  moreover obtain p m2 where "disableGVisorCheckWrapper f (Some (profile_key goos e)) m1 = Inr (p, m2)"
    using disableGVisorCheckWrapper_total [of m1 f "profile_key goos e"] assms(2) m1(6) by auto
  ultimately show ?thesis using env by (simp add: GetProfileForMachine_def)
qed

lemma GetProfileForMachine_some:
  assumes "machine_ok goos m" and "daemonOnce m \<or> \<not> null_daemon_file f"
  obtains p m' where "GetProfileForMachine goos getenv f m = Inr (Some p, m')" "machine_ok goos m'"
    "profile_table m' (profile_key goos (currentEnvironment m')) = Some p" "gvisorOnce m'" "known_env (currentEnvironment m')"
proof -
  obtain r m' where call: "GetProfileForMachine goos getenv f m = Inr (r, m')"
    using GetProfileForMachine_total [OF assms] by blast
  have m': "machine_ok goos m'" "r = profile_table m' (profile_key goos (currentEnvironment m'))" "gvisorOnce m'"
    "known_env (currentEnvironment m')"
    using GetProfileForMachine_ok [OF assms(1) call] by blast+
  then have "r \<noteq> None"
    using profile_key_exists [OF m'(4)] by (metis machine_ok_def table_ok_None)
  with that call m' show ?thesis by auto
qed



end
