(* ===== verification/Sandbox_Container.thy ===== *)
theory Sandbox_Container
  imports Sandbox_Status Compilers Execution_Profile
begin

text \<open>
  \<open>internal/sandbox/sandbox.go\<close>: one sandbox container, from the files prepared for the runner to the
  response read back, with \<open>internal/sandbox/unix/unix.go\<close>. The Docker client is third-party code: it
  is the parameter \<open>docker_client\<close>, a record of its calls over an arbitrary daemon state. The
  channel \<open>complete\<close> is never sent on, only closed. Calls to the logger are left out, but not the
  slice expression \<open>d.ID[:10]\<close> among their arguments, which can panic.
\<close>

subsection \<open>Data\<close>

record Test =
  t_ID :: string
  t_StdinData :: "string slice"
  t_ExpectedStdoutData :: "string slice"

record Request =
  rq_ID :: string
  rq_ExecutionProfile :: Profile
  rq_Path :: string
  rq_SourceCode :: string
  rq_Compiler :: LanguageCompiler
  rq_Test :: "Test option"

record ExecutionParameters =
  ep_CompileSteps :: "string slice"
  ep_CompileTimeout :: Duration
  ep_ID :: string
  ep_Language :: string
  ep_Run :: string
  ep_RunTimeout :: Duration
  ep_StandardInput :: string
  ep_ExecutionMemory :: Memory

record ExecutionResponse =
  er_CompileTime :: int
  er_CompilerOutput :: "string slice"
  er_Output :: "string slice"
  er_OutputErr :: "string slice"
  er_Runtime :: int
  er_RuntimeMemoryBytes :: int
  er_Status :: ContainerStatus

record Response =
  rs_CompilerOutput :: "string slice"
  rs_Output :: "string slice"
  rs_OutputError :: "string slice"
  rs_Status :: ContainerStatus
  rs_Runtime :: Duration
  rs_RuntimeMemory :: Memory
  rs_CompileTime :: Duration
  rs_TestStatus :: ContainerTestStatus

text \<open>The fields of a Docker event the program reads.\<close>

record Message =
  m_ID :: string
  m_Status :: string
  m_From :: string
  m_Action :: string
  m_Type :: string

record Container =
  c_ID :: string
  c_status :: ContainerStatus
  c_events :: "Message list"
  c_executionResponse :: "ExecutionResponse option"
  c_complete :: chan
  c_request :: Request

definition zero_parameters :: ExecutionParameters where
  "zero_parameters =
     \<lparr>ep_CompileSteps = None, ep_CompileTimeout = 0, ep_ID = [], ep_Language = [], ep_Run = [],
      ep_RunTimeout = 0, ep_StandardInput = [], ep_ExecutionMemory = 0\<rparr>"

definition zero_response :: ExecutionResponse where
  "zero_response =
     \<lparr>er_CompileTime = 0, er_CompilerOutput = None, er_Output = None, er_OutputErr = None,
      er_Runtime = 0, er_RuntimeMemoryBytes = 0, er_Status = 0\<rparr>"

subsection \<open>JSON forms\<close>

definition encode_parameters :: "ExecutionParameters \<Rightarrow> json" where
  "encode_parameters p =
     JObj [(''compileSteps'', enc_strings (ep_CompileSteps p)),
           (''compileTimeout'', enc_int (ep_CompileTimeout p)),
           (''ID'', JStr (ep_ID p)),
           (''language'', JStr (ep_Language p)),
           (''run'', JStr (ep_Run p)),
           (''runTimeout'', enc_int (ep_RunTimeout p)),
           (''standardInput'', JStr (ep_StandardInput p)),
           (''executionMemory'', enc_int (ep_ExecutionMemory p))]"

definition store_parameter :: "string \<Rightarrow> json \<Rightarrow> ExecutionParameters \<Rightarrow> bool \<times> ExecutionParameters" where
  "store_parameter k v p =
     (if field_is ''compileSteps'' k then apsnd (\<lambda>x. p\<lparr>ep_CompileSteps := x\<rparr>) (dec_strings v (ep_CompileSteps p))
      else if field_is ''compileTimeout'' k then apsnd (\<lambda>x. p\<lparr>ep_CompileTimeout := x\<rparr>) (dec_int v (ep_CompileTimeout p))
      else if field_is ''ID'' k then apsnd (\<lambda>x. p\<lparr>ep_ID := x\<rparr>) (dec_string v (ep_ID p))
      else if field_is ''language'' k then apsnd (\<lambda>x. p\<lparr>ep_Language := x\<rparr>) (dec_string v (ep_Language p))
      else if field_is ''run'' k then apsnd (\<lambda>x. p\<lparr>ep_Run := x\<rparr>) (dec_string v (ep_Run p))
      else if field_is ''runTimeout'' k then apsnd (\<lambda>x. p\<lparr>ep_RunTimeout := x\<rparr>) (dec_int v (ep_RunTimeout p))
      else if field_is ''standardInput'' k then apsnd (\<lambda>x. p\<lparr>ep_StandardInput := x\<rparr>) (dec_string v (ep_StandardInput p))
      else if field_is ''executionMemory'' k then apsnd (\<lambda>x. p\<lparr>ep_ExecutionMemory := x\<rparr>) (dec_int v (ep_ExecutionMemory p))
      else (True, p))"

definition encode_response :: "ExecutionResponse \<Rightarrow> json" where
  "encode_response r =
     JObj [(''compileTime'', enc_int (er_CompileTime r)),
           (''compilerOutput'', enc_strings (er_CompilerOutput r)),
           (''output'', enc_strings (er_Output r)),
           (''output_error'', enc_strings (er_OutputErr r)),
           (''runTime'', enc_int (er_Runtime r)),
           (''runtimeMemory'', enc_int (er_RuntimeMemoryBytes r)),
           (''status'', enc_int (er_Status r))]"

definition store_response :: "string \<Rightarrow> json \<Rightarrow> ExecutionResponse \<Rightarrow> bool \<times> ExecutionResponse" where
  "store_response k v r =
     (if field_is ''compileTime'' k then apsnd (\<lambda>x. r\<lparr>er_CompileTime := x\<rparr>) (dec_int v (er_CompileTime r))
      else if field_is ''compilerOutput'' k then apsnd (\<lambda>x. r\<lparr>er_CompilerOutput := x\<rparr>) (dec_strings v (er_CompilerOutput r))
      else if field_is ''output'' k then apsnd (\<lambda>x. r\<lparr>er_Output := x\<rparr>) (dec_strings v (er_Output r))
      else if field_is ''output_error'' k then apsnd (\<lambda>x. r\<lparr>er_OutputErr := x\<rparr>) (dec_strings v (er_OutputErr r))
      else if field_is ''runTime'' k then apsnd (\<lambda>x. r\<lparr>er_Runtime := x\<rparr>) (dec_int v (er_Runtime r))
      else if field_is ''runtimeMemory'' k then apsnd (\<lambda>x. r\<lparr>er_RuntimeMemoryBytes := x\<rparr>) (dec_int v (er_RuntimeMemoryBytes r))
      else if field_is ''status'' k then apsnd (\<lambda>x. r\<lparr>er_Status := x\<rparr>) (dec_int v (er_Status r))
      else (True, r))"

text \<open>The strings are text and the numbers fit, as they do when Go values hold them.\<close>

definition parameters_ok :: "ExecutionParameters \<Rightarrow> bool" where
  "parameters_ok p \<longleftrightarrow>
     list_all valid_utf8 (elems (ep_CompileSteps p))
     \<and> list_all valid_utf8 [ep_ID p, ep_Language p, ep_Run p, ep_StandardInput p]
     \<and> list_all in_int64 [ep_CompileTimeout p, ep_RunTimeout p, ep_ExecutionMemory p]"

definition response_ok :: "ExecutionResponse \<Rightarrow> bool" where
  "response_ok r \<longleftrightarrow>
     list_all valid_utf8 (elems (er_CompilerOutput r) @ elems (er_Output r) @ elems (er_OutputErr r))
     \<and> list_all in_int64 [er_CompileTime r, er_Runtime r, er_RuntimeMemoryBytes r, er_Status r]"

lemma field_is_parameters_table:
  "list_all (\<lambda>n. list_all (\<lambda>k. field_is n k \<longleftrightarrow> n = k)
     [''compileSteps'', ''compileTimeout'', ''ID'', ''language'', ''run'', ''runTimeout'', ''standardInput'', ''executionMemory''])
     [''compileSteps'', ''compileTimeout'', ''ID'', ''language'', ''run'', ''runTimeout'', ''standardInput'', ''executionMemory'']"
  by code_simp

lemma field_is_response_table:
  "list_all (\<lambda>n. list_all (\<lambda>k. field_is n k \<longleftrightarrow> n = k)
     [''compileTime'', ''compilerOutput'', ''output'', ''output_error'', ''runTime'', ''runtimeMemory'', ''status''])
     [''compileTime'', ''compilerOutput'', ''output'', ''output_error'', ''runTime'', ''runtimeMemory'', ''status'']"
  by code_simp

lemmas field_is_parameters = field_is_parameters_table [simplified]
lemmas field_is_response = field_is_response_table [simplified]

lemma unmarshal_parameters:
  assumes "parameters_ok p"
  shows "json_Unmarshal store_parameter (json_Marshal (encode_parameters p)) r = (None, p)"
proof -
  have "json_ok 10000 (encode_parameters p)"
    using assms by (simp add: encode_parameters_def parameters_ok_def)
  then have "json_parse (json_Marshal (encode_parameters p)) = Some (encode_parameters p)"
    by (rule json_parse_Marshal)
  with assms show ?thesis
    by (simp add: json_Unmarshal_def encode_parameters_def parameters_ok_def store_parameter_def field_is_parameters)
qed

lemma unmarshal_response:
  assumes "response_ok p"
  shows "json_Unmarshal store_response (json_MarshalIndent (encode_response p)) r = (None, p)"
proof -
  have "json_ok 10000 (encode_response p)"
    using assms by (simp add: encode_response_def response_ok_def)
  then have "json_parse (json_MarshalIndent (encode_response p)) = Some (encode_response p)"
    by (rule json_parse_MarshalIndent)
  with assms show ?thesis
    by (simp add: json_Unmarshal_def encode_response_def response_ok_def store_response_def field_is_response)
qed

subsection \<open>Paths for Docker\<close>

text \<open>\<open>filepath.Abs\<close>, with the working directory of the process as an argument.\<close>

definition filepath_Abs :: "string \<Rightarrow> string \<Rightarrow> string" where
  "filepath_Abs cwd p = (if p \<noteq> [] \<and> hd p = CHR ''/'' then filepath_Clean p else filepath_Join [cwd, p])"

definition ConvertPathToUnix :: "string \<Rightarrow> string \<Rightarrow> string" where
  "ConvertPathToUnix cwd path =
     (let abs = filepath_Abs cwd path;
          split = strings_Split abs '':'';
          directory = tl split;
          rootDrive = strings_ToLower (hd split)
      in replace_char (CHR 0x5C) (CHR ''/'') (CHR ''/'' # rootDrive @ strings_Join directory []))"

subsection \<open>Preparing the working directory\<close>

definition NewSandboxContainer :: "Request \<Rightarrow> Container" where
  "NewSandboxContainer request =
     \<lparr>c_ID = '''', c_status = NotRan, c_events = [], c_executionResponse = None,
      c_complete = NilChan, c_request = request\<rparr>"

abbreviation crlf :: string where "crlf \<equiv> [CHR 0x0D, CHR 0x0A]"
abbreviation newline :: string where "newline \<equiv> [CHR 0x0A]"

fun write_lines :: "string \<Rightarrow> string list \<Rightarrow> fs \<Rightarrow> error option \<times> fs" where
  "write_lines p [] f = (None, f)"
| "write_lines p (s # ss) f =
     or_wrap (file_Write p (s @ newline) f) ''failed to write standard in data'' (write_lines p ss)"

definition runner_parameters :: "Request \<Rightarrow> ExecutionParameters" where
  "runner_parameters rq =
     \<lparr>ep_CompileSteps = lc_compileSteps (rq_Compiler rq),
      ep_CompileTimeout = p_CompileTimeout (rq_ExecutionProfile rq),
      ep_ID = rq_ID rq,
      ep_Language = lc_Language (rq_Compiler rq),
      ep_Run = lc_runSteps (rq_Compiler rq),
      ep_RunTimeout = p_CodeTimeout (rq_ExecutionProfile rq),
      ep_StandardInput = lc_InputFile (rq_Compiler rq),
      ep_ExecutionMemory = p_ExecutionMemory (rq_ExecutionProfile rq)\<rparr>"

definition prepare :: "Request \<Rightarrow> fs \<Rightarrow> error option \<times> fs" where
  "prepare rq f =
     or_wrap (os_MkdirAll (rq_Path rq) f) ''failed to make required directories'' (\<lambda>f.
     let sourceFilePath = filepath_Join [rq_Path rq, lc_SourceFile (rq_Compiler rq)] in
     or_wrap (os_Create sourceFilePath f) ''failed to create source file'' (\<lambda>f.
     or_wrap (file_Write sourceFilePath (rq_SourceCode rq @ crlf) f) ''failed to write source code'' (\<lambda>f.
     let inputFilePath = filepath_Join [rq_Path rq, lc_InputFile (rq_Compiler rq)] in
     or_wrap (os_Create inputFilePath f) ''failed to create input file'' (\<lambda>f.
     or_return (case rq_Test rq of None \<Rightarrow> (None, f) | Some t \<Rightarrow> write_lines inputFilePath (elems (t_StdinData t)) f) (\<lambda>f.
     let runnerConfig = filepath_Join [rq_Path rq, ''runner.json''] in
     or_wrap (os_Create runnerConfig f) ''failed to create runner configuration'' (\<lambda>f.
     or_wrap (file_Write runnerConfig (json_Marshal (encode_parameters (runner_parameters rq))) f)
       ''failed to write runner configuration'' (\<lambda>f. (None, f))))))))"

subsection \<open>Starting the container\<close>

record ContainerConfig =
  cc_Entrypoint :: "string list"
  cc_Image :: string
  cc_NetworkDisabled :: bool
  cc_WorkingDir :: string

record HostConfig =
  hc_Runtime :: string
  hc_AutoRemove :: bool
  hc_Binds :: "string list"
  hc_Memory :: int
  hc_MemorySwap :: int

record 'd docker_client =
  ContainerCreate :: "ContainerConfig \<Rightarrow> HostConfig \<Rightarrow> string \<Rightarrow> 'd \<Rightarrow> (error + string) \<times> 'd"
  ContainerStart :: "string \<Rightarrow> 'd \<Rightarrow> error option \<times> 'd"
  ContainerKill :: "string \<Rightarrow> string \<Rightarrow> 'd \<Rightarrow> error option \<times> 'd"

record 'd world =
  w_fs :: fs
  w_docker :: 'd
  w_cwd :: string

definition container_config :: "Request \<Rightarrow> ContainerConfig" where
  "container_config rq =
     \<lparr>cc_Entrypoint = [''/runner''], cc_Image = lc_VirtualMachineName (rq_Compiler rq),
      cc_NetworkDisabled = True, cc_WorkingDir = ''/input''\<rparr>"

definition host_config :: "string \<Rightarrow> Request \<Rightarrow> HostConfig" where
  "host_config cwd rq =
     \<lparr>hc_Runtime = p_Runtime (rq_ExecutionProfile rq), hc_AutoRemove = p_AutoRemove (rq_ExecutionProfile rq),
      hc_Binds = [ConvertPathToUnix cwd (rq_Path rq) @ '':/input''],
      hc_Memory = Bytes (p_ContainerMemory (rq_ExecutionProfile rq)),
      hc_MemorySwap = Bytes (p_MemorySwap (rq_ExecutionProfile rq))\<rparr>"

definition execute :: "'d docker_client \<Rightarrow> Container \<Rightarrow> 'd world \<Rightarrow> error option \<times> Container \<times> 'd world" where
  "execute client d w =
     (case ContainerCreate client (container_config (c_request d)) (host_config (w_cwd w) (c_request d))
             (rq_ID (c_request d)) (w_docker w) of
        (Inl err, dk) \<Rightarrow> (Some (Wrap err ''failed to create container''), d, w\<lparr>w_docker := dk\<rparr>)
      | (Inr cid, dk) \<Rightarrow>
          (case ContainerStart client cid dk of
             (Some err, dk') \<Rightarrow> (Some (Wrap err ''failed to start the container''), d\<lparr>c_ID := cid\<rparr>, w\<lparr>w_docker := dk'\<rparr>)
           | (None, dk') \<Rightarrow> (None, d\<lparr>c_ID := cid\<rparr>, w\<lparr>w_docker := dk'\<rparr>)))"

definition cleanup :: "Container \<Rightarrow> fs \<Rightarrow> panic + (error option \<times> Container \<times> fs)" where
  "cleanup d f =
     (case close_chan (c_complete d) of
        Inl p \<Rightarrow> Inl p
      | Inr ch \<Rightarrow>
          let d1 = d\<lparr>c_complete := ch\<rparr>
          in if rq_Path (c_request d) \<noteq> []
             then (case os_RemoveAll (rq_Path (c_request d)) f of
                     (Some e, f1) \<Rightarrow> Inr (Some (Wrap e ''failed to clean up temp directory''), d1, f1)
                   | (None, f1) \<Rightarrow> Inr (None, d1, f1))
             else Inr (None, d1, f))"

definition Run :: "'d docker_client \<Rightarrow> Container \<Rightarrow> 'd world \<Rightarrow> panic + ((error + string) \<times> Container \<times> 'd world)" where
  "Run client d w =
     (let d0 = d\<lparr>c_complete := OpenChan\<rparr>
      in case prepare (c_request d0) (w_fs w) of
           (Some err, f) \<Rightarrow>
             (case cleanup d0 f of
                Inl p \<Rightarrow> Inl p
              | Inr (_, d1, f1) \<Rightarrow> Inr (Inl err, d1, w\<lparr>w_fs := f1\<rparr>))
         | (None, f) \<Rightarrow>
             (case execute client d0 (w\<lparr>w_fs := f\<rparr>) of
                (Some err, d1, w1) \<Rightarrow>
                  (case cleanup d1 (w_fs w1) of
                     Inl p \<Rightarrow> Inl p
                   | Inr (_, d2, f2) \<Rightarrow> Inr (Inl err, d2, w1\<lparr>w_fs := f2\<rparr>))
              | (None, d1, w1) \<Rightarrow> Inr (Inr (c_ID d1), d1, w1)))"

subsection \<open>Docker events\<close>

definition getSandboxRunnerOutput :: "Container \<Rightarrow> fs \<Rightarrow> (error + ExecutionResponse) \<times> Container" where
  "getSandboxRunnerOutput d f =
     (case os_ReadFile (filepath_Join [rq_Path (c_request d), ''runner-out.json'']) f of
        Inl err \<Rightarrow> (Inl (Wrap err ''failed to open runner-out.json file''), d)
      | Inr fileBytes \<Rightarrow>
          let params = snd (json_Unmarshal store_response fileBytes zero_response)
          in (Inr params, d\<lparr>c_status := er_Status params\<rparr>))"

definition handleContainerRemoved :: "Container \<Rightarrow> fs \<Rightarrow> panic + (Container \<times> fs)" where
  "handleContainerRemoved d f =
     (let (output, d1) = getSandboxRunnerOutput d f;
          d2 = d1\<lparr>c_executionResponse := (case output of Inl _ \<Rightarrow> None | Inr r \<Rightarrow> Some r)\<rparr>
      in case cleanup d2 f of
           Inl p \<Rightarrow> Inl p
         | Inr (_, d3, f1) \<Rightarrow> Inr (d3, f1))"

definition handleContainerCreated :: "Container \<Rightarrow> Container" where
  [simp]: "handleContainerCreated d = d\<lparr>c_status := Created\<rparr>"

definition handleContainerStarted :: "Container \<Rightarrow> Container" where
  [simp]: "handleContainerStarted d = d\<lparr>c_status := Running\<rparr>"

definition handleContainerKilling :: "Container \<Rightarrow> Container" where
  [simp]: "handleContainerKilling d = d\<lparr>c_status := Killing\<rparr>"

definition handleContainerKilled :: "Container \<Rightarrow> Container" where
  [simp]: "handleContainerKilled d = d\<lparr>c_status := Killed\<rparr>"

definition updateStatusFromDockerEvent :: "string \<Rightarrow> Container \<Rightarrow> fs \<Rightarrow> panic + (Container \<times> fs)" where
  "updateStatusFromDockerEvent status d f =
     (if status = ''create'' then Inr (handleContainerCreated d, f)
      else if status = ''start'' then Inr (handleContainerStarted d, f)
      else if status = ''kill'' then Inr (handleContainerKilling d, f)
      else if status = ''die'' then Inr (handleContainerKilled d, f)
      else if status = ''destroy'' then handleContainerRemoved d f
      else Inr (d, f))"

definition AddDockerEventMessage :: "Message \<Rightarrow> Container \<Rightarrow> fs \<Rightarrow> panic + (Container \<times> fs)" where
  "AddDockerEventMessage event d f =
     (if length (c_ID d) < 10 then Inl SliceBoundsOutOfRange
      else case updateStatusFromDockerEvent (m_Status event) d f of
             Inl p \<Rightarrow> Inl p
           | Inr (d1, f1) \<Rightarrow> Inr (d1\<lparr>c_events := c_events d1 @ [event]\<rparr>, f1))"

subsection \<open>The response\<close>

text \<open>The comparison loop; \<open>i\<close> is the index of the expected line at its head.\<close>

fun compare_outputs :: "string list \<Rightarrow> nat \<Rightarrow> string list \<Rightarrow> panic + ContainerTestStatus" where
  "compare_outputs out i [] = Inr TestPassed"
| "compare_outputs out i (expectedData # es) =
     (if i \<ge> length out then Inl IndexOutOfRange
      else if out ! i \<noteq> expectedData then Inr TestFailed
      else compare_outputs out (Suc i) es)"

definition test_result :: "Container \<Rightarrow> panic + ContainerTestStatus" where
  "test_result d =
     (case rq_Test (c_request d) of
        None \<Rightarrow> Inr NoTest
      | Some t \<Rightarrow>
          if c_status d \<noteq> Finished then Inr NoTest
          else (case c_executionResponse d of
                  None \<Rightarrow> Inl NilDereference
                | Some r \<Rightarrow>
                    if length (elems (er_Output r)) \<noteq> length (elems (t_ExpectedStdoutData t)) then Inr TestFailed
                    else compare_outputs (elems (er_Output r)) 0 (elems (t_ExpectedStdoutData t))))"

definition GetResponse :: "Container \<Rightarrow> panic + (Response \<times> Container)" where
  "GetResponse d =
     (case test_result d of
        Inl p \<Rightarrow> Inl p
      | Inr testStatus \<Rightarrow>
          let r = (case c_executionResponse d of None \<Rightarrow> zero_response | Some r \<Rightarrow> r)
          in Inr (\<lparr>rs_CompilerOutput = er_CompilerOutput r, rs_Output = er_Output r, rs_OutputError = er_OutputErr r,
                   rs_Status = er_Status r, rs_Runtime = wrap64 (er_Runtime r * 1),
                   rs_RuntimeMemory = er_RuntimeMemoryBytes r, rs_CompileTime = wrap64 (er_CompileTime r * 1),
                   rs_TestStatus = testStatus\<rparr>,
                  d\<lparr>c_executionResponse := Some r\<rparr>))"

subsection \<open>What prepare leaves in the file system\<close>

definition only_below :: "string list \<Rightarrow> fs \<Rightarrow> fs \<Rightarrow> bool" where
  "only_below es f f' \<longleftrightarrow> fault f' = fault f \<and> (\<forall>k. \<not> below es k \<longrightarrow> files f' k = files f k)"

lemma only_below_refl [simp]: "only_below es f f"
  by (simp add: only_below_def)

lemma only_below_trans: "only_below es f g \<Longrightarrow> only_below es g h \<Longrightarrow> only_below es f h"
  by (simp add: only_below_def)

lemma only_below_or_wrap:
  assumes "only_below es f (snd m)" and "\<And>g. only_below es f g \<Longrightarrow> only_below es f (snd (k g))"
  shows "only_below es f (snd (or_wrap m msg k))"
  using assms by (cases m; cases "fst m") (auto simp: or_wrap_def)

lemma only_below_or_return:
  assumes "only_below es f (snd m)" and "\<And>g. only_below es f g \<Longrightarrow> only_below es f (snd (k g))"
  shows "only_below es f (snd (or_return m k))"
  using assms by (cases m; cases "fst m") (auto simp: or_return_def)

lemma only_below_MkdirAll: "only_below es f g \<Longrightarrow> only_below es f (snd (os_MkdirAll p g))"
  by (cases "os_MkdirAll p g") (auto simp: only_below_def dest: os_MkdirAll_frame)

lemma only_below_Create: "below es (path_elems p) \<Longrightarrow> only_below es f g \<Longrightarrow> only_below es f (snd (os_Create p g))"
  by (cases "os_Create p g" rule: prod.exhaust, cases rule: os_Create_cases) (auto simp: only_below_def)

lemma only_below_Write: "below es (path_elems p) \<Longrightarrow> only_below es f g \<Longrightarrow> only_below es f (snd (file_Write p d g))"
  by (auto simp: only_below_def file_Write_def Let_def)

lemma only_below_write_lines:
  "below es (path_elems p) \<Longrightarrow> only_below es f g \<Longrightarrow> only_below es f (snd (write_lines p ss g))"
  by (induction ss arbitrary: g) (auto intro!: only_below_or_wrap only_below_Write)

lemma only_below_RemoveAll:
  "path_elems p = es \<Longrightarrow> only_below es f g \<Longrightarrow> only_below es f (snd (os_RemoveAll p g))"
  by (cases "os_RemoveAll p g") (auto simp: only_below_def dest: os_RemoveAll_frame)

text \<open>
  A request as the loader builds it: an absolute cleaned working directory and a compiler of
  the table.
\<close>

definition request_ok :: "Request \<Rightarrow> string list \<Rightarrow> bool" where
  "request_ok rq es \<longleftrightarrow> es \<noteq> [] \<and> list_all plain es \<and> rq_Path rq = abs_path es \<and> compiler_ok (rq_Compiler rq)"

lemma request_paths:
  assumes "request_ok rq es"
  shows "path_elems (rq_Path rq) = es"
    and "path_elems (filepath_Join [rq_Path rq, lc_SourceFile (rq_Compiler rq)]) = es @ [lc_SourceFile (rq_Compiler rq)]"
    and "path_elems (filepath_Join [rq_Path rq, lc_InputFile (rq_Compiler rq)]) = es @ [lc_InputFile (rq_Compiler rq)]"
    and "path_elems (filepath_Join [rq_Path rq, ''runner.json'']) = es @ [''runner.json'']"
    and "path_elems (filepath_Join [rq_Path rq, ''runner-out.json'']) = es @ [''runner-out.json'']"
proof -
  have plain: "plain (lc_SourceFile (rq_Compiler rq))" "plain (lc_InputFile (rq_Compiler rq))"
    "plain ''runner.json''" "plain ''runner-out.json''"
    using assms by (auto simp: request_ok_def compiler_ok_def plain_def)
  have es: "list_all plain es" "rq_Path rq = abs_path es" using assms by (auto simp: request_ok_def)
  show "path_elems (rq_Path rq) = es" using es by (simp add: path_elems_abs_path)
  have "path_elems (filepath_Join [rq_Path rq, n]) = es @ [n]" if "plain n" for n
  proof -
    have "filepath_Join [rq_Path rq, n] = abs_path (es @ [n])"
      using join_abs_path [OF es(1) that] es(2) by simp
    then show ?thesis using es that by (simp add: path_elems_abs_path del: filepath_Join.simps)
  qed
  with plain show "path_elems (filepath_Join [rq_Path rq, lc_SourceFile (rq_Compiler rq)]) = es @ [lc_SourceFile (rq_Compiler rq)]"
    and "path_elems (filepath_Join [rq_Path rq, lc_InputFile (rq_Compiler rq)]) = es @ [lc_InputFile (rq_Compiler rq)]"
    and "path_elems (filepath_Join [rq_Path rq, ''runner.json'']) = es @ [''runner.json'']"
    and "path_elems (filepath_Join [rq_Path rq, ''runner-out.json'']) = es @ [''runner-out.json'']"
    by blast+
qed

lemma below_snoc [simp]: "below es (es @ xs)"
  by (simp add: below_def)

lemma prepare_only_below:
  assumes "request_ok rq es"
  shows "only_below es f (snd (prepare rq f))"
  unfolding prepare_def Let_def
  using request_paths [OF assms]
  by (auto split: option.split simp del: filepath_Join.simps
      intro!: only_below_or_wrap only_below_or_return only_below_MkdirAll only_below_Create
        only_below_Write only_below_write_lines)

lemma write_lines_ok:
  assumes "write_lines p ss f = (None, f')" and "files f (path_elems p) = Some old"
  shows "f' = f\<lparr>files := (files f)(path_elems p \<mapsto> old @ concat (map (\<lambda>s. s @ newline) ss))\<rparr>"
  using assms
proof (induction ss arbitrary: f old)
  case Nil
  then show ?case by (simp add: map_upd_triv)
next
  case (Cons s ss)
  then obtain g where w: "file_Write p (s @ newline) f = (None, g)" and rest: "write_lines p ss g = (None, f')"
    by (auto simp: or_wrap_None)
  from w Cons.prems(2) have g: "g = f\<lparr>files := (files f)(path_elems p \<mapsto> old @ s @ newline)\<rparr>"
    by (cases rule: file_Write_cases) auto
  have "f' = g\<lparr>files := (files g)(path_elems p \<mapsto> (old @ s @ newline) @ concat (map (\<lambda>s. s @ newline) ss))\<rparr>"
    using g by (intro Cons.IH [OF rest]) simp
  moreover have "(files g)(path_elems p \<mapsto> x) = (files f)(path_elems p \<mapsto> x)" for x
    using g by (auto simp: fun_eq_iff)
  ultimately show ?case using g by (simp add: fun_upd_def)
qed

text \<open>The content of the standard input file.\<close>

definition stdin_text :: "Request \<Rightarrow> string" where
  "stdin_text rq = (case rq_Test rq of None \<Rightarrow> [] | Some t \<Rightarrow> concat (map (\<lambda>s. s @ newline) (elems (t_StdinData t))))"

lemma os_Create_ok:
  "os_Create p f = (None, g) \<Longrightarrow> g = f\<lparr>files := (files f)(path_elems p \<mapsto> [])\<rparr>"
  by (erule os_Create_cases) simp_all

lemma file_Write_ok:
  "file_Write p d f = (None, g) \<Longrightarrow> files f (path_elems p) = Some old \<Longrightarrow> g = f\<lparr>files := (files f)(path_elems p \<mapsto> old @ d)\<rparr>"
  by (erule file_Write_cases) simp_all

lemma prepare_ok:
  assumes rq: "request_ok rq es" and ok: "prepare rq f = (None, f')"
  shows "files f' = (files f)
           (es @ [lc_SourceFile (rq_Compiler rq)] \<mapsto> rq_SourceCode rq @ crlf,
            es @ [lc_InputFile (rq_Compiler rq)] \<mapsto> stdin_text rq,
            es @ [''runner.json''] \<mapsto> json_Marshal (encode_parameters (runner_parameters rq)))"
    and "fault f' = fault f" and "es \<in> dirs f'"
proof -
  note paths = request_paths [OF rq]
  let ?src = "filepath_Join [rq_Path rq, lc_SourceFile (rq_Compiler rq)]"
  let ?inp = "filepath_Join [rq_Path rq, lc_InputFile (rq_Compiler rq)]"
  let ?cfg = "filepath_Join [rq_Path rq, ''runner.json'']"
  let ?lines = "\<lambda>f. (case rq_Test rq of None \<Rightarrow> (None, f) | Some t \<Rightarrow> write_lines ?inp (elems (t_StdinData t)) f)"
  from ok obtain f1 f2 f3 f4 f5 f6 where
    1: "os_MkdirAll (rq_Path rq) f = (None, f1)" and
    2: "os_Create ?src f1 = (None, f2)" and
    3: "file_Write ?src (rq_SourceCode rq @ crlf) f2 = (None, f3)" and
    4: "os_Create ?inp f3 = (None, f4)" and
    5: "?lines f4 = (None, f5)" and
    6: "os_Create ?cfg f5 = (None, f6)" and
    7: "file_Write ?cfg (json_Marshal (encode_parameters (runner_parameters rq))) f6 = (None, f')"
    unfolding prepare_def Let_def by (auto simp: or_wrap_None or_return_None simp del: filepath_Join.simps)
  have f1: "files f1 = files f" "fault f1 = fault f" "es \<in> dirs f1"
    using os_MkdirAll_frame [OF 1] os_MkdirAll_ok [OF 1] paths(1) by auto
  note f2 = os_Create_ok [OF 2, unfolded paths]
  have f3: "f3 = f2\<lparr>files := (files f2)(es @ [lc_SourceFile (rq_Compiler rq)] \<mapsto> [] @ rq_SourceCode rq @ crlf)\<rparr>"
    using file_Write_ok [OF 3, of "[]"] f2 paths by simp
  note f4 = os_Create_ok [OF 4, unfolded paths]
  have f5: "f5 = f4\<lparr>files := (files f4)(es @ [lc_InputFile (rq_Compiler rq)] \<mapsto> stdin_text rq)\<rparr>"
  proof (cases "rq_Test rq")
    case None
    have "files f4 (es @ [lc_InputFile (rq_Compiler rq)]) = Some []" using f4 by simp
    with None 5 show ?thesis by (simp add: stdin_text_def map_upd_triv)
  next
    case (Some t)
    have "files f4 (path_elems ?inp) = Some []" using f4 paths by simp
    moreover from Some 5 have "write_lines ?inp (elems (t_StdinData t)) f4 = (None, f5)"
      by (simp del: filepath_Join.simps)
    ultimately show ?thesis
      using write_lines_ok [of ?inp "elems (t_StdinData t)" f4 f5 "[]"] Some paths by (simp add: stdin_text_def)
  qed
  note f6 = os_Create_ok [OF 6, unfolded paths]
  have f7: "f' = f6\<lparr>files := (files f6)(es @ [''runner.json''] \<mapsto> [] @ json_Marshal (encode_parameters (runner_parameters rq)))\<rparr>"
    using file_Write_ok [OF 7, of "[]"] f6 paths by simp
  show "fault f' = fault f" "es \<in> dirs f'" using f1 f2 f3 f4 f5 f6 f7 by simp_all
  show "files f' = (files f)
           (es @ [lc_SourceFile (rq_Compiler rq)] \<mapsto> rq_SourceCode rq @ crlf,
            es @ [lc_InputFile (rq_Compiler rq)] \<mapsto> stdin_text rq,
            es @ [''runner.json''] \<mapsto> json_Marshal (encode_parameters (runner_parameters rq)))"
    unfolding f7 f6 f5 f4 f3 f2 by (simp add: f1)
qed

subsection \<open>Starting and failing\<close>

lemma execute_frame:
  assumes "execute client d w = (r, d', w')"
  shows "w_fs w' = w_fs w" "c_complete d' = c_complete d" "c_request d' = c_request d" "c_status d' = c_status d"
    "c_executionResponse d' = c_executionResponse d" "c_events d' = c_events d"
  using assms by (auto simp: execute_def split: prod.splits sum.splits option.splits)

lemma cleanup_open:
  assumes "c_complete d = OpenChan" and "request_ok (c_request d) es"
  obtains r f' where "cleanup d f = Inr (r, d\<lparr>c_complete := ClosedChan\<rparr>, f')" "only_below es f f'"
    "\<not> fault f OpRemove es \<longrightarrow> (\<forall>k. below es k \<longrightarrow> files f' k = None \<and> k \<notin> dirs f')"
proof -
  note path = request_paths(1) [OF assms(2)]
  have ne: "rq_Path (c_request d) \<noteq> []" using assms(2) by (simp add: request_ok_def)
  obtain r f' where rm: "os_RemoveAll (rq_Path (c_request d)) f = (r, f')" by fastforce
  have "only_below es f f'" using only_below_RemoveAll [OF path, of f f] rm by simp
  moreover have "\<not> fault f OpRemove es \<longrightarrow> (\<forall>k. below es k \<longrightarrow> files f' k = None \<and> k \<notin> dirs f')"
    using rm path by (auto simp: os_RemoveAll_def Let_def)
  ultimately show ?thesis
    using that assms(1) ne rm by (cases r) (auto simp: cleanup_def)
qed

text \<open>
  Both outcomes of \<open>Run\<close>: a failed start closes the channel and removes the working directory,
  touching nothing else; a successful one leaves the prepared files and an open channel.
\<close>

definition started :: "Request \<Rightarrow> fs \<Rightarrow> string \<Rightarrow> Container \<Rightarrow> fs \<Rightarrow> bool" where
  "started rq f cid d f' \<longleftrightarrow>
     prepare rq f = (None, f') \<and> c_ID d = cid \<and> c_complete d = OpenChan \<and> c_request d = rq"

definition cleaned :: "string list \<Rightarrow> fs \<Rightarrow> Container \<Rightarrow> fs \<Rightarrow> bool" where
  "cleaned es f d f' \<longleftrightarrow>
     c_complete d = ClosedChan \<and> only_below es f f'
     \<and> (\<not> fault f OpRemove es \<longrightarrow> (\<forall>k. below es k \<longrightarrow> files f' k = None \<and> k \<notin> dirs f'))"

lemma cleanup_cleaned:
  assumes "c_complete d = OpenChan" and "request_ok (c_request d) es" and "only_below es f0 f"
  obtains r f' where "cleanup d f = Inr (r, d\<lparr>c_complete := ClosedChan\<rparr>, f')"
    "cleaned es f0 (d\<lparr>c_complete := ClosedChan\<rparr>) f'"
proof -
  obtain r f' where c: "cleanup d f = Inr (r, d\<lparr>c_complete := ClosedChan\<rparr>, f')" "only_below es f f'"
    "\<not> fault f OpRemove es \<longrightarrow> (\<forall>k. below es k \<longrightarrow> files f' k = None \<and> k \<notin> dirs f')"
    by (rule cleanup_open [OF assms(1,2)])
  moreover have "fault f = fault f0" using assms(3) by (simp add: only_below_def)
  ultimately have "cleaned es f0 (d\<lparr>c_complete := ClosedChan\<rparr>) f'"
    using only_below_trans [OF assms(3) c(2)] by (simp add: cleaned_def)
  with that c(1) show ?thesis by blast
qed

lemma Run_result:
  assumes rq: "request_ok (c_request d) es"
  shows "\<exists>r d' w'. Run client d w = Inr (r, d', w') \<and> c_status d' = c_status d
           \<and> c_executionResponse d' = c_executionResponse d \<and> c_events d' = c_events d
           \<and> (case r of Inl err \<Rightarrow> cleaned es (w_fs w) d' (w_fs w')
              | Inr cid \<Rightarrow> started (c_request d) (w_fs w) cid d' (w_fs w'))"
proof -
  let ?d = "d\<lparr>c_complete := OpenChan\<rparr>"
  obtain r f where p: "prepare (c_request d) (w_fs w) = (r, f)" by fastforce
  have f: "only_below es (w_fs w) f" using prepare_only_below [OF rq, of "w_fs w"] p by simp
  show ?thesis
  proof (cases r)
    case (Some err)
    have "c_complete ?d = OpenChan" "request_ok (c_request ?d) es" using rq by simp_all
    then obtain y f2 where "cleanup ?d f = Inr (y, ?d\<lparr>c_complete := ClosedChan\<rparr>, f2)"
      "cleaned es (w_fs w) (?d\<lparr>c_complete := ClosedChan\<rparr>) f2"
      using f by (rule cleanup_cleaned)
    with Some p show ?thesis by (simp add: Run_def)
  next
    case None
    obtain x d1 w1 where e: "execute client ?d (w\<lparr>w_fs := f\<rparr>) = (x, d1, w1)" using prod_cases3 by blast
    note fr = execute_frame [OF e]
    show ?thesis
    proof (cases x)
      case None
      with \<open>r = None\<close> p e fr show ?thesis by (simp add: Run_def started_def)
    next
      case (Some err)
      have "c_complete d1 = OpenChan" "request_ok (c_request d1) es" using fr rq by simp_all
      moreover have "only_below es (w_fs w) (w_fs w1)" using f fr by simp
      ultimately obtain y f2 where "cleanup d1 (w_fs w1) = Inr (y, d1\<lparr>c_complete := ClosedChan\<rparr>, f2)"
        "cleaned es (w_fs w) (d1\<lparr>c_complete := ClosedChan\<rparr>) f2"
        by (rule cleanup_cleaned)
      with Some \<open>r = None\<close> p e fr show ?thesis by (simp add: Run_def)
    qed
  qed
qed

subsection \<open>Containers that received events\<close>

text \<open>
  The states of a container the manager knows: it was started, and since then Docker events were
  handled and responses taken, while anything may happen to the file system in between.
\<close>

inductive live :: "Container \<Rightarrow> bool" where
  start: "started rq f cid d f' \<Longrightarrow> c_status d = NotRan \<Longrightarrow> c_executionResponse d = None \<Longrightarrow> c_events d = [] \<Longrightarrow> live d"
| event: "live d \<Longrightarrow> AddDockerEventMessage ev d f = Inr (d', f') \<Longrightarrow> live d'"
| response: "live d \<Longrightarrow> GetResponse d = Inr (r, d') \<Longrightarrow> live d'"

definition container_inv :: "Container \<Rightarrow> bool" where
  "container_inv d \<longleftrightarrow>
     (c_status d = Finished \<longrightarrow> c_executionResponse d \<noteq> None) \<and> (c_complete d = OpenChan \<longrightarrow> c_status d \<noteq> Finished)"

lemma cleanup_Inr:
  "cleanup d f = Inr (r, d', f') \<Longrightarrow> c_complete d = OpenChan \<and> d' = d\<lparr>c_complete := ClosedChan\<rparr>"
  by (auto simp: cleanup_def close_chan_Inr_iff Let_def split: sum.splits if_splits prod.splits option.splits)

lemma handleContainerRemoved_inv:
  assumes "container_inv d" and "handleContainerRemoved d f = Inr (d', f')"
  shows "container_inv d'"
  using assms
  by (auto simp: handleContainerRemoved_def getSandboxRunnerOutput_def container_inv_def Let_def
      split: sum.splits dest!: cleanup_Inr)

lemma updateStatus_inv:
  assumes "container_inv d" and "updateStatusFromDockerEvent status d f = Inr (d', f')"
  shows "container_inv d'"
proof (cases "status = ''destroy''")
  case True
  with assms show ?thesis
    by (auto simp: updateStatusFromDockerEvent_def intro: handleContainerRemoved_inv)
next
  case False
  with assms(2) have "d' = d \<or> (\<exists>s. d' = d\<lparr>c_status := s\<rparr> \<and> s \<noteq> Finished)"
    by (auto simp: updateStatusFromDockerEvent_def status_defs split: if_splits)
  with assms(1) show ?thesis by (auto simp: container_inv_def)
qed

lemma event_inv:
  assumes "container_inv d" and "AddDockerEventMessage ev d f = Inr (d', f')"
  shows "container_inv d'"
proof -
  from assms(2) obtain d1 where "updateStatusFromDockerEvent (m_Status ev) d f = Inr (d1, f')"
    and d': "d' = d1\<lparr>c_events := c_events d1 @ [ev]\<rparr>"
    by (auto simp: AddDockerEventMessage_def split: if_splits sum.splits)
  with assms(1) have "container_inv d1" by (blast intro: updateStatus_inv)
  with d' show ?thesis by (simp add: container_inv_def)
qed

text \<open>The channel is closed exactly when a destroy event was recorded.\<close>

lemma live_completion:
  "live d \<Longrightarrow> c_complete d \<noteq> NilChan \<and> (c_complete d = ClosedChan \<longleftrightarrow> (\<exists>ev\<in>set (c_events d). m_Status ev = ''destroy''))"
proof (induction rule: live.induct)
  case (start rq f cid d f')
  then show ?case by (simp add: started_def)
next
  case (event d ev f d' f')
  from event.hyps(2) obtain d1 where d1: "updateStatusFromDockerEvent (m_Status ev) d f = Inr (d1, f')"
    "d' = d1\<lparr>c_events := c_events d1 @ [ev]\<rparr>"
    by (auto simp: AddDockerEventMessage_def split: if_splits sum.splits)
  show ?case
  proof (cases "m_Status ev = ''destroy''")
    case True
    with d1 show ?thesis
      by (auto simp: updateStatusFromDockerEvent_def handleContainerRemoved_def getSandboxRunnerOutput_def Let_def
          split: sum.splits dest!: cleanup_Inr)
  next
    case False
    with d1(1) have "c_complete d1 = c_complete d" "c_events d1 = c_events d"
      by (auto simp: updateStatusFromDockerEvent_def split: if_splits)
    with event.IH d1(2) False show ?thesis by simp
  qed
next
  case (response d r d')
  then show ?case by (auto simp: GetResponse_def Let_def split: sum.splits)
qed

lemma destroy_closes:
  assumes "AddDockerEventMessage ev d f = Inr (d', f')" and "m_Status ev = ''destroy''"
  shows "c_complete d' = ClosedChan"
  using assms
  by (auto simp: AddDockerEventMessage_def updateStatusFromDockerEvent_def handleContainerRemoved_def Let_def
      split: if_splits sum.splits prod.splits dest!: cleanup_Inr)

lemma live_inv: "live d \<Longrightarrow> container_inv d"
proof (induction rule: live.induct)
  case (start rq f cid d f')
  then show ?case by (simp add: container_inv_def status_defs)
next
  case (event d ev f d' f')
  then show ?case by (blast intro: event_inv)
next
  case (response d r d')
  then show ?case by (auto simp: GetResponse_def container_inv_def Let_def split: sum.splits)
qed

lemma compare_outputs_eq:
  "length out = i + length es \<Longrightarrow> compare_outputs out i es = Inr (if drop i out = es then TestPassed else TestFailed)"
proof (induction es arbitrary: i)
  case Nil
  then show ?case by simp
next
  case (Cons e es)
  then have "drop i out = out ! i # drop (Suc i) out" by (simp add: Cons_nth_drop_Suc)
  with Cons show ?case by simp
qed

lemma Run_live:
  assumes "request_ok rq es" and "Run client (NewSandboxContainer rq) w = Inr (Inr cid, d, w')"
  shows "live d" "started rq (w_fs w) cid d (w_fs w')" "c_events d = []"
proof -
  have "request_ok (c_request (NewSandboxContainer rq)) es" using assms(1) by (simp add: NewSandboxContainer_def)
  from Run_result [OF this, of client w] assms(2)
  have "started rq (w_fs w) cid d (w_fs w')" "c_status d = NotRan" "c_executionResponse d = None" "c_events d = []"
    by (auto simp: NewSandboxContainer_def)
  then show "live d" "started rq (w_fs w) cid d (w_fs w')" "c_events d = []" by (auto intro: live.start)
qed

subsection \<open>Successful preparation\<close>

text \<open>
  A file system in which the working directory can be made: the operating system refuses nothing,
  no regular file is in the way and the names of the three files are not directories.
\<close>

definition room_for :: "string list \<Rightarrow> fs \<Rightarrow> bool" where
  "room_for es f \<longleftrightarrow>
     (\<forall>op k. \<not> fault f op k) \<and> list_all (\<lambda>k. files f k = None) (prefixes es) \<and> (\<forall>n. es @ [n] \<notin> dirs f)"

lemma os_MkdirAll_room:
  assumes "room_for es f" and "path_elems p = es"
  obtains f1 where "os_MkdirAll p f = (None, f1)" "\<forall>op k. \<not> fault f1 op k" "es \<in> dirs f1" "\<forall>n. es @ [n] \<notin> dirs f1"
proof -
  obtain r f1 where r: "os_MkdirAll p f = (r, f1)" by fastforce
  have "r = None"
    using r assms mkdir_each_total [of f "prefixes es"] by (simp add: os_MkdirAll_def room_for_def)
  note fr = os_MkdirAll_frame [OF r] and ok = os_MkdirAll_ok [of p f f1]
  have "es @ [n] \<notin> dirs f1" for n
    using fr assms by (auto simp: room_for_def dest!: prefix_length_le)
  with that r \<open>r = None\<close> fr ok assms show ?thesis by (auto simp: room_for_def)
qed

lemma os_Create_total:
  assumes "\<forall>op k. \<not> fault f op k" "path_elems p = es @ [n]" "es \<in> dirs f" "\<forall>n. es @ [n] \<notin> dirs f"
  obtains g where "os_Create p f = (None, g)" "fault g = fault f" "dirs g = dirs f"
  using assms that by (simp add: os_Create_def)

lemma file_Write_total:
  assumes "\<forall>op k. \<not> fault f op k"
  obtains g where "file_Write p d f = (None, g)" "fault g = fault f" "dirs g = dirs f"
  using assms that by (simp add: file_Write_def Let_def)

lemma write_lines_total:
  assumes "\<forall>op k. \<not> fault f op k"
  shows "\<exists>g. write_lines p ss f = (None, g) \<and> fault g = fault f \<and> dirs g = dirs f"
  using assms
proof (induction ss arbitrary: f)
  case Nil
  show ?case by auto
next
  case (Cons s ss)
  obtain g where "file_Write p (s @ newline) f = (None, g)" "fault g = fault f" "dirs g = dirs f"
    by (rule file_Write_total [OF Cons.prems])
  moreover from this Cons.prems have "\<forall>op k. \<not> fault g op k" by simp
  ultimately show ?case using Cons.IH [of g] by (simp add: or_wrap_def)
qed

lemma prepare_total:
  assumes rq: "request_ok rq es" and room: "room_for es f"
  shows "\<exists>f'. prepare rq f = (None, f')"
proof -
  note paths = request_paths [OF rq]
  let ?src = "filepath_Join [rq_Path rq, lc_SourceFile (rq_Compiler rq)]"
  let ?inp = "filepath_Join [rq_Path rq, lc_InputFile (rq_Compiler rq)]"
  let ?cfg = "filepath_Join [rq_Path rq, ''runner.json'']"
  let ?lines = "\<lambda>f. (case rq_Test rq of None \<Rightarrow> (None, f) | Some t \<Rightarrow> write_lines ?inp (elems (t_StdinData t)) f)"
  obtain f1 where 1: "os_MkdirAll (rq_Path rq) f = (None, f1)" "\<forall>op k. \<not> fault f1 op k" "es \<in> dirs f1"
    "\<forall>n. es @ [n] \<notin> dirs f1"
    by (rule os_MkdirAll_room [OF room paths(1)])
  obtain f2 where 2: "os_Create ?src f1 = (None, f2)" "fault f2 = fault f1" "dirs f2 = dirs f1"
    by (rule os_Create_total [OF 1(2) paths(2) 1(3,4)])
  obtain f3 where 3: "file_Write ?src (rq_SourceCode rq @ crlf) f2 = (None, f3)" "fault f3 = fault f1" "dirs f3 = dirs f1"
    using 1(2) 2 by (metis file_Write_total)
  obtain f4 where 4: "os_Create ?inp f3 = (None, f4)" "fault f4 = fault f1" "dirs f4 = dirs f1"
    using 1(2-4) 3 paths(3) by (metis os_Create_total)
  obtain f5 where 5: "?lines f4 = (None, f5)" "fault f5 = fault f1" "dirs f5 = dirs f1"
  proof (cases "rq_Test rq")
    case None
    with that 4 show ?thesis by simp
  next
    case (Some t)
    obtain g where "write_lines ?inp (elems (t_StdinData t)) f4 = (None, g)" "fault g = fault f4" "dirs g = dirs f4"
      using write_lines_total [of f4 ?inp "elems (t_StdinData t)"] 1(2) 4(2) by metis
    with that Some 4 show ?thesis by (simp del: filepath_Join.simps)
  qed
  obtain f6 where 6: "os_Create ?cfg f5 = (None, f6)" "fault f6 = fault f1" "dirs f6 = dirs f1"
    using 1(2-4) 5 paths(4) by (metis os_Create_total)
  obtain f7 where 7: "file_Write ?cfg (json_Marshal (encode_parameters (runner_parameters rq))) f6 = (None, f7)"
    using 1(2) 6 by (metis file_Write_total)
  show ?thesis
    unfolding prepare_def Let_def using 1(1) 2(1) 3(1) 4(1) 5(1) 6(1) 7
    by (auto simp: or_wrap_None or_return_None simp del: filepath_Join.simps)
qed

subsection \<open>Handling an event\<close>

lemma cleanup_panics_iff: "(\<exists>p. cleanup d f = Inl p) \<longleftrightarrow> c_complete d \<noteq> OpenChan"
  by (cases "c_complete d") (auto simp: cleanup_def Let_def split: prod.splits option.splits)

lemma live_not_nil: "live d \<Longrightarrow> c_complete d \<noteq> NilChan"
proof (induction rule: live.induct)
  case (start rq f cid d f')
  then show ?case by (simp add: started_def)
next
  case (event d ev f d' f')
  then show ?case
    by (auto simp: AddDockerEventMessage_def updateStatusFromDockerEvent_def handleContainerRemoved_def Let_def
        split: if_splits sum.splits prod.splits dest!: cleanup_Inr)
next
  case (response d r d')
  then show ?case by (auto simp: GetResponse_def Let_def split: sum.splits)
qed

lemma getSandboxRunnerOutput_chan: "c_complete (snd (getSandboxRunnerOutput d f)) = c_complete d"
  by (simp add: getSandboxRunnerOutput_def Let_def split: sum.split)

lemma handleContainerRemoved_Inl:
  "handleContainerRemoved d f = Inl p \<longleftrightarrow> close_chan (c_complete d) = Inl p"
  using getSandboxRunnerOutput_chan [of d f]
  by (cases "c_complete d")
    (auto simp: handleContainerRemoved_def cleanup_def Let_def split: prod.splits sum.splits option.splits)

lemma updateStatus_Inl:
  "updateStatusFromDockerEvent s d f = Inl p \<longleftrightarrow> s = ''destroy'' \<and> close_chan (c_complete d) = Inl p"
  by (auto simp: updateStatusFromDockerEvent_def handleContainerRemoved_Inl)

lemma AddDockerEventMessage_Inl:
  "AddDockerEventMessage ev d f = Inl p \<longleftrightarrow>
     (if length (c_ID d) < 10 then p = SliceBoundsOutOfRange
      else m_Status ev = ''destroy'' \<and> close_chan (c_complete d) = Inl p)"
  using updateStatus_Inl [of "m_Status ev" d f p]
  by (auto simp: AddDockerEventMessage_def split: sum.split)

lemma handleContainerRemoved_reads:
  assumes "c_complete d = OpenChan" and rq: "request_ok (c_request d) es" and "response_ok r"
    and "\<not> fault f OpRead (es @ [''runner-out.json''])"
    and "files f (es @ [''runner-out.json'']) = Some (json_MarshalIndent (encode_response r))"
  obtains f' where
    "handleContainerRemoved d f = Inr (d\<lparr>c_complete := ClosedChan, c_executionResponse := Some r, c_status := er_Status r\<rparr>, f')"
proof -
  have "os_ReadFile (filepath_Join [rq_Path (c_request d), ''runner-out.json'']) f = Inr (json_MarshalIndent (encode_response r))"
    using assms request_paths(5) [OF rq] by (simp add: os_ReadFile_def del: filepath_Join.simps)
  then have out: "getSandboxRunnerOutput d f = (Inr r, d\<lparr>c_status := er_Status r\<rparr>)"
    using unmarshal_response [OF assms(3)] by (simp add: getSandboxRunnerOutput_def)
  let ?d = "d\<lparr>c_status := er_Status r, c_executionResponse := Some r\<rparr>"
  have open_rq: "c_complete ?d = OpenChan" "request_ok (c_request ?d) es" using assms by simp_all
  obtain y f' where "cleanup ?d f = Inr (y, ?d\<lparr>c_complete := ClosedChan\<rparr>, f')"
    by (rule cleanup_open [OF open_rq])
  with out have "handleContainerRemoved d f = Inr (?d\<lparr>c_complete := ClosedChan\<rparr>, f')"
    by (simp add: handleContainerRemoved_def)
  with that show ?thesis by simp
qed

subsection \<open>Concrete data for the witnesses\<close>

definition demo_profile :: Profile where
  "demo_profile =
     \<lparr>p_Runtime = Default, p_AutoRemove = True, p_CodeTimeout = Second, p_CompileTimeout = Second * 10,
      p_ContainerMemory = Gigabyte * 2, p_ExecutionMemory = Gigabyte, p_MemorySwap = 0\<rparr>"

definition demo_request :: Request where
  "demo_request =
     \<lparr>rq_ID = ''r1'', rq_ExecutionProfile = demo_profile, rq_Path = ''/tmp/Job-r1'', rq_SourceCode = ''print(1)'',
      rq_Compiler = snd (hd Compilers),
      rq_Test = Some \<lparr>t_ID = ''t1'', t_StdinData = Some [''a'', ''b''], t_ExpectedStdoutData = Some [''1'']\<rparr>\<rparr>"

definition empty_fs :: fs where
  "empty_fs = \<lparr>files = Map.empty, dirs = {[]}, fault = (\<lambda>op k. False)\<rparr>"

definition demo_container :: Container where
  "demo_container =
     \<lparr>c_ID = ''0123456789abcdef'', c_status = NotRan, c_events = [], c_executionResponse = None,
      c_complete = OpenChan, c_request = demo_request\<rparr>"

definition destroy_event :: Message where
  "destroy_event = \<lparr>m_ID = ''0123456789abcdef'', m_Status = ''destroy'', m_From = [], m_Action = ''destroy'', m_Type = ''container''\<rparr>"

definition demo_output :: ExecutionResponse where
  "demo_output = zero_response\<lparr>er_Output := Some [''1''], er_Status := Finished\<rparr>"

lemma demo_request_ok: "request_ok demo_request [''tmp'', ''Job-r1'']"
  using Compilers_table_ok
  by (simp add: request_ok_def demo_request_def plain_def abs_path_def Compilers_def)

lemma empty_fs_room: "room_for es empty_fs"
  by (simp add: room_for_def empty_fs_def list_all_iff)

lemma demo_container_live: "live demo_container"
proof -
  obtain f' where "prepare demo_request empty_fs = (None, f')"
    using prepare_total [OF demo_request_ok empty_fs_room] by blast
  then have "started demo_request empty_fs ''0123456789abcdef'' demo_container f'"
    by (simp add: started_def demo_container_def)
  then show ?thesis by (rule live.start) (simp_all add: demo_container_def)
qed

definition refusing_client :: "unit docker_client" where
  "refusing_client =
     \<lparr>ContainerCreate = (\<lambda>c h n d. (Inl (ClientError ''no such image''), d)),
      ContainerStart = (\<lambda>i d. (None, d)), ContainerKill = (\<lambda>i s d. (None, d))\<rparr>"

subsection \<open>The verdict on a test\<close>

definition expected_test_status :: "Test option \<Rightarrow> ContainerStatus \<Rightarrow> ExecutionResponse option \<Rightarrow> ContainerTestStatus" where
  "expected_test_status t status r =
     (if t = None \<or> status \<noteq> Finished then NoTest
      else if elems (er_Output (the r)) = elems (t_ExpectedStdoutData (the t)) then TestPassed
      else TestFailed)"

lemma test_result_live:
  assumes "live d"
  shows "test_result d = Inr (expected_test_status (rq_Test (c_request d)) (c_status d) (c_executionResponse d))"
  using live_inv [OF assms]
  by (auto simp: test_result_def expected_test_status_def container_inv_def compare_outputs_eq
      split: option.splits)

lemma closed_response:
  assumes "response_ok r" and "c_executionResponse d = Some r" and "c_status d = er_Status r"
  shows "GetResponse d = Inr
    (\<lparr>rs_CompilerOutput = er_CompilerOutput r, rs_Output = er_Output r, rs_OutputError = er_OutputErr r,
      rs_Status = er_Status r, rs_Runtime = er_Runtime r, rs_RuntimeMemory = er_RuntimeMemoryBytes r,
      rs_CompileTime = er_CompileTime r,
      rs_TestStatus = expected_test_status (rq_Test (c_request d)) (er_Status r) (Some r)\<rparr>, d)"
proof -
  have "test_result d = Inr (expected_test_status (rq_Test (c_request d)) (er_Status r) (Some r))"
    using assms(2,3) by (auto simp: test_result_def expected_test_status_def compare_outputs_eq split: option.splits)
  moreover have "wrap64 (er_Runtime r) = er_Runtime r" "wrap64 (er_CompileTime r) = er_CompileTime r"
    using assms(1) by (simp_all add: response_ok_def)
  moreover have "d\<lparr>c_executionResponse := Some r\<rparr> = d" using assms(2) by (cases d) simp
  ultimately show ?thesis using assms(2) by (simp add: GetResponse_def)
qed

subsection \<open>Lower case paths\<close>

lemma ascii_lower_fixed:
  "(of_char d :: nat) < 97 \<Longrightarrow> \<not> (65 \<le> (of_char d :: nat) \<and> (of_char d :: nat) \<le> 90) \<Longrightarrow> ascii_lower c = d \<longleftrightarrow> c = d"
proof -
  assume d: "(of_char d :: nat) < 97" "\<not> (65 \<le> (of_char d :: nat) \<and> (of_char d :: nat) \<le> 90)"
  have "ascii_lower c = d \<longleftrightarrow> (of_char (ascii_lower c) :: nat) = of_char d" by simp
  also have "\<dots> \<longleftrightarrow> (of_char c :: nat) = of_char d" using d by (auto simp: of_char_ascii_lower)
  finally show ?thesis by simp
qed

lemma ToLower_keeps:
  "(of_char d :: nat) < 97 \<Longrightarrow> \<not> (65 \<le> (of_char d :: nat) \<and> (of_char d :: nat) \<le> 90) \<Longrightarrow>
     d \<in> set (strings_ToLower s) \<longleftrightarrow> d \<in> set s"
proof -
  assume d: "(of_char d :: nat) < 97" "\<not> (65 \<le> (of_char d :: nat) \<and> (of_char d :: nat) \<le> 90)"
  have "d \<in> set (strings_ToLower s) \<longleftrightarrow> (\<exists>c\<in>set s. ascii_lower c = d)" by (auto simp: strings_ToLower_def)
  also have "\<dots> \<longleftrightarrow> d \<in> set s" using ascii_lower_fixed [OF d] by auto
  finally show ?thesis .
qed

lemma plain_ToLower: "plain e \<Longrightarrow> plain (strings_ToLower e)"
proof -
  assume "plain e"
  moreover have "strings_ToLower e = ''.'' \<Longrightarrow> e = ''.''" "strings_ToLower e = ''..'' \<Longrightarrow> e = ''..''"
    by (auto simp: strings_ToLower_def map_eq_Cons_conv ascii_lower_fixed)
  moreover have "CHR ''/'' \<notin> set (strings_ToLower e)" using \<open>plain e\<close> by (simp add: plain_def ToLower_keeps)
  ultimately show ?thesis by (auto simp: plain_def) (auto simp: strings_ToLower_def)
qed

lemma ToLower_Join: "strings_ToLower (strings_Join es sep) = strings_Join (map strings_ToLower es) (strings_ToLower sep)"
  by (induction es sep rule: strings_Join.induct) (auto simp: strings_ToLower_def)

lemma ToLower_abs_path: "strings_ToLower (abs_path es) = abs_path (map strings_ToLower es)"
proof -
  have "strings_ToLower (CHR ''/'' # s) = CHR ''/'' # strings_ToLower s" "strings_ToLower ''/'' = ''/''" for s
    by (simp_all add: strings_ToLower_def ascii_lower_def)
  then show ?thesis by (simp add: abs_path_def ToLower_Join)
qed

lemma set_strings_Join: "set (strings_Join es sep) \<subseteq> \<Union> (set ` set es) \<union> set sep"
  by (induction es sep rule: strings_Join.induct) auto

subsection \<open>Properties\<close>

text \<open>
  C11. Preparing a request in a file system with room for it succeeds and leaves exactly three new
  files in the working directory: the source code followed by CR LF, the lines of the test's
  standard input, and the runner's parameters; every other file is unchanged.
\<close>

theorem prepare_writes_inputs:
  assumes "request_ok rq es" and "room_for es f"
  shows "\<exists>f'. prepare rq f = (None, f') \<and> es \<in> dirs f'
           \<and> files f' = (files f)
               (es @ [lc_SourceFile (rq_Compiler rq)] \<mapsto> rq_SourceCode rq @ crlf,
                es @ [lc_InputFile (rq_Compiler rq)] \<mapsto> stdin_text rq,
                es @ [''runner.json''] \<mapsto> json_Marshal (encode_parameters (runner_parameters rq)))"
  using prepare_total [OF assms] prepare_ok [OF assms(1)] by blast

theorem prepare_writes_inputs_witness:
  "\<exists>f'. prepare demo_request empty_fs = (None, f')
      \<and> files f' [''tmp'', ''Job-r1'', ''solution.py''] = Some (''print(1)'' @ crlf)
      \<and> files f' [''tmp'', ''Job-r1'', ''input''] = Some (''a'' @ newline @ ''b'' @ newline)"
  using prepare_writes_inputs [OF demo_request_ok empty_fs_room]
  by (auto simp: demo_request_def Compilers_def stdin_text_def)





text \<open>
  C22. Docker events never crash the process while a container runs: handling an event for a known
  container panics exactly when the container id is shorter than the ten characters the log line
  takes, or when a second \<open>destroy\<close> event closes the completion channel again.
\<close>

theorem event_panics_iff:
  assumes "live d"
  shows "(\<exists>p. AddDockerEventMessage ev d f = Inl p) \<longleftrightarrow>
           length (c_ID d) < 10 \<or> (m_Status ev = ''destroy'' \<and> c_complete d = ClosedChan)"
proof -
  have "(\<exists>p. close_chan (c_complete d) = Inl p) \<longleftrightarrow> c_complete d = ClosedChan"
    using live_not_nil [OF assms] by (cases "c_complete d") auto
  then show ?thesis by (auto simp: AddDockerEventMessage_Inl)
qed

theorem event_panics_iff_witness:
  "\<not> (\<exists>p. AddDockerEventMessage destroy_event demo_container empty_fs = Inl p)"
  by (simp add: event_panics_iff [OF demo_container_live]) (simp add: demo_container_def)

text \<open>
  C14. When the runner has left its result in the working directory, the \<open>destroy\<close> event takes it over
  unchanged, and the response carries the runner's status, outputs and measurements together
  with the verdict on the test; the completion channel is closed and the directory removed.
\<close>

theorem destroy_reports_runner_output:
  assumes "c_complete d = OpenChan" and "10 \<le> length (c_ID d)" and "request_ok (c_request d) es"
    and "response_ok r" and "m_Status ev = ''destroy''"
    and "\<not> fault f OpRead (es @ [''runner-out.json''])"
    and "files f (es @ [''runner-out.json'']) = Some (json_MarshalIndent (encode_response r))"
  shows "\<exists>d' f'. AddDockerEventMessage ev d f = Inr (d', f') \<and> c_complete d' = ClosedChan
           \<and> GetResponse d' = Inr
               (\<lparr>rs_CompilerOutput = er_CompilerOutput r, rs_Output = er_Output r, rs_OutputError = er_OutputErr r,
                 rs_Status = er_Status r, rs_Runtime = er_Runtime r, rs_RuntimeMemory = er_RuntimeMemoryBytes r,
                 rs_CompileTime = er_CompileTime r,
                 rs_TestStatus = expected_test_status (rq_Test (c_request d)) (er_Status r) (Some r)\<rparr>, d')"
proof -
  obtain f' where h: "handleContainerRemoved d f =
      Inr (d\<lparr>c_complete := ClosedChan, c_executionResponse := Some r, c_status := er_Status r\<rparr>, f')"
    by (rule handleContainerRemoved_reads [OF assms(1,3,4,6,7)])
  let ?d = "d\<lparr>c_complete := ClosedChan, c_executionResponse := Some r, c_status := er_Status r, c_events := c_events d @ [ev]\<rparr>"
  have "AddDockerEventMessage ev d f = Inr (?d, f')"
    using h assms(2,5) by (simp add: AddDockerEventMessage_def updateStatusFromDockerEvent_def)
  moreover note closed_response [of r ?d]
  ultimately show ?thesis using assms(4) by simp
qed

theorem destroy_reports_runner_output_witness:
  "\<exists>d' f' rs. AddDockerEventMessage destroy_event demo_container
       (empty_fs\<lparr>files := [[''tmp'', ''Job-r1'', ''runner-out.json''] \<mapsto> json_MarshalIndent (encode_response demo_output)]\<rparr>)
       = Inr (d', f') \<and> GetResponse d' = Inr (rs, d') \<and> rs_Status rs = Finished \<and> rs_TestStatus rs = TestPassed"
proof -
  have "response_ok demo_output"
    by (simp add: response_ok_def demo_output_def zero_response_def in_int64_def status_defs)
  then show ?thesis
    using destroy_reports_runner_output [of demo_container "[''tmp'', ''Job-r1'']" demo_output destroy_event
        "empty_fs\<lparr>files := [[''tmp'', ''Job-r1'', ''runner-out.json''] \<mapsto> json_MarshalIndent (encode_response demo_output)]\<rparr>"]
      demo_request_ok
    by (auto simp: demo_container_def destroy_event_def empty_fs_def expected_test_status_def demo_output_def
        demo_request_def zero_response_def)
qed

text \<open>
  On a Unix host the path handed to Docker as the bind mount names the working directory only
  when the path has no upper case letter: an absolute ASCII path without colon and backslash is
  turned into its lower case form behind a second slash.
\<close>

theorem ConvertPathToUnix_lowers:
  assumes "list_all plain es" and "list_all (list_all (\<lambda>c. is_ascii c \<and> c \<noteq> CHR '':'' \<and> c \<noteq> CHR 0x5C)) es"
  shows "ConvertPathToUnix cwd (abs_path es) = CHR ''/'' # strings_ToLower (abs_path es)
           \<and> (path_elems (ConvertPathToUnix cwd (abs_path es)) = es \<longleftrightarrow> list_all (\<lambda>e. strings_ToLower e = e) es)"
proof -
  have chars: "c \<notin> set (abs_path es)" if "c = CHR '':'' \<or> c = CHR 0x5C" for c
  proof
    assume "c \<in> set (abs_path es)"
    moreover have "c \<noteq> CHR ''/''" using that by auto
    ultimately obtain e where "e \<in> set es" "c \<in> set e"
      using set_strings_Join [of es "''/''"] by (auto simp: abs_path_def)
    with assms(2) that show False by (auto simp: list_all_iff)
  qed
  have "filepath_Abs cwd (abs_path es) = abs_path es"
    using assms(1) by (simp add: filepath_Abs_def clean_abs_path) (simp add: abs_path_def)
  moreover have "strings_Split (abs_path es) '':'' = [abs_path es]"
    using chars by (simp add: split_nosep)
  moreover have "replace_char (CHR 0x5C) (CHR ''/'') (CHR ''/'' # strings_ToLower (abs_path es)) = CHR ''/'' # strings_ToLower (abs_path es)"
  proof -
    have "CHR 0x5C \<notin> set (strings_ToLower (abs_path es))" using chars by (simp add: ToLower_keeps)
    then show ?thesis unfolding replace_char_def by (intro map_idI) auto
  qed
  ultimately have eq: "ConvertPathToUnix cwd (abs_path es) = CHR ''/'' # strings_ToLower (abs_path es)"
    by (simp add: ConvertPathToUnix_def)
  have "path_elems (ConvertPathToUnix cwd (abs_path es)) = map strings_ToLower es"
    using assms(1)
    by (simp add: eq path_elems_slash ToLower_abs_path path_elems_abs_path list_all_iff plain_ToLower)
  moreover have "map strings_ToLower es = es \<longleftrightarrow> list_all (\<lambda>e. strings_ToLower e = e) es"
    by (induction es) auto
  ultimately show ?thesis using eq by simp
qed

theorem ConvertPathToUnix_lowers_witness:
  "path_elems (ConvertPathToUnix ''/'' (rq_Path demo_request)) = [''tmp'', ''job-r1'']
     \<and> path_elems (ConvertPathToUnix ''/'' (rq_Path demo_request)) \<noteq> path_elems (rq_Path demo_request)"
proof -
  have p: "rq_Path demo_request = abs_path [''tmp'', ''Job-r1'']" by (simp add: demo_request_def abs_path_def)
  have "path_elems (ConvertPathToUnix ''/'' (abs_path [''tmp'', ''Job-r1''])) = [''tmp'', ''job-r1'']"
  proof -
    have "map strings_ToLower [''tmp'', ''Job-r1''] = [''tmp'', ''job-r1'']" by code_simp
    moreover have "ConvertPathToUnix ''/'' (abs_path [''tmp'', ''Job-r1'']) = CHR ''/'' # strings_ToLower (abs_path [''tmp'', ''Job-r1''])"
      using ConvertPathToUnix_lowers [of "[''tmp'', ''Job-r1'']" "''/''"] by (simp add: plain_def is_ascii_def)
    ultimately show ?thesis
      by (simp only: path_elems_slash ToLower_abs_path) (simp add: path_elems_abs_path plain_def)
  qed
  then show ?thesis by (simp add: p path_elems_abs_path plain_def)
qed

end
