(* ===== verification/Container_Manager.thy ===== *)
theory Container_Manager
  imports Sandbox_Container
begin

text \<open>
  \<open>internal/sandbox/manager.go\<close>: the registry of running containers, the limiter and the loop over
  Docker's events. The limiter is a buffered channel of request ids; an operation that would
  block on it returns \<open>None\<close>. The \<open>sync.Map\<close> holds pointers to containers; nobody else keeps one
  once it is stored, so the map holds the containers themselves. The three parts of
  \<open>AddContainer\<close> (taking a slot, running, registering) and the two parts of \<open>RemoveContainer\<close> are
  separate definitions, because other goroutines run in between.
\<close>

subsection \<open>State\<close>

record manager =
  containers :: "string \<rightharpoonup> Container"
  limiter :: "string list"
  limiter_cap :: nat
  stopFlag :: int

definition NewSandboxContainerManager :: "int \<Rightarrow> fs \<Rightarrow> machine \<Rightarrow> panic + (manager \<times> machine)" where
  "NewSandboxContainerManager maxConcurrentContainers f m =
     (if maxConcurrentContainers < 0 then Inl (PanicMessage ''makechan: size out of range'')
      else case IsGvisorInstalled f m of
             Inl p \<Rightarrow> Inl p
           | Inr (_, m1) \<Rightarrow>
               Inr (\<lparr>containers = Map.empty, limiter = [], limiter_cap = nat maxConcurrentContainers, stopFlag = 0\<rparr>, m1))"

text \<open>Sending blocks on a full buffer, receiving on an empty one; the oldest element is received.\<close>

definition limiter_send :: "string \<Rightarrow> manager \<Rightarrow> manager option" where
  "limiter_send x s = (if length (limiter s) < limiter_cap s then Some (s\<lparr>limiter := limiter s @ [x]\<rparr>) else None)"

definition limiter_receive :: "manager \<Rightarrow> manager option" where
  "limiter_receive s = (case limiter s of [] \<Rightarrow> None | x # xs \<Rightarrow> Some (s\<lparr>limiter := xs\<rparr>))"

definition containers_Store :: "string \<Rightarrow> Container \<Rightarrow> manager \<Rightarrow> manager" where
  "containers_Store cid d s = s\<lparr>containers := (containers s)(cid \<mapsto> d)\<rparr>"

definition containers_Delete :: "string \<Rightarrow> manager \<Rightarrow> manager" where
  "containers_Delete cid s = s\<lparr>containers := (containers s)(cid := None)\<rparr>"

definition getContainer :: "string \<Rightarrow> manager \<Rightarrow> Container option" where
  "getContainer cid s = containers s cid"

lemma registry_simps [simp]:
  "limiter (containers_Store cid d s) = limiter s" "limiter (containers_Delete cid s) = limiter s"
  "limiter_cap (containers_Store cid d s) = limiter_cap s" "limiter_cap (containers_Delete cid s) = limiter_cap s"
  "containers (containers_Store cid d s) = (containers s)(cid \<mapsto> d)"
  "containers (containers_Delete cid s) = (containers s)(cid := None)"
  by (simp_all add: containers_Store_def containers_Delete_def)

subsection \<open>Operations\<close>

definition AddContainer ::
  "'d docker_client \<Rightarrow> Request \<Rightarrow> manager \<Rightarrow> 'd world \<Rightarrow> (panic + ((error + string) \<times> manager \<times> 'd world)) option" where
  "AddContainer client request s w =
     (case limiter_send (rq_ID request) s of
        None \<Rightarrow> None
      | Some s1 \<Rightarrow> Some
          (case Run client (NewSandboxContainer request) w of
             Inl p \<Rightarrow> Inl p
           | Inr (Inl err, d, w1) \<Rightarrow> Inr (Inl err, s1, w1)
           | Inr (Inr containerID, d, w1) \<Rightarrow> Inr (Inr containerID, containers_Store containerID d s1, w1)))"

definition kill_container :: "'d docker_client \<Rightarrow> string \<Rightarrow> bool \<Rightarrow> manager \<Rightarrow> 'd \<Rightarrow> error option \<times> 'd" where
  "kill_container client containerID kill s dk =
     (if kill
      then (case getContainer containerID s of
              None \<Rightarrow> (None, dk)
            | Some container \<Rightarrow> ContainerKill client (c_ID container) ''SIGKILL'' dk)
      else (None, dk))"

definition RemoveContainer ::
  "'d docker_client \<Rightarrow> string \<Rightarrow> bool \<Rightarrow> manager \<Rightarrow> 'd world \<Rightarrow> (error option \<times> manager \<times> 'd world) option" where
  "RemoveContainer client containerID kill s w =
     (case kill_container client containerID kill s (w_docker w) of
        (Some err, dk) \<Rightarrow> Some (Some (Wrap err ''failed to kill the container''), s, w\<lparr>w_docker := dk\<rparr>)
      | (None, dk) \<Rightarrow>
          (case limiter_receive s of
             None \<Rightarrow> None
           | Some s1 \<Rightarrow> Some (None, containers_Delete containerID s1, w\<lparr>w_docker := dk\<rparr>)))"

definition manager_GetResponse :: "string \<Rightarrow> manager \<Rightarrow> panic + (Response option \<times> manager)" where
  "manager_GetResponse containerID s =
     (case getContainer containerID s of
        None \<Rightarrow> Inr (None, s)
      | Some container \<Rightarrow>
          (case GetResponse container of
             Inl p \<Rightarrow> Inl p
           | Inr (r, d) \<Rightarrow> Inr (Some r, containers_Store containerID d s)))"

definition Stop :: "manager \<Rightarrow> manager" where
  "Stop s = s\<lparr>stopFlag := 1\<rparr>"

subsection \<open>The event loop\<close>

text \<open>What one \<open>select\<close> finds: an error, a message, or nothing, and then the loop sleeps.\<close>

datatype poll = PollErr "error option" | PollMsg Message | PollNone

definition handle_poll :: "poll \<Rightarrow> manager \<Rightarrow> fs \<Rightarrow> panic + (manager \<times> fs)" where
  "handle_poll poll s f =
     (case poll of
        PollErr err \<Rightarrow> Inr (s, f)
      | PollMsg msg \<Rightarrow>
          (case getContainer (m_ID msg) s of
             None \<Rightarrow> Inr (s, f)
           | Some container \<Rightarrow>
               (case AddDockerEventMessage msg container f of
                  Inl p \<Rightarrow> Inl p
                | Inr (d, f1) \<Rightarrow> Inr (containers_Store (m_ID msg) d s, f1)))
      | PollNone \<Rightarrow> Inr (s, f))"

text \<open>The loop on what its selects find in turn; the flag says whether it returned.\<close>

fun Start :: "poll list \<Rightarrow> manager \<Rightarrow> fs \<Rightarrow> panic + (bool \<times> manager \<times> fs)" where
  "Start polls s f =
     (if stopFlag s = 1 then Inr (True, s, f)
      else case polls of
             [] \<Rightarrow> Inr (False, s, f)
           | p # ps \<Rightarrow>
               (case handle_poll p s f of
                  Inl e \<Rightarrow> Inl e
                | Inr (s1, f1) \<Rightarrow> Start ps s1 f1))"

declare Start.simps [simp del]

subsection \<open>The limiter as a semaphore\<close>

text \<open>
  What the manager's clients rely on: a slot is refused exactly when all are in use, taking and
  giving back change the count by one, and the count never passes the capacity.
\<close>

locale slot_limiter =
  fixes acquire :: "'k \<Rightarrow> 's \<Rightarrow> 's option" and release :: "'s \<Rightarrow> 's option"
    and used :: "'s \<Rightarrow> nat" and capacity :: "'s \<Rightarrow> nat"
  assumes acquire_None_iff: "used s \<le> capacity s \<Longrightarrow> acquire k s = None \<longleftrightarrow> used s = capacity s"
    and acquire_Some: "acquire k s = Some s' \<Longrightarrow> used s' = Suc (used s) \<and> capacity s' = capacity s \<and> used s < capacity s"
    and release_None_iff: "release s = None \<longleftrightarrow> used s = 0"
    and release_Some: "release s = Some s' \<Longrightarrow> used s = Suc (used s') \<and> capacity s' = capacity s"
begin

lemma acquire_bounded: "acquire k s = Some s' \<Longrightarrow> used s' \<le> capacity s'"
  using acquire_Some [of k s s'] by simp

lemma release_bounded: "used s \<le> capacity s \<Longrightarrow> release s = Some s' \<Longrightarrow> used s' \<le> capacity s'"
  using release_Some [of s s'] by simp

fun acquire_all :: "'k list \<Rightarrow> 's \<Rightarrow> 's option" where
  "acquire_all [] s = Some s"
| "acquire_all (k # ks) s = Option.bind (acquire k s) (acquire_all ks)"

lemma acquire_all_iff:
  assumes "used s \<le> capacity s"
  shows "acquire_all ks s \<noteq> None \<longleftrightarrow> used s + length ks \<le> capacity s"
  using assms
proof (induction ks arbitrary: s)
  case Nil
  then show ?case by simp
next
  case (Cons k ks)
  show ?case
  proof (cases "acquire k s")
    case None
    with acquire_None_iff [OF Cons.prems] show ?thesis by simp
  next
    case (Some s')
    note s' = acquire_Some [OF Some] acquire_bounded [OF Some]
    from Cons.IH [OF s'(2)] Some s'(1) show ?thesis by auto
  qed
qed

end

interpretation lim: slot_limiter limiter_send limiter_receive "\<lambda>s. length (limiter s)" limiter_cap
  by unfold_locales (auto simp: limiter_send_def limiter_receive_def split: if_splits list.splits)

subsection \<open>The manager's invariant\<close>

definition manager_ok :: "manager \<Rightarrow> bool" where
  "manager_ok s \<longleftrightarrow> length (limiter s) \<le> limiter_cap s \<and> (\<forall>cid d. containers s cid = Some d \<longrightarrow> live d)"

lemma manager_ok_Store: "manager_ok s \<Longrightarrow> live d \<Longrightarrow> manager_ok (containers_Store cid d s)"
  by (auto simp: manager_ok_def containers_Store_def)

lemma manager_ok_Delete: "manager_ok s \<Longrightarrow> manager_ok (containers_Delete cid s)"
  by (auto simp: manager_ok_def containers_Delete_def)

lemma manager_ok_live: "manager_ok s \<Longrightarrow> getContainer cid s = Some d \<Longrightarrow> live d"
  by (auto simp: manager_ok_def getContainer_def)

lemma limiter_send_containers: "limiter_send x s = Some s' \<Longrightarrow> containers s' = containers s \<and> stopFlag s' = stopFlag s"
  by (auto simp: limiter_send_def split: if_splits)

lemma limiter_receive_containers: "limiter_receive s = Some s' \<Longrightarrow> containers s' = containers s \<and> stopFlag s' = stopFlag s"
  by (auto simp: limiter_receive_def split: list.splits)

lemma manager_ok_send: "manager_ok s \<Longrightarrow> limiter_send x s = Some s' \<Longrightarrow> manager_ok s'"
  using lim.acquire_bounded [of x s s'] limiter_send_containers [of x s s'] by (simp add: manager_ok_def)

lemma manager_ok_receive: "manager_ok s \<Longrightarrow> limiter_receive s = Some s' \<Longrightarrow> manager_ok s'"
  using lim.release_bounded [of s s'] limiter_receive_containers [of s s'] by (simp add: manager_ok_def)

lemma AddContainer_ok:
  assumes "manager_ok s" and rq: "request_ok rq es" and call: "AddContainer client rq s w = Some (Inr (r, s', w'))"
  shows "manager_ok s'"
proof -
  from call obtain s1 where s1: "limiter_send (rq_ID rq) s = Some s1"
    by (auto simp: AddContainer_def split: option.splits)
  note ok1 = manager_ok_send [OF assms(1) s1]
  show ?thesis
  proof (cases "Run client (NewSandboxContainer rq) w")
    case (Inl p)
    with call s1 show ?thesis by (simp add: AddContainer_def)
  next
    case (Inr x)
    obtain y d w1 where x: "x = (y, d, w1)" by (cases x)
    show ?thesis
    proof (cases y)
      case (Inl e)
      with call s1 Inr x ok1 show ?thesis by (auto simp: AddContainer_def)
    next
      case (Inr cid)
      with \<open>Run _ _ _ = _\<close> x have "live d" using Run_live [OF rq] by blast
      with call s1 \<open>Run _ _ _ = _\<close> x Inr ok1 show ?thesis by (auto simp: AddContainer_def intro: manager_ok_Store)
    qed
  qed
qed

lemma RemoveContainer_ok:
  assumes "manager_ok s" and "RemoveContainer client cid kill s w = Some (r, s', w')"
  shows "manager_ok s'"
  using assms by (auto simp: RemoveContainer_def split: prod.splits option.splits intro: manager_ok_Delete manager_ok_receive)

lemma manager_GetResponse_ok:
  assumes "manager_ok s" and "manager_GetResponse cid s = Inr (r, s')"
  shows "manager_ok s'"
  using assms
  by (auto simp: manager_GetResponse_def split: option.splits sum.splits
      intro!: manager_ok_Store dest: live.response [OF manager_ok_live])

lemma handle_poll_ok:
  assumes "manager_ok s" and "handle_poll p s f = Inr (s', f')"
  shows "manager_ok s'"
  using assms
  by (auto simp: handle_poll_def split: poll.splits option.splits sum.splits
      intro!: manager_ok_Store dest: live.event [OF manager_ok_live])

lemma Stop_ok: "manager_ok s \<Longrightarrow> manager_ok (Stop s)"
  by (simp add: manager_ok_def Stop_def)

lemma Start_ok: "manager_ok s \<Longrightarrow> Start ps s f = Inr (b, s', f') \<Longrightarrow> manager_ok s'"
proof (induction ps arbitrary: s f)
  case Nil
  then show ?case by (subst (asm) Start.simps) (auto split: if_splits)
next
  case (Cons p ps)
  show ?case
  proof (cases "stopFlag s = 1")
    case True
    with Cons.prems show ?thesis by (subst (asm) Start.simps) auto
  next
    case False
    with Cons.prems obtain s1 f1 where "handle_poll p s f = Inr (s1, f1)" "Start ps s1 f1 = Inr (b, s', f')"
      by (subst (asm) Start.simps) (auto split: sum.splits)
    with Cons show ?thesis using handle_poll_ok by blast
  qed
qed

subsection \<open>The event loop does not crash\<close>

text \<open>The containers whose removal is announced by the messages the loop will see.\<close>

fun destroyed :: "poll list \<Rightarrow> string list" where
  "destroyed [] = []"
| "destroyed (PollMsg msg # ps) = (if m_Status msg = ''destroy'' then m_ID msg # destroyed ps else destroyed ps)"
| "destroyed (_ # ps) = destroyed ps"

text \<open>
  Docker's part: ids have at least ten characters, and no container is announced as destroyed twice.
\<close>

definition docker_events_ok :: "poll list \<Rightarrow> manager \<Rightarrow> bool" where
  "docker_events_ok ps s \<longleftrightarrow>
     distinct (destroyed ps)
     \<and> (\<forall>cid d. containers s cid = Some d \<longrightarrow> 10 \<le> length (c_ID d) \<and> (cid \<in> set (destroyed ps) \<longrightarrow> c_complete d = OpenChan))"

lemma cleanup_keeps: "cleanup d f = Inr (r, d', f') \<Longrightarrow> c_ID d' = c_ID d"
  by (auto dest!: cleanup_Inr)

lemma event_keeps:
  assumes "AddDockerEventMessage ev d f = Inr (d', f')"
  shows "c_ID d' = c_ID d \<and> (m_Status ev \<noteq> ''destroy'' \<longrightarrow> c_complete d' = c_complete d)"
  using assms
  by (auto simp: AddDockerEventMessage_def updateStatusFromDockerEvent_def handleContainerRemoved_def
      getSandboxRunnerOutput_def Let_def
      split: if_splits sum.splits prod.splits dest!: cleanup_keeps)

lemma handle_poll_events:
  assumes ok: "manager_ok s" and ev: "docker_events_ok (p # ps) s"
  obtains s' f' where "handle_poll p s f = Inr (s', f')" "docker_events_ok ps s'" "stopFlag s' = stopFlag s"
proof (cases "\<exists>msg d. p = PollMsg msg \<and> containers s (m_ID msg) = Some d")
  case False
  then have "handle_poll p s f = Inr (s, f)"
    by (auto simp: handle_poll_def getContainer_def split: poll.splits option.splits)
  moreover have "docker_events_ok ps s"
    using ev by (cases p) (auto simp: docker_events_ok_def split: if_splits)
  ultimately show ?thesis using that by blast
next
  case True
  then obtain msg d where p: "p = PollMsg msg" and d: "containers s (m_ID msg) = Some d" by blast
  have ids: "10 \<le> length (c_ID d)" and "m_Status msg = ''destroy'' \<Longrightarrow> c_complete d = OpenChan"
    using ev p d by (auto simp: docker_events_ok_def)
  then have "AddDockerEventMessage msg d f \<noteq> Inl e" for e
    by (auto simp: AddDockerEventMessage_Inl)
  then obtain d' f' where step: "AddDockerEventMessage msg d f = Inr (d', f')"
    by (cases "AddDockerEventMessage msg d f") auto
  then have "handle_poll p s f = Inr (containers_Store (m_ID msg) d' s, f')"
    using p d by (simp add: handle_poll_def getContainer_def)
  moreover have "docker_events_ok ps (containers_Store (m_ID msg) d' s)"
    using ev p d event_keeps [OF step]
    by (auto simp: docker_events_ok_def containers_Store_def split: if_splits)
  ultimately show ?thesis using that by (simp add: containers_Store_def)
qed

lemma Start_total:
  assumes "manager_ok s" and "docker_events_ok ps s"
  shows "\<exists>b s' f'. Start ps s f = Inr (b, s', f') \<and> manager_ok s' \<and> (b \<longleftrightarrow> stopFlag s = 1)"
  using assms
proof (induction ps arbitrary: s f)
  case Nil
  then show ?case by (subst Start.simps) auto
next
  case (Cons p ps)
  show ?case
  proof (cases "stopFlag s = 1")
    case True
    with Cons.prems show ?thesis by (subst Start.simps) auto
  next
    case False
    obtain s1 f1 where step: "handle_poll p s f = Inr (s1, f1)" "docker_events_ok ps s1" "stopFlag s1 = stopFlag s"
      using handle_poll_events [OF Cons.prems] by blast
    with Cons.IH [OF handle_poll_ok [OF Cons.prems(1) step(1)] step(2), of f1] False
    show ?thesis by (subst Start.simps) auto
  qed
qed

subsection \<open>Failed starts\<close>

lemma AddContainer_error:
  assumes "AddContainer client rq s w = Some (Inr (Inl err, s', w'))"
  shows "s' = s\<lparr>limiter := limiter s @ [rq_ID rq]\<rparr>"
  using assms by (auto simp: AddContainer_def limiter_send_def split: if_splits sum.splits)

text \<open>A client that adds one request after the other and goes on when one fails.\<close>

fun AddContainers ::
  "'d docker_client \<Rightarrow> Request list \<Rightarrow> manager \<Rightarrow> 'd world \<Rightarrow> (panic + (manager \<times> 'd world)) option" where
  "AddContainers client [] s w = Some (Inr (s, w))"
| "AddContainers client (rq # rqs) s w =
     (case AddContainer client rq s w of
        None \<Rightarrow> None
      | Some (Inl p) \<Rightarrow> Some (Inl p)
      | Some (Inr (r, s1, w1)) \<Rightarrow> AddContainers client rqs s1 w1)"

definition create_refused :: "'d docker_client \<Rightarrow> bool" where
  "create_refused client \<longleftrightarrow> (\<forall>c h n dk. \<exists>e dk'. ContainerCreate client c h n dk = (Inl e, dk'))"

lemma Run_refused:
  assumes client: "create_refused client" and rq: "request_ok rq es"
  obtains err d w' where "Run client (NewSandboxContainer rq) w = Inr (Inl err, d, w')"
proof -
  have rq': "request_ok (c_request (NewSandboxContainer rq)) es" using rq by (simp add: NewSandboxContainer_def)
  obtain r d w' where run: "Run client (NewSandboxContainer rq) w = Inr (r, d, w')"
    using Run_result [OF rq', of client w] by blast
  have ex: "\<exists>err d1 w1. execute client c v = (Some err, d1, w1)" for c v
  proof -
    obtain e dk where "ContainerCreate client (container_config (c_request c)) (host_config (w_cwd v) (c_request c))
        (rq_ID (c_request c)) (w_docker v) = (Inl e, dk)"
      using client unfolding create_refused_def by blast
    then show ?thesis by (simp add: execute_def)
  qed
  have "\<exists>err. r = Inl err"
  proof (cases r)
    case (Inr cid)
    obtain y f where y: "prepare rq (w_fs w) = (y, f)" by fastforce
    let ?d = "(NewSandboxContainer rq)\<lparr>c_complete := OpenChan\<rparr>"
    obtain err d1 w1 where "execute client ?d (w\<lparr>w_fs := f\<rparr>) = (Some err, d1, w1)" using ex by blast
    with run Inr y show ?thesis
      by (cases y) (auto simp: Run_def NewSandboxContainer_def split: sum.splits)
  qed simp
  with run that show ?thesis by blast
qed

lemma AddContainer_refused:
  assumes "create_refused client" and "request_ok rq es" and "length (limiter s) < limiter_cap s"
  obtains err w' where "AddContainer client rq s w = Some (Inr (Inl err, s\<lparr>limiter := limiter s @ [rq_ID rq]\<rparr>, w'))"
proof -
  obtain err d w' where "Run client (NewSandboxContainer rq) w = Inr (Inl err, d, w')"
    by (rule Run_refused [OF assms(1,2)])
  with assms(3) that show ?thesis by (simp add: AddContainer_def limiter_send_def)
qed

lemma AddContainers_refused:
  assumes "create_refused client" and "list_all (\<lambda>rq. \<exists>es. request_ok rq es) rqs"
    and "length (limiter s) + length rqs = limiter_cap s"
  shows "\<exists>s' w'. AddContainers client rqs s w = Some (Inr (s', w')) \<and> containers s' = containers s
           \<and> limiter s' = limiter s @ map rq_ID rqs \<and> limiter_cap s' = limiter_cap s"
  using assms
proof (induction rqs arbitrary: s w)
  case Nil
  then show ?case by simp
next
  case (Cons rq rqs)
  from Cons.prems(2) obtain es where rq: "request_ok rq es" by auto
  have "length (limiter s) < limiter_cap s" using Cons.prems(3) by simp
  then obtain err w1 where step: "AddContainer client rq s w = Some (Inr (Inl err, s\<lparr>limiter := limiter s @ [rq_ID rq]\<rparr>, w1))"
    by (rule AddContainer_refused [OF Cons.prems(1) rq])
  have "\<exists>s' w'. AddContainers client rqs (s\<lparr>limiter := limiter s @ [rq_ID rq]\<rparr>) w1 = Some (Inr (s', w'))
      \<and> containers s' = containers s \<and> limiter s' = (limiter s @ [rq_ID rq]) @ map rq_ID rqs \<and> limiter_cap s' = limiter_cap s"
    using Cons.IH [of "s\<lparr>limiter := limiter s @ [rq_ID rq]\<rparr>" w1] Cons.prems by simp
  with step show ?case by simp
qed

subsection \<open>Concrete data for the witnesses\<close>

definition demo_manager :: manager where
  "demo_manager = \<lparr>containers = [''0123456789abcdef'' \<mapsto> demo_container], limiter = [''r1''], limiter_cap = 2, stopFlag = 0\<rparr>"

definition demo_world :: "unit world" where
  "demo_world = \<lparr>w_fs = empty_fs, w_docker = (), w_cwd = ''/''\<rparr>"

lemma demo_manager_ok: "manager_ok demo_manager"
  using demo_container_live by (auto simp: manager_ok_def demo_manager_def split: if_splits)

subsection \<open>Properties\<close>



text \<open>
  Asking the manager for a response never panics; an unknown id gives nil, a registered one the
  response of its container, and no other container is touched.
\<close>

theorem manager_GetResponse_total:
  assumes "manager_ok s"
  shows "\<exists>r s'. manager_GetResponse cid s = Inr (r, s') \<and> manager_ok s' \<and> (r = None \<longleftrightarrow> getContainer cid s = None)
           \<and> limiter s' = limiter s \<and> (\<forall>k. k \<noteq> cid \<longrightarrow> containers s' k = containers s k)"
proof (cases "getContainer cid s")
  case None
  with assms show ?thesis by (simp add: manager_GetResponse_def)
next
  case (Some d)
  note live = manager_ok_live [OF assms Some]
  obtain r d' where r: "GetResponse d = Inr (r, d')"
    using test_result_live [OF live] by (simp add: GetResponse_def Let_def)
  have "manager_ok (containers_Store cid d' s)"
    using assms live.response [OF live r] by (rule manager_ok_Store)
  with r Some show ?thesis by (auto simp: manager_GetResponse_def containers_Store_def)
qed

theorem manager_GetResponse_total_witness:
  "\<exists>r s'. manager_GetResponse ''0123456789abcdef'' demo_manager = Inr (Some r, s')"
proof -
  have "getContainer ''0123456789abcdef'' demo_manager \<noteq> None" by (simp add: getContainer_def demo_manager_def)
  then show ?thesis
    using manager_GetResponse_total [OF demo_manager_ok, of "''0123456789abcdef''"] by (metis not_None_eq)
qed

text \<open>
  Every failed start costs a slot for good: after as many requests as there are free slots have
  failed to start, nothing is registered that was not before, and every further
  \<open>AddContainer\<close> blocks.
\<close>

theorem failed_starts_block_manager:
  assumes "create_refused client" and "list_all (\<lambda>rq. \<exists>es. request_ok rq es) rqs"
    and "length (limiter s) + length rqs = limiter_cap s"
  shows "\<exists>s' w'. AddContainers client rqs s w = Some (Inr (s', w')) \<and> containers s' = containers s
           \<and> (\<forall>rq v. AddContainer client rq s' v = None)"
proof -
  obtain s' w' where s': "AddContainers client rqs s w = Some (Inr (s', w'))" "containers s' = containers s"
    "limiter s' = limiter s @ map rq_ID rqs" "limiter_cap s' = limiter_cap s"
    using AddContainers_refused [OF assms] by blast
  have "limiter_send x s' = None" for x
    using s'(3,4) assms(3) lim.acquire_None_iff [of s' x] by simp
  with s' show ?thesis by (simp add: AddContainer_def)
qed

theorem failed_starts_block_manager_witness:
  "\<exists>s' w'. AddContainers refusing_client [demo_request] demo_manager demo_world = Some (Inr (s', w'))
     \<and> AddContainer refusing_client demo_request s' w' = None"
proof -
  have "create_refused refusing_client" by (simp add: create_refused_def refusing_client_def)
  moreover have "list_all (\<lambda>rq. \<exists>es. request_ok rq es) [demo_request]" using demo_request_ok by auto
  moreover have "length (limiter demo_manager) + length [demo_request] = limiter_cap demo_manager"
    by (simp add: demo_manager_def)
  ultimately show ?thesis
    using failed_starts_block_manager [of refusing_client "[demo_request]" demo_manager demo_world] by blast
qed

end
