(* ===== verification/Goroutines.thy ===== *)
theory Goroutines
  imports Cars_Prelude "HOL-Library.Multiset"
begin

text \<open>
  The pattern \<open>WriteFiles\<close> uses in \<open>internal/files/local.go\<close> and \<open>internal/files/s3.go\<close>: one goroutine per
  job, each ending with an error value that is sent to a channel unless it is nil, a wait group
  and a drained channel. A goroutine is a program counter and the system a list of them; a
  schedule says which one moves next. The locale proves for every schedule what holds of a
  goroutine whose facts the others cannot disturb.
\<close>

datatype 'pc goroutine = Runs 'pc | Returned "error option" | Done "error option"

text \<open>
  One step of goroutine \<open>i\<close>: a step of its body, or the send of the error it returned. The channel
  has room for one error per goroutine, so the send does not block.
\<close>

type_synonym ('j, 'pc, 's) group = "('j \<times> 'pc goroutine) list \<times> error list \<times> 's"

definition group_step ::
  "('j \<Rightarrow> 'pc \<Rightarrow> 's \<Rightarrow> ('pc + error option) \<times> 's) \<Rightarrow> nat \<Rightarrow> ('j, 'pc, 's) group \<Rightarrow> ('j, 'pc, 's) group" where
  "group_step body i g =
     (case g of (ts, queue, s) \<Rightarrow>
        if i < length ts then
          (case ts ! i of
             (j, Runs pc) \<Rightarrow>
               (case body j pc s of
                  (Inl pc', s') \<Rightarrow> (ts[i := (j, Runs pc')], queue, s')
                | (Inr r, s') \<Rightarrow> (ts[i := (j, Returned r)], queue, s'))
           | (j, Returned r) \<Rightarrow>
               (ts[i := (j, Done r)], (case r of None \<Rightarrow> queue | Some e \<Rightarrow> queue @ [e]), s)
           | (j, Done r) \<Rightarrow> g)
        else g)"

definition group_run ::
  "('j \<Rightarrow> 'pc \<Rightarrow> 's \<Rightarrow> ('pc + error option) \<times> 's) \<Rightarrow> nat list \<Rightarrow> ('j, 'pc, 's) group \<Rightarrow> ('j, 'pc, 's) group" where
  "group_run body sched g = foldl (\<lambda>g i. group_step body i g) g sched"

definition is_done :: "'pc goroutine \<Rightarrow> bool" where
  "is_done t \<longleftrightarrow> (case t of Done r \<Rightarrow> True | _ \<Rightarrow> False)"

definition done_error :: "'pc goroutine \<Rightarrow> error list" where
  "done_error t = (case t of Done (Some e) \<Rightarrow> [e] | _ \<Rightarrow> [])"

definition finished :: "('j, 'pc, 's) group \<Rightarrow> bool" where
  "finished g \<longleftrightarrow> list_all (\<lambda>(j, t). is_done t) (fst g)"

lemma group_run_simps [simp]:
  "group_run body [] g = g" "group_run body (i # is) g = group_run body is (group_step body i g)"
  by (simp_all add: group_run_def)

text \<open>The drained channel holds exactly the errors of the goroutines that ended with one.\<close>

definition queue_ok :: "('j, 'pc, 's) group \<Rightarrow> bool" where
  "queue_ok g \<longleftrightarrow> mset (fst (snd g)) = mset (concat (map (done_error \<circ> snd) (fst g)))"

lemma queue_ok_start: "queue_ok (map (\<lambda>x. (x, Runs pc)) js, [], s)"
  by (induction js) (auto simp: queue_ok_def done_error_def)

lemma mset_concat_update:
  "i < length xs \<Longrightarrow> mset (concat (map f (xs[i := y]))) + mset (f (xs ! i)) = mset (concat (map f xs)) + mset (f y)"
proof (induction xs arbitrary: i)
  case (Cons x xs)
  then show ?case by (cases i) (auto simp: ac_simps)
qed simp

lemma group_step_queue: "queue_ok g \<Longrightarrow> queue_ok (group_step body i g)"
proof -
  assume ok: "queue_ok g"
  obtain ts q s where g: "g = (ts, q, s)" by (cases g)
  show ?thesis
  proof (cases "i < length ts")
    case True
    obtain j t where ji: "ts ! i = (j, t)" by fastforce
    note upd = mset_concat_update [OF True, of "done_error \<circ> snd"]
    show ?thesis
    proof (cases t)
      case (Runs pc)
      with upd ok g True ji show ?thesis
        by (auto simp: queue_ok_def group_step_def done_error_def split: prod.splits sum.splits)
    next
      case (Returned r)
      then show ?thesis
        using upd [of "(j, Done r)"] ok g True ji
        by (cases r) (auto simp: queue_ok_def group_step_def done_error_def)
    next
      case (Done r)
      with ok g True ji show ?thesis by (simp add: group_step_def)
    qed
  qed (use ok g in \<open>simp add: group_step_def\<close>)
qed

lemma group_run_queue: "queue_ok g \<Longrightarrow> queue_ok (group_run body sched g)"
  by (induction sched arbitrary: g) (simp_all add: group_step_queue)

lemma group_step_jobs: "map fst (fst (group_step body i g)) = map fst (fst g)"
proof -
  obtain ts q s where g: "g = (ts, q, s)" by (cases g)
  have "map fst (ts[i := (j, x)]) = map fst ts" if "ts ! i = (j, y)" for x y j
    using that by (metis fst_conv list_update_beyond list_update_id map_update not_le nth_map)
  with g show ?thesis
    by (auto simp: group_step_def split: prod.splits goroutine.splits sum.splits)
qed

lemma group_run_jobs: "map fst (fst (group_run body sched g)) = map fst (fst g)"
  by (induction sched arbitrary: g) (simp_all add: group_step_jobs)

subsection \<open>Facts the others cannot disturb\<close>

locale goroutine_group =
  fixes body :: "'j \<Rightarrow> 'pc \<Rightarrow> 's \<Rightarrow> ('pc + error option) \<times> 's"
    and at_pc :: "'j \<Rightarrow> 'pc \<Rightarrow> 's \<Rightarrow> bool" and at_end :: "'j \<Rightarrow> error option \<Rightarrow> 's \<Rightarrow> bool"
    and independent :: "'j \<Rightarrow> 'j \<Rightarrow> bool"
  assumes own_step: "at_pc j pc s \<Longrightarrow> body j pc s = (Inl pc', s') \<Longrightarrow> at_pc j pc' s'"
    and own_end: "at_pc j pc s \<Longrightarrow> body j pc s = (Inr r, s') \<Longrightarrow> at_end j r s'"
    and other_pc: "independent j k \<Longrightarrow> at_pc j p s \<Longrightarrow> at_pc k pc s \<Longrightarrow> body k pc s = (t, s') \<Longrightarrow> at_pc j p s'"
    and other_end: "independent j k \<Longrightarrow> at_end j r s \<Longrightarrow> at_pc k pc s \<Longrightarrow> body k pc s = (t, s') \<Longrightarrow> at_end j r s'"
begin

definition holds :: "'j \<times> 'pc goroutine \<Rightarrow> 's \<Rightarrow> bool" where
  "holds x s \<longleftrightarrow> (case snd x of Runs pc \<Rightarrow> at_pc (fst x) pc s | Returned r \<Rightarrow> at_end (fst x) r s | Done r \<Rightarrow> at_end (fst x) r s)"

definition group_ok :: "('j, 'pc, 's) group \<Rightarrow> bool" where
  "group_ok g \<longleftrightarrow>
     (\<forall>x\<in>set (fst g). holds x (snd (snd g)))
     \<and> (\<forall>a b. a < length (fst g) \<longrightarrow> b < length (fst g) \<longrightarrow> a \<noteq> b \<longrightarrow> independent (fst (fst g ! a)) (fst (fst g ! b)))"

lemma holds_other:
  assumes "independent (fst x) k" "holds x s" "at_pc k pc s" "body k pc s = (t, s')"
  shows "holds x s'"
  using assms other_pc other_end by (cases x) (auto simp: holds_def split: goroutine.splits)

lemma group_ok_update:
  assumes ok: "group_ok (ts, q, s)" and i: "i < length ts" and new: "holds (fst (ts ! i), t) s'"
    and others: "\<And>a. a < length ts \<Longrightarrow> a \<noteq> i \<Longrightarrow> holds (ts ! a) s'"
  shows "group_ok (ts[i := (fst (ts ! i), t)], q', s')"
proof -
  have "holds (ts[i := (fst (ts ! i), t)] ! a) s'" if "a < length ts" for a
    using that new others i by (cases "a = i") auto
  moreover have "fst (ts[i := (fst (ts ! i), t)] ! a) = fst (ts ! a)" if "a < length ts" for a
    using that i by (cases "a = i") auto
  ultimately show ?thesis using ok unfolding group_ok_def
    by (metis (no_types, lifting) fst_conv snd_conv in_set_conv_nth length_list_update)
qed

lemma group_ok_step: "group_ok g \<Longrightarrow> group_ok (group_step body i g)"
proof -
  assume ok: "group_ok g"
  obtain ts q s where g: "g = (ts, q, s)" by (cases g)
  show ?thesis
  proof (cases "i < length ts")
    case True
    obtain j t where ji: "ts ! i = (j, t)" by fastforce
    have all: "holds (ts ! a) s" if "a < length ts" for a using ok g that by (auto simp: group_ok_def)
    have indep: "independent (fst (ts ! a)) j" if "a < length ts" "a \<noteq> i" for a
      using ok g that True ji by (auto simp: group_ok_def) (metis fst_conv)
    have upd: "group_ok (ts[i := (j, u)], q', s')"
      if "holds (j, u) s'" "\<And>a. a < length ts \<Longrightarrow> a \<noteq> i \<Longrightarrow> holds (ts ! a) s'" for u q' s'
      using group_ok_update [of ts q s i u s' q'] ok g True ji that by simp
    show ?thesis
    proof (cases t)
      case (Runs pc)
      have pc: "at_pc j pc s" using all [OF True] ji Runs by (simp add: holds_def)
      obtain u s' where b: "body j pc s = (u, s')" by fastforce
      have oth: "holds (ts ! a) s'" if "a < length ts" "a \<noteq> i" for a
        by (rule holds_other [OF indep [OF that] all [OF that(1)] pc b])
      show ?thesis
      proof (cases u)
        case (Inl pc')
        then have "holds (j, Runs pc') s'" using own_step pc b by (simp add: holds_def)
        from upd [OF this oth] g True ji Runs b Inl show ?thesis by (simp add: group_step_def)
      next
        case (Inr r)
        then have "holds (j, Returned r) s'" using own_end pc b by (simp add: holds_def)
        from upd [OF this oth] g True ji Runs b Inr show ?thesis by (simp add: group_step_def)
      qed
    next
      case (Returned r)
      then have "holds (j, Done r) s" using all [OF True] ji by (simp add: holds_def)
      from upd [OF this all] g True ji Returned show ?thesis by (simp add: group_step_def)
    next
      case (Done r)
      with ok g True ji show ?thesis by (simp add: group_step_def)
    qed
  qed (use ok g in \<open>simp add: group_step_def\<close>)
qed

lemma group_ok_run: "group_ok g \<Longrightarrow> group_ok (group_run body sched g)"
  by (induction sched arbitrary: g) (simp_all add: group_ok_step)

text \<open>When all have finished, every job without an error has reached its end.\<close>

lemma finished_jobs:
  assumes "group_ok g" and "queue_ok g" and "finished (group_run body sched g)"
    and run: "group_run body sched g = (ts, errs, s)"
  shows "\<forall>x\<in>set ts. \<exists>r. snd x = Done r \<and> at_end (fst x) r s" and "mset errs = mset (concat (map (done_error \<circ> snd) ts))"
proof -
  have "group_ok (ts, errs, s)" "queue_ok (ts, errs, s)" "finished (ts, errs, s)"
    using group_ok_run [OF assms(1)] group_run_queue [OF assms(2)] assms(3) run by metis+
  then show "\<forall>x\<in>set ts. \<exists>r. snd x = Done r \<and> at_end (fst x) r s" and "mset errs = mset (concat (map (done_error \<circ> snd) ts))"
    by (fastforce simp: group_ok_def holds_def finished_def is_done_def queue_ok_def list_all_iff split: goroutine.splits)+
qed

end

subsection \<open>Termination\<close>

text \<open>
  A body whose every step lowers a rank ends, whatever the others do: a goroutine that is scheduled
  often enough is done, and a schedule that is fair to all finishes the group.
\<close>

locale ranked_body =
  fixes body :: "'j \<Rightarrow> 'pc \<Rightarrow> 's \<Rightarrow> ('pc + error option) \<times> 's" and rank :: "'pc \<Rightarrow> nat"
  assumes rank_step: "body j pc s = (Inl pc', s') \<Longrightarrow> rank pc' < rank pc"
begin

fun steps_left :: "'pc goroutine \<Rightarrow> nat" where
  "steps_left (Runs pc) = rank pc + 2"
| "steps_left (Returned r) = 1"
| "steps_left (Done r) = 0"

lemma step_left:
  assumes "i < length (fst g)"
  shows "steps_left (snd (fst (group_step body k g) ! i)) \<le> steps_left (snd (fst g ! i)) - (if k = i then 1 else 0)"
  using assms by (cases "k = i")
    (auto simp: group_step_def nth_list_update split: prod.splits goroutine.splits sum.splits if_splits dest!: rank_step)

lemma run_left:
  "i < length (fst g) \<Longrightarrow> steps_left (snd (fst (group_run body sched g) ! i)) \<le> steps_left (snd (fst g ! i)) - count_list sched i"
proof (induction sched arbitrary: g)
  case (Cons k ks)
  have "length (fst (group_step body k g)) = length (fst g)" using group_step_jobs [of body k g] by (metis length_map)
  then have "steps_left (snd (fst (group_run body ks (group_step body k g)) ! i))
      \<le> steps_left (snd (fst (group_step body k g) ! i)) - count_list ks i"
    using Cons by simp
  with step_left [OF Cons.prems, of k] show ?case by (auto split: if_splits)
qed simp

lemma steps_left_done: "steps_left t = 0 \<longleftrightarrow> is_done t"
  by (cases t) (simp_all add: is_done_def)

lemma fair_finishes:
  assumes "\<And>i. i < length (fst g) \<Longrightarrow> steps_left (snd (fst g ! i)) \<le> count_list sched i"
  shows "finished (group_run body sched g)"
proof -
  have "length (fst (group_run body sched g)) = length (fst g)" using group_run_jobs [of body sched g] by (metis length_map)
  moreover have "is_done (snd (fst (group_run body sched g) ! i))" if "i < length (fst g)" for i
    using run_left [OF that, of sched] assms [OF that] by (simp add: steps_left_done [symmetric])
  ultimately show ?thesis by (simp add: finished_def list_all_length case_prod_unfold)
qed

end

end
