(* ===== verification/Files_Store.thy ===== *)
theory Files_Store
  imports Go_Filesystem Goroutines
begin

text \<open>
  \<open>internal/files\<close>: the store of source and output files, on the local disk (\<open>local.go\<close>) or in an S3
  bucket (\<open>s3.go\<close>), and the choice between them (\<open>files.go\<close>). The AWS client is third-party code: it is
  the parameter \<open>s3_client\<close>, and \<open>s3_laws\<close> states what S3 documents of it. \<open>GetFile\<close> returns the bytes and
  the error, as in Go. The locale \<open>file_store\<close> is the interface \<open>Files\<close> with its laws; both stores are
  shown to keep them, and \<open>WriteFiles\<close> is treated for every interleaving of its goroutines.
\<close>

record File =
  f_ID :: string
  f_Name :: string
  f_Data :: bytes

record LocalConfig =
  LocalRootPath :: string

record S3Config =
  BucketName :: string

record Config =
  Local :: "LocalConfig option"
  S3 :: "S3Config option"
  ForceLocalMode :: bool

subsection \<open>Local files\<close>

definition local_directory :: "LocalConfig \<Rightarrow> string \<Rightarrow> string" where
  "local_directory cfg fid = filepath_Join [LocalRootPath cfg, fid]"

definition local_path :: "LocalConfig \<Rightarrow> string \<Rightarrow> string \<Rightarrow> string" where
  "local_path cfg fid name = filepath_Join [local_directory cfg fid, name]"

definition LocalFiles_WriteFile :: "LocalConfig \<Rightarrow> File \<Rightarrow> fs \<Rightarrow> error option \<times> fs" where
  "LocalFiles_WriteFile cfg file f =
     (let folderDirectory = local_directory cfg (f_ID file);
          filePath = local_path cfg (f_ID file) (f_Name file)
      in or_wrap (os_MkdirAll folderDirectory f) ''failed to make required directories'' (\<lambda>f.
         or_wrap (os_Create filePath f) (''failed to create '' @ f_Name file @ '' file'') (\<lambda>f.
         or_wrap (file_Write filePath (f_Data file) f) (''failed to write '' @ f_Name file) (\<lambda>f. (None, f)))))"

definition LocalFiles_GetFile :: "LocalConfig \<Rightarrow> string \<Rightarrow> string \<Rightarrow> fs \<Rightarrow> bytes \<times> error option" where
  "LocalFiles_GetFile cfg fid name f =
     (let filePath = local_path cfg fid name
      in case os_Stat filePath f of
           Some (ErrNotExist p) \<Rightarrow> ([], Some (Wrap (ErrNotExist p) (''cannot locate file '' @ name)))
         | _ \<Rightarrow>
             (case os_ReadFile filePath f of
                Inl err \<Rightarrow> ([], Some (Wrap err (''failed to get the local file '' @ name @ '' by id '' @ fid)))
              | Inr data \<Rightarrow> (data, None)))"

text \<open>The same write, one system call at a time, for the goroutines of \<open>WriteFiles\<close>.\<close>

datatype local_pc = AtMkdir | AtCreate | AtWrite

definition or_stop :: "error option \<times> 's \<Rightarrow> string \<Rightarrow> ('pc + error option) \<Rightarrow> ('pc + error option) \<times> 's" where
  "or_stop m msg next_pc = (case m of (Some e, s) \<Rightarrow> (Inr (Some (Wrap e msg)), s) | (None, s) \<Rightarrow> (next_pc, s))"

fun LocalFiles_body :: "LocalConfig \<Rightarrow> File \<Rightarrow> local_pc \<Rightarrow> fs \<Rightarrow> (local_pc + error option) \<times> fs" where
  "LocalFiles_body cfg file AtMkdir f =
     or_stop (os_MkdirAll (local_directory cfg (f_ID file)) f) ''failed to make required directories'' (Inl AtCreate)"
| "LocalFiles_body cfg file AtCreate f =
     or_stop (os_Create (local_path cfg (f_ID file) (f_Name file)) f) (''failed to create '' @ f_Name file @ '' file'') (Inl AtWrite)"
| "LocalFiles_body cfg file AtWrite f =
     or_stop (file_Write (local_path cfg (f_ID file) (f_Name file)) (f_Data file) f) (''failed to write '' @ f_Name file) (Inr None)"

definition LocalFiles_WriteFiles :: "LocalConfig \<Rightarrow> nat list \<Rightarrow> File list \<Rightarrow> fs \<Rightarrow> (File, local_pc, fs) group" where
  "LocalFiles_WriteFiles cfg sched fls f =
     group_run (LocalFiles_body cfg) sched (map (\<lambda>x. (x, Runs AtMkdir)) fls, [], f)"

subsection \<open>Files in S3\<close>

record 'c s3_client =
  PutObject :: "string \<Rightarrow> string \<Rightarrow> bytes \<Rightarrow> 'c \<Rightarrow> error option \<times> 'c"
  GetObject :: "string \<Rightarrow> string \<Rightarrow> 'c \<Rightarrow> error + (bytes \<times> error option)"

definition ErrCodeNoSuchKey :: error where
  "ErrCodeNoSuchKey = ClientError ''NoSuchKey''"

definition s3_key :: "string \<Rightarrow> string \<Rightarrow> string" where
  "s3_key fid name = filepath_Join [fid, name]"

definition S3Files_WriteFile :: "'c s3_client \<Rightarrow> S3Config \<Rightarrow> File \<Rightarrow> 'c \<Rightarrow> error option \<times> 'c" where
  "S3Files_WriteFile client cfg file c =
     or_wrap (PutObject client (BucketName cfg) (s3_key (f_ID file) (f_Name file)) (f_Data file) c)
       (''failed to create '' @ f_Name file @ '' file'') (\<lambda>c. (None, c))"

definition S3Files_GetFile :: "'c s3_client \<Rightarrow> S3Config \<Rightarrow> string \<Rightarrow> string \<Rightarrow> 'c \<Rightarrow> bytes \<times> error option" where
  "S3Files_GetFile client cfg fid name c =
     (case GetObject client (BucketName cfg) (s3_key fid name) c of
        Inl err \<Rightarrow>
          ([], Some (if err = ErrCodeNoSuchKey then Wrap err (''cannot locate file '' @ name)
                     else Wrap err (''failed to get the local file '' @ name @ '' by id '' @ fid)))
      | Inr (body, err) \<Rightarrow> (body, err))"

definition S3Files_body :: "'c s3_client \<Rightarrow> S3Config \<Rightarrow> File \<Rightarrow> unit \<Rightarrow> 'c \<Rightarrow> (unit + error option) \<times> 'c" where
  "S3Files_body client cfg file pc c = (case S3Files_WriteFile client cfg file c of (r, c') \<Rightarrow> (Inr r, c'))"

definition S3Files_WriteFiles :: "'c s3_client \<Rightarrow> S3Config \<Rightarrow> nat list \<Rightarrow> File list \<Rightarrow> 'c \<Rightarrow> (File, unit, 'c) group" where
  "S3Files_WriteFiles client cfg sched fls c =
     group_run (S3Files_body client cfg) sched (map (\<lambda>x. (x, Runs ())) fls, [], c)"

subsection \<open>Choosing the store\<close>

text \<open>The AWS session is third-party code: \<open>session\<close> is the error of opening it.\<close>

datatype files_handler = LocalFiles "LocalConfig option" | S3Files S3Config bool

definition newLocalFiles :: "LocalConfig option \<Rightarrow> files_handler" where
  [simp]: "newLocalFiles config = LocalFiles config"

definition newS3Files :: "error option \<Rightarrow> S3Config \<Rightarrow> files_handler \<times> error option" where
  "newS3Files session cfg = (case session of Some err \<Rightarrow> (S3Files cfg False, Some err) | None \<Rightarrow> (S3Files cfg True, None))"

definition NewFilesHandler :: "error option \<Rightarrow> Config \<Rightarrow> files_handler \<times> error option" where
  "NewFilesHandler session config =
     (case S3 config of
        None \<Rightarrow> (newLocalFiles (Local config), None)
      | Some cfg \<Rightarrow>
          if ForceLocalMode config \<or> BucketName cfg = [] then (newLocalFiles (Local config), None)
          else newS3Files session cfg)"

subsection \<open>The interface\<close>

locale file_store =
  fixes wr :: "File \<Rightarrow> 's \<Rightarrow> error option \<times> 's" and rd :: "string \<Rightarrow> string \<Rightarrow> 's \<Rightarrow> bytes \<times> error option"
    and valid :: "string \<Rightarrow> string \<Rightarrow> bool" and ready :: "'s \<Rightarrow> bool"
  assumes write_read: "ready s \<Longrightarrow> valid (f_ID x) (f_Name x) \<Longrightarrow> wr x s = (None, s') \<Longrightarrow> rd (f_ID x) (f_Name x) s' = (f_Data x, None)"
    and write_other: "ready s \<Longrightarrow> valid (f_ID x) (f_Name x) \<Longrightarrow> valid i n \<Longrightarrow> (i, n) \<noteq> (f_ID x, f_Name x)
           \<Longrightarrow> wr x s = (r, s') \<Longrightarrow> rd i n s' = rd i n s"
    and write_ready: "ready s \<Longrightarrow> wr x s = (r, s') \<Longrightarrow> ready s'"
begin

fun writes :: "File list \<Rightarrow> 's \<Rightarrow> error option list \<times> 's" where
  "writes [] s = ([], s)"
| "writes (x # xs) s = (let (r, s1) = wr x s; (rs, s2) = writes xs s1 in (r # rs, s2))"

lemma writes_other:
  assumes "ready s" and "\<forall>x\<in>set xs. valid (f_ID x) (f_Name x) \<and> (i, n) \<noteq> (f_ID x, f_Name x)" and "valid i n"
    and "writes xs s = (rs, s')"
  shows "rd i n s' = rd i n s \<and> ready s'"
  using assms
proof (induction xs arbitrary: s rs)
  case Nil
  then show ?case by simp
next
  case (Cons x xs)
  obtain r s1 where x: "wr x s = (r, s1)" by fastforce
  then obtain rs' where "writes xs s1 = (rs', s')" using Cons.prems(4) by (auto simp: Let_def split: prod.splits)
  moreover note write_ready [OF Cons.prems(1) x]
  ultimately have "rd i n s' = rd i n s1 \<and> ready s'" using Cons.IH Cons.prems by auto
  moreover have "rd i n s1 = rd i n s"
    using Cons.prems by (intro write_other [OF _ _ _ _ x]) auto
  ultimately show ?case by simp
qed

text \<open>A file written without error is read back whatever is written afterwards under other names.\<close>

lemma write_then_others:
  assumes "ready s" "valid (f_ID x) (f_Name x)" "wr x s = (None, s1)" "writes xs s1 = (rs, s')"
    "\<forall>y\<in>set xs. valid (f_ID y) (f_Name y) \<and> (f_ID x, f_Name x) \<noteq> (f_ID y, f_Name y)"
  shows "rd (f_ID x) (f_Name x) s' = (f_Data x, None)"
  using writes_other [of s1 xs "f_ID x" "f_Name x" rs s'] write_read write_ready assms by metis

end

subsection \<open>The local store keeps the interface\<close>

definition root_ok :: "LocalConfig \<Rightarrow> bool" where
  "root_ok cfg \<longleftrightarrow> LocalRootPath cfg = abs_path (path_elems (LocalRootPath cfg)) \<and> list_all plain (path_elems (LocalRootPath cfg))"

definition local_valid :: "LocalConfig \<Rightarrow> string \<Rightarrow> string \<Rightarrow> bool" where
  "local_valid cfg fid name \<longleftrightarrow> root_ok cfg \<and> plain fid \<and> plain name"

definition readable :: "fs \<Rightarrow> bool" where
  "readable f \<longleftrightarrow> (\<forall>k. \<not> fault f OpRead k \<and> \<not> fault f OpStat k)"

abbreviation local_key :: "LocalConfig \<Rightarrow> string \<Rightarrow> string \<Rightarrow> string list" where
  "local_key cfg fid name \<equiv> path_elems (local_path cfg fid name)"

lemma local_key_valid:
  assumes "local_valid cfg fid name"
  shows "local_key cfg fid name = path_elems (LocalRootPath cfg) @ [fid, name]"
    and "path_elems (local_directory cfg fid) = path_elems (LocalRootPath cfg) @ [fid]"
proof -
  let ?rs = "path_elems (LocalRootPath cfg)"
  have rs: "list_all plain ?rs" "LocalRootPath cfg = abs_path ?rs" "plain fid" "plain name"
    using assms by (auto simp: local_valid_def root_ok_def)
  then have "local_path cfg fid name = abs_path (?rs @ [fid, name])" "local_directory cfg fid = abs_path (?rs @ [fid])"
    using join_join_abs_path [of ?rs fid name] join_abs_path [of ?rs fid]
    by (simp_all add: local_path_def local_directory_def del: filepath_Join.simps)
  then show "local_key cfg fid name = ?rs @ [fid, name]" "path_elems (local_directory cfg fid) = ?rs @ [fid]"
    using rs by (simp_all add: path_elems_abs_path)
qed

lemma LocalFiles_GetFile_readable:
  assumes "readable f"
  shows "LocalFiles_GetFile cfg fid name f =
     (let k = local_key cfg fid name in
      case files f k of
        Some data \<Rightarrow> (data, None)
      | None \<Rightarrow>
          if k \<in> dirs f
          then ([], Some (Wrap (OsError ''is a directory'') (''failed to get the local file '' @ name @ '' by id '' @ fid)))
          else ([], Some (Wrap (ErrNotExist (local_path cfg fid name)) (''cannot locate file '' @ name))))"
  using assms
  by (auto simp: LocalFiles_GetFile_def os_Stat_def os_ReadFile_def readable_def Let_def split: option.splits)

lemma LocalFiles_WriteFile_frame:
  assumes "LocalFiles_WriteFile cfg x f = (r, f')"
  shows "fault f' = fault f" and "dirs f \<subseteq> dirs f'" and "dirs f' \<subseteq> dirs f \<union> set (prefixes (path_elems (local_directory cfg (f_ID x))))"
    and "k \<noteq> local_key cfg (f_ID x) (f_Name x) \<Longrightarrow> files f' k = files f k"
    and "r = None \<Longrightarrow> files f' (local_key cfg (f_ID x) (f_Name x)) = Some (f_Data x)"
proof -
  obtain r1 f1 where m: "os_MkdirAll (local_directory cfg (f_ID x)) f = (r1, f1)" by fastforce
  obtain r2 f2 where c: "os_Create (local_path cfg (f_ID x) (f_Name x)) f1 = (r2, f2)" by fastforce
  obtain r3 f3 where w: "file_Write (local_path cfg (f_ID x) (f_Name x)) (f_Data x) f2 = (r3, f3)" by fastforce
  have f1: "files f1 = files f" "fault f1 = fault f" "dirs f \<subseteq> dirs f1"
    "dirs f1 \<subseteq> dirs f \<union> set (prefixes (path_elems (local_directory cfg (f_ID x))))"
    using os_MkdirAll_frame [OF m] by auto
  let ?k = "local_key cfg (f_ID x) (f_Name x)"
  have f2: "fault f2 = fault f1" "dirs f2 = dirs f1" "\<forall>k. k \<noteq> ?k \<longrightarrow> files f2 k = files f1 k" "r2 = None \<longrightarrow> files f2 ?k = Some []"
    using c by (auto elim!: os_Create_cases)
  have f3: "fault f3 = fault f2" "dirs f3 = dirs f2" "\<forall>k. k \<noteq> ?k \<longrightarrow> files f3 k = files f2 k"
    "r3 = None \<Longrightarrow> files f2 ?k = Some old \<Longrightarrow> files f3 ?k = Some (old @ f_Data x)" for old
    using w by (auto elim!: file_Write_cases)
  have r: "(r, f') = (case r1 of Some e \<Rightarrow> (Some (Wrap e ''failed to make required directories''), f1)
      | None \<Rightarrow> (case r2 of Some e \<Rightarrow> (Some (Wrap e (''failed to create '' @ f_Name x @ '' file'')), f2)
        | None \<Rightarrow> (case r3 of Some e \<Rightarrow> (Some (Wrap e (''failed to write '' @ f_Name x)), f3) | None \<Rightarrow> (None, f3))))"
    using assms m c w by (cases r1; cases r2; cases r3) (simp_all add: LocalFiles_WriteFile_def or_wrap_def Let_def)
  show "fault f' = fault f" "dirs f \<subseteq> dirs f'" "dirs f' \<subseteq> dirs f \<union> set (prefixes (path_elems (local_directory cfg (f_ID x))))"
    "k \<noteq> ?k \<Longrightarrow> files f' k = files f k" "r = None \<Longrightarrow> files f' ?k = Some (f_Data x)"
    using r f1 f2 f3 by (auto split: option.splits)
qed

interpretation local_store: file_store "LocalFiles_WriteFile cfg" "LocalFiles_GetFile cfg" "local_valid cfg" readable for cfg
proof
  fix s s' x r i n
  assume rdy: "readable s"
  {
    assume "LocalFiles_WriteFile cfg x s = (r, s')"
    from LocalFiles_WriteFile_frame(1) [OF this] show "readable s'" using rdy by (simp add: readable_def)
  } note ready' = this
  {
    assume w: "LocalFiles_WriteFile cfg x s = (None, s')"
    note fr = LocalFiles_WriteFile_frame [OF w]
    have "readable s'" using fr(1) rdy by (simp add: readable_def)
    then show "LocalFiles_GetFile cfg (f_ID x) (f_Name x) s' = (f_Data x, None)"
      using fr(5) by (simp add: LocalFiles_GetFile_readable)
  }
  {
    assume v: "local_valid cfg (f_ID x) (f_Name x)" "local_valid cfg i n" and ne: "(i, n) \<noteq> (f_ID x, f_Name x)"
      and w: "LocalFiles_WriteFile cfg x s = (r, s')"
    note fr = LocalFiles_WriteFile_frame [OF w] and kx = local_key_valid [OF v(1)] and k = local_key_valid [OF v(2)]
    have "local_key cfg i n \<noteq> local_key cfg (f_ID x) (f_Name x)" using kx k ne by auto
    then have "files s' (local_key cfg i n) = files s (local_key cfg i n)" by (rule fr(4))
    moreover have "local_key cfg i n \<in> dirs s' \<longleftrightarrow> local_key cfg i n \<in> dirs s"
      using fr(2,3) kx k by (auto dest: prefix_length_le)
    ultimately show "LocalFiles_GetFile cfg i n s' = LocalFiles_GetFile cfg i n s"
      using rdy ready' [OF w] by (simp add: LocalFiles_GetFile_readable Let_def)
  }
qed

subsection \<open>The goroutines of the local store\<close>

definition local_at_pc :: "LocalConfig \<Rightarrow> File \<Rightarrow> local_pc \<Rightarrow> fs \<Rightarrow> bool" where
  "local_at_pc cfg x pc f \<longleftrightarrow> (pc = AtWrite \<longrightarrow> files f (local_key cfg (f_ID x) (f_Name x)) = Some [])"

definition local_at_end :: "LocalConfig \<Rightarrow> File \<Rightarrow> error option \<Rightarrow> fs \<Rightarrow> bool" where
  "local_at_end cfg x r f \<longleftrightarrow> (r = None \<longrightarrow> files f (local_key cfg (f_ID x) (f_Name x)) = Some (f_Data x))"

definition local_independent :: "LocalConfig \<Rightarrow> File \<Rightarrow> File \<Rightarrow> bool" where
  "local_independent cfg x y \<longleftrightarrow> local_key cfg (f_ID x) (f_Name x) \<noteq> local_key cfg (f_ID y) (f_Name y)"

lemma or_stop_cases:
  assumes "or_stop m msg np = (t, s')"
  obtains r where "m = (r, s')" "r = None \<Longrightarrow> t = np" "r \<noteq> None \<Longrightarrow> \<exists>e. t = Inr (Some e)"
  using assms by (cases m; cases "fst m") (auto simp: or_stop_def)

lemma LocalFiles_body_other:
  assumes "LocalFiles_body cfg y pc f = (t, f')" and "k \<noteq> local_key cfg (f_ID y) (f_Name y)"
  shows "files f' k = files f k"
  using assms
  by (cases pc) (auto elim!: or_stop_cases os_Create_cases file_Write_cases dest!: os_MkdirAll_frame)

lemma LocalFiles_body_own:
  assumes "local_at_pc cfg x pc f" and "LocalFiles_body cfg x pc f = (t, f')"
  shows "case t of Inl pc' \<Rightarrow> local_at_pc cfg x pc' f' | Inr r \<Rightarrow> local_at_end cfg x r f'"
proof (cases pc)
  case AtMkdir
  with assms(2) show ?thesis
    by (auto elim!: or_stop_cases split: sum.split simp: local_at_pc_def local_at_end_def)
next
  case AtCreate
  with assms(2) show ?thesis
    by (auto elim!: or_stop_cases os_Create_cases split: sum.split simp: local_at_pc_def local_at_end_def)
next
  case AtWrite
  with assms show ?thesis
    by (auto elim!: or_stop_cases file_Write_cases split: sum.split simp: local_at_pc_def local_at_end_def)
qed

interpretation local_group: goroutine_group "LocalFiles_body cfg" "local_at_pc cfg" "local_at_end cfg" "local_independent cfg" for cfg
proof
  fix j k pc p s s' t pc' r
  show "local_at_pc cfg j pc s \<Longrightarrow> LocalFiles_body cfg j pc s = (Inl pc', s') \<Longrightarrow> local_at_pc cfg j pc' s'"
    using LocalFiles_body_own [of cfg j pc s "Inl pc'" s'] by simp
  show "local_at_pc cfg j pc s \<Longrightarrow> LocalFiles_body cfg j pc s = (Inr r, s') \<Longrightarrow> local_at_end cfg j r s'"
    using LocalFiles_body_own [of cfg j pc s "Inr r" s'] by simp
  assume "local_independent cfg j k" "LocalFiles_body cfg k pc s = (t, s')"
  then have same: "files s' (local_key cfg (f_ID j) (f_Name j)) = files s (local_key cfg (f_ID j) (f_Name j))"
    by (intro LocalFiles_body_other) (simp_all add: local_independent_def)
  show "local_at_pc cfg j p s \<Longrightarrow> local_at_pc cfg j p s'" using same by (simp add: local_at_pc_def)
  show "local_at_end cfg j r s \<Longrightarrow> local_at_end cfg j r s'" using same by (simp add: local_at_end_def)
qed

subsection \<open>The S3 store keeps the interface\<close>

text \<open>
  What S3 documents, with \<open>objs\<close> the objects of a state: a successful put stores the object, a failed
  one touches no other key, and a get sees the latest put.
\<close>

definition s3_laws :: "'c s3_client \<Rightarrow> ('c \<Rightarrow> string \<times> string \<rightharpoonup> bytes) \<Rightarrow> bool" where
  "s3_laws client objs \<longleftrightarrow>
     (\<forall>b k data c. case PutObject client b k data c of
        (None, c') \<Rightarrow> objs c' = (objs c)((b, k) \<mapsto> data)
      | (Some e, c') \<Rightarrow> (\<forall>q. q \<noteq> (b, k) \<longrightarrow> objs c' q = objs c q))
     \<and> (\<forall>b k c. GetObject client b k c =
          (case objs c (b, k) of None \<Rightarrow> Inl ErrCodeNoSuchKey | Some data \<Rightarrow> Inr (data, None)))"

definition s3_valid :: "string \<Rightarrow> string \<Rightarrow> bool" where
  "s3_valid fid name \<longleftrightarrow> plain fid \<and> plain name"

definition s3_ready :: "'c s3_client \<Rightarrow> ('c \<Rightarrow> string \<times> string \<rightharpoonup> bytes) \<Rightarrow> 'c \<Rightarrow> bool" where
  "s3_ready client objs c \<longleftrightarrow> s3_laws client objs"

lemma S3Files_WriteFile_effect:
  assumes "s3_laws client objs" and "S3Files_WriteFile client cfg x c = (r, c')"
  shows "r = None \<Longrightarrow> objs c' (BucketName cfg, s3_key (f_ID x) (f_Name x)) = Some (f_Data x)"
    and "q \<noteq> (BucketName cfg, s3_key (f_ID x) (f_Name x)) \<Longrightarrow> objs c' q = objs c q"
proof -
  obtain r1 c1 where put: "PutObject client (BucketName cfg) (s3_key (f_ID x) (f_Name x)) (f_Data x) c = (r1, c1)" by fastforce
  let ?q = "(BucketName cfg, s3_key (f_ID x) (f_Name x))"
  have put_law: "case (r1, c1) of (None, c') \<Rightarrow> objs c' = (objs c)(?q \<mapsto> f_Data x)
      | (Some e, c') \<Rightarrow> (\<forall>q. q \<noteq> ?q \<longrightarrow> objs c' q = objs c q)"
    using assms(1) put [symmetric] by (simp only: s3_laws_def)
  have r: "r = map_option (\<lambda>e. Wrap e (''failed to create '' @ f_Name x @ '' file'')) r1" "c' = c1"
    using assms(2) put by (cases r1; simp add: S3Files_WriteFile_def or_wrap_def)+
  have eff: "(r1 = None \<longrightarrow> objs c1 ?q = Some (f_Data x)) \<and> (\<forall>q. q \<noteq> ?q \<longrightarrow> objs c1 q = objs c q)"
  proof (cases r1)
    case None
    with put_law have "objs c1 = (objs c)(?q \<mapsto> f_Data x)" by simp
    then show ?thesis by (simp only:) simp
  next
    case (Some e)
    with put_law show ?thesis by simp
  qed
  show "r = None \<Longrightarrow> objs c' ?q = Some (f_Data x)" using eff r by simp
  show "q \<noteq> ?q \<Longrightarrow> objs c' q = objs c q" using eff r(2) by blast
qed

lemma S3Files_GetFile_laws:
  assumes "s3_laws client objs"
  shows "S3Files_GetFile client cfg fid name c =
    (case objs c (BucketName cfg, s3_key fid name) of
       None \<Rightarrow> ([], Some (Wrap ErrCodeNoSuchKey (''cannot locate file '' @ name)))
     | Some data \<Rightarrow> (data, None))"
  using assms by (auto simp: S3Files_GetFile_def s3_laws_def split: option.splits)

interpretation s3_store: file_store "S3Files_WriteFile client cfg" "S3Files_GetFile client cfg" s3_valid "s3_ready client objs"
  for client cfg objs
proof
  fix s s' x r i n
  assume "s3_ready client objs s"
  then have laws: "s3_laws client objs" by (simp add: s3_ready_def)
  show "s3_ready client objs s'" using laws by (simp add: s3_ready_def)
  show "S3Files_WriteFile client cfg x s = (None, s') \<Longrightarrow> S3Files_GetFile client cfg (f_ID x) (f_Name x) s' = (f_Data x, None)"
    using S3Files_WriteFile_effect(1) [OF laws] by (simp add: S3Files_GetFile_laws [OF laws])
  assume v: "s3_valid (f_ID x) (f_Name x)" "s3_valid i n" and ne: "(i, n) \<noteq> (f_ID x, f_Name x)"
    and w: "S3Files_WriteFile client cfg x s = (r, s')"
  have "s3_key i n \<noteq> s3_key (f_ID x) (f_Name x)"
    using v ne join_relative_inject [of i n "f_ID x" "f_Name x"] by (auto simp: s3_valid_def s3_key_def simp del: filepath_Join.simps)
  then have "objs s' (BucketName cfg, s3_key i n) = objs s (BucketName cfg, s3_key i n)"
    by (intro S3Files_WriteFile_effect(2) [OF laws w]) simp
  then show "S3Files_GetFile client cfg i n s' = S3Files_GetFile client cfg i n s"
    by (simp add: S3Files_GetFile_laws [OF laws])
qed

definition s3_at_pc :: "'c s3_client \<Rightarrow> ('c \<Rightarrow> string \<times> string \<rightharpoonup> bytes) \<Rightarrow> File \<Rightarrow> unit \<Rightarrow> 'c \<Rightarrow> bool" where
  "s3_at_pc client objs x pc c \<longleftrightarrow> s3_laws client objs"

definition s3_at_end :: "'c s3_client \<Rightarrow> S3Config \<Rightarrow> ('c \<Rightarrow> string \<times> string \<rightharpoonup> bytes) \<Rightarrow> File \<Rightarrow> error option \<Rightarrow> 'c \<Rightarrow> bool" where
  "s3_at_end client cfg objs x r c \<longleftrightarrow>
     s3_laws client objs \<and> (r = None \<longrightarrow> objs c (BucketName cfg, s3_key (f_ID x) (f_Name x)) = Some (f_Data x))"

definition s3_independent :: "File \<Rightarrow> File \<Rightarrow> bool" where
  "s3_independent x y \<longleftrightarrow> s3_key (f_ID x) (f_Name x) \<noteq> s3_key (f_ID y) (f_Name y)"

interpretation s3_group: goroutine_group "S3Files_body client cfg" "s3_at_pc client objs" "s3_at_end client cfg objs" s3_independent
  for client cfg objs
  by unfold_locales
    (auto simp: S3Files_body_def s3_at_pc_def s3_at_end_def s3_independent_def S3Files_WriteFile_effect split: prod.splits)

subsection \<open>One write as a goroutine\<close>

text \<open>The body of a goroutine alone is the sequential \<open>WriteFile\<close>.\<close>

lemma LocalFiles_body_alone:
  "\<exists>n\<le>3. group_run (LocalFiles_body cfg) (replicate n 0) ([(x, Runs AtMkdir)], [], f) =
     ([(x, Returned (fst (LocalFiles_WriteFile cfg x f)))], [], snd (LocalFiles_WriteFile cfg x f))"
proof -
  obtain r1 f1 where m: "os_MkdirAll (local_directory cfg (f_ID x)) f = (r1, f1)" by fastforce
  obtain r2 f2 where c: "os_Create (local_path cfg (f_ID x) (f_Name x)) f1 = (r2, f2)" by fastforce
  obtain r3 f3 where w: "file_Write (local_path cfg (f_ID x) (f_Name x)) (f_Data x) f2 = (r3, f3)" by fastforce
  note defs = LocalFiles_WriteFile_def or_wrap_def or_stop_def group_step_def Let_def m
  show ?thesis
  proof (cases "r1 = None \<and> r2 = None")
    case True
    then show ?thesis
      using c w by (intro exI [of _ 3]) (cases r3; simp add: defs numeral_3_eq_3)
  next
    case False
    show ?thesis
    proof (cases r1)
      case None
      with False c show ?thesis
        by (intro exI [of _ 2]) (cases r2; simp add: defs numeral_2_eq_2)
    next
      case (Some e)
      then show ?thesis by (intro exI [of _ 1]) (simp add: defs)
    qed
  qed
qed

subsection \<open>All files of a call\<close>

lemma LocalFiles_WriteFiles_jobs:
  assumes "distinct (map (\<lambda>x. local_key cfg (f_ID x) (f_Name x)) fls)"
    and "LocalFiles_WriteFiles cfg sched fls f = (ts, errs, f')" and "finished (LocalFiles_WriteFiles cfg sched fls f)"
  shows "map fst ts = fls \<and> mset errs = mset (concat (map (done_error \<circ> snd) ts))
         \<and> (\<forall>(x, t)\<in>set ts. t = Done None \<longrightarrow> files f' (local_key cfg (f_ID x) (f_Name x)) = Some (f_Data x))"
proof -
  let ?g = "(map (\<lambda>x. (x, Runs AtMkdir)) fls, [], f)"
  have "local_independent cfg (fls ! a) (fls ! b)" if "a < length fls" "b < length fls" "a \<noteq> b" for a b
    using assms(1) that by (simp add: local_independent_def distinct_conv_nth)
  then have "local_group.group_ok cfg ?g"
    by (auto simp: local_group.group_ok_def local_group.holds_def local_at_pc_def)
  moreover have "queue_ok ?g" by (rule queue_ok_start)
  ultimately have "(\<forall>x\<in>set ts. \<exists>r. snd x = Done r \<and> local_at_end cfg (fst x) r f') \<and> mset errs = mset (concat (map (done_error \<circ> snd) ts))"
    using local_group.finished_jobs [of cfg ?g sched ts errs f'] assms(2,3) unfolding LocalFiles_WriteFiles_def by blast
  moreover have "map fst ts = fls"
    using group_run_jobs [of "LocalFiles_body cfg" sched ?g] assms(2) by (simp add: LocalFiles_WriteFiles_def comp_def)
  ultimately show ?thesis by (fastforce simp: local_at_end_def)
qed

text \<open>A call that reports no error has stored every file.\<close>

lemma LocalFiles_WriteFiles_stored:
  assumes "distinct (map (\<lambda>x. local_key cfg (f_ID x) (f_Name x)) fls)"
    and "LocalFiles_WriteFiles cfg sched fls f = (ts, [], f')" and "finished (LocalFiles_WriteFiles cfg sched fls f)" and "x \<in> set fls"
  shows "files f' (local_key cfg (f_ID x) (f_Name x)) = Some (f_Data x)"
proof -
  note jobs = LocalFiles_WriteFiles_jobs [OF assms(1-3)]
  then have "x \<in> fst ` set ts" using assms(4) by (metis list.set_map)
  then obtain t where t: "(x, t) \<in> set ts" by auto
  have "concat (map (done_error \<circ> snd) ts) = []" using jobs by simp
  then have "done_error t = []" using t by (auto simp: concat_eq_Nil_conv)
  moreover obtain r where "t = Done r" using assms(2,3) t by (auto simp: finished_def list_all_iff is_done_def split: goroutine.splits)
  ultimately have "t = Done None" by (cases r) (simp_all add: done_error_def)
  with jobs t show ?thesis by auto
qed

subsection \<open>Termination of the goroutines\<close>

fun local_rank :: "local_pc \<Rightarrow> nat" where
  "local_rank AtMkdir = 2"
| "local_rank AtCreate = 1"
| "local_rank AtWrite = 0"

interpretation local_ranked: ranked_body "LocalFiles_body cfg" local_rank for cfg
proof
  fix x pc f pc' f'
  assume "LocalFiles_body cfg x pc f = (Inl pc', f')"
  then show "local_rank pc' < local_rank pc"
    by (cases pc) (auto simp: or_stop_def split: prod.splits option.splits)
qed

interpretation s3_ranked: ranked_body "S3Files_body client cfg" "\<lambda>pc. 0" for client cfg
  by unfold_locales (auto simp: S3Files_body_def split: prod.splits)

subsection \<open>Properties\<close>

text \<open>
  In the local store a file written without error is read back byte for byte, and no write,
  failed or not, changes what is read under any other id or name.
\<close>

theorem LocalFiles_roundtrip:
  assumes "readable f" and "local_valid cfg (f_ID x) (f_Name x)" and "LocalFiles_WriteFile cfg x f = (r, f')"
  shows "(r = None \<longrightarrow> LocalFiles_GetFile cfg (f_ID x) (f_Name x) f' = (f_Data x, None))
         \<and> (\<forall>i n. local_valid cfg i n \<and> (i, n) \<noteq> (f_ID x, f_Name x) \<longrightarrow> LocalFiles_GetFile cfg i n f' = LocalFiles_GetFile cfg i n f)"
  using local_store.write_read [OF assms(1,2)] local_store.write_other [OF assms(1,2)] assms(3) by blast

theorem LocalFiles_roundtrip_witness:
  "LocalFiles_GetFile \<lparr>LocalRootPath = ''/tmp''\<rparr> ''id1'' ''output''
     (snd (LocalFiles_WriteFile \<lparr>LocalRootPath = ''/tmp''\<rparr> \<lparr>f_ID = ''id1'', f_Name = ''output'', f_Data = ''hello''\<rparr>
        \<lparr>files = Map.empty, dirs = {[]}, fault = (\<lambda>op k. False)\<rparr>)) = (''hello'', None)"
proof -
  let ?cfg = "\<lparr>LocalRootPath = ''/tmp''\<rparr>" and ?x = "\<lparr>f_ID = ''id1'', f_Name = ''output'', f_Data = ''hello''\<rparr>"
    and ?f = "\<lparr>files = Map.empty, dirs = {[]}, fault = (\<lambda>op k. False)\<rparr>"
  have v: "local_valid ?cfg (f_ID ?x) (f_Name ?x)"
    by (simp add: local_valid_def root_ok_def path_elems_def strings_Split_def abs_path_def plain_def)
  have r: "readable ?f" by (simp add: readable_def)
  obtain r f' where w: "LocalFiles_WriteFile ?cfg ?x ?f = (r, f')" by fastforce
  have "r = None"
    using w local_key_valid [OF v]
    by (auto simp: LocalFiles_WriteFile_def or_wrap_def os_MkdirAll_def os_Create_def file_Write_def Let_def
        path_elems_def strings_Split_def local_directory_def local_path_def filepath_Clean_def)
  with LocalFiles_roundtrip [OF r v w] w show ?thesis by simp
qed

text \<open>
  C18. \<open>WriteFiles\<close> of the local store: for files with different paths and for every interleaving of
  the goroutines' system calls, when all of them are done each file either has its whole
  content on disk or its error is in the returned list, and the list holds nothing else.
\<close>

theorem LocalFiles_WriteFiles_complete:
  assumes "distinct (map (\<lambda>x. local_key cfg (f_ID x) (f_Name x)) fls)"
    and "LocalFiles_WriteFiles cfg sched fls f = (ts, errs, f')" and "finished (LocalFiles_WriteFiles cfg sched fls f)"
  shows "map fst ts = fls \<and> mset errs = mset (concat (map (done_error \<circ> snd) ts))
         \<and> (\<forall>(x, t)\<in>set ts. t = Done None \<longrightarrow> files f' (local_key cfg (f_ID x) (f_Name x)) = Some (f_Data x))"
  by (rule LocalFiles_WriteFiles_jobs [OF assms])

theorem LocalFiles_WriteFiles_complete_witness:
  "finished (LocalFiles_WriteFiles \<lparr>LocalRootPath = ''/tmp''\<rparr> [1, 0, 0, 1, 0, 1, 1, 0]
       [\<lparr>f_ID = ''id1'', f_Name = ''output'', f_Data = ''a''\<rparr>, \<lparr>f_ID = ''id1'', f_Name = ''compile'', f_Data = ''b''\<rparr>]
       \<lparr>files = Map.empty, dirs = {[]}, fault = (\<lambda>op k. op = OpWrite \<and> last k = ''compile'')\<rparr>)
   \<and> files (snd (snd (LocalFiles_WriteFiles \<lparr>LocalRootPath = ''/tmp''\<rparr> [1, 0, 0, 1, 0, 1, 1, 0]
       [\<lparr>f_ID = ''id1'', f_Name = ''output'', f_Data = ''a''\<rparr>, \<lparr>f_ID = ''id1'', f_Name = ''compile'', f_Data = ''b''\<rparr>]
       \<lparr>files = Map.empty, dirs = {[]}, fault = (\<lambda>op k. op = OpWrite \<and> last k = ''compile'')\<rparr>))) [''tmp'', ''id1'', ''output''] = Some ''a''"
proof -
  let ?cfg = "\<lparr>LocalRootPath = ''/tmp''\<rparr>"
    and ?fls = "[\<lparr>f_ID = ''id1'', f_Name = ''output'', f_Data = ''a''\<rparr>, \<lparr>f_ID = ''id1'', f_Name = ''compile'', f_Data = ''b''\<rparr>]"
    and ?f = "\<lparr>files = Map.empty, dirs = {[]}, fault = (\<lambda>op k. op = OpWrite \<and> last k = ''compile'')\<rparr>"
  have v: "local_valid ?cfg ''id1'' ''output''" "local_valid ?cfg ''id1'' ''compile''"
    by (simp_all add: local_valid_def root_ok_def path_elems_def strings_Split_def abs_path_def plain_def)
  have root: "path_elems ''/tmp'' = [''tmp'']" by (simp add: path_elems_def strings_Split_def)
  note keys = local_key_valid [OF v(1)] local_key_valid [OF v(2)]
  obtain ts errs f' where run: "LocalFiles_WriteFiles ?cfg [1, 0, 0, 1, 0, 1, 1, 0] ?fls ?f = (ts, errs, f')"
    using prod_cases3 by blast
  have "ts = [(?fls ! 0, Done None), (?fls ! 1, Done (Some (Wrap (OsError ''write'') ''failed to write compile'')))]"
    using run keys
    by (simp add: LocalFiles_WriteFiles_def group_step_def or_stop_def os_MkdirAll_def os_Create_def file_Write_def
        Let_def root)
  then show ?thesis
    using LocalFiles_WriteFiles_complete [of ?cfg ?fls _ ?f, OF _ run] run keys
    by (simp add: finished_def is_done_def root)
qed

text \<open>
  C19. \<open>WriteFiles\<close> of the S3 store, for files with plain ids and names that are pairwise different and
  for every order in which the uploads happen: when all are done, each file can be fetched with
  its content or its error is in the returned list.
\<close>

theorem S3Files_WriteFiles_complete:
  assumes laws: "s3_laws client objs" and valid: "list_all (\<lambda>x. s3_valid (f_ID x) (f_Name x)) fls"
    and dist: "distinct (map (\<lambda>x. (f_ID x, f_Name x)) fls)"
    and run: "S3Files_WriteFiles client cfg sched fls c = (ts, errs, c')" and fin: "finished (S3Files_WriteFiles client cfg sched fls c)"
  shows "map fst ts = fls \<and> mset errs = mset (concat (map (done_error \<circ> snd) ts))
         \<and> (\<forall>(x, t)\<in>set ts. t = Done None \<longrightarrow> S3Files_GetFile client cfg (f_ID x) (f_Name x) c' = (f_Data x, None))"
proof -
  let ?g = "(map (\<lambda>x. (x, Runs ())) fls, [], c)"
  have "s3_independent (fls ! a) (fls ! b)" if "a < length fls" "b < length fls" "a \<noteq> b" for a b
  proof -
    have "(f_ID (fls ! a), f_Name (fls ! a)) \<noteq> (f_ID (fls ! b), f_Name (fls ! b))"
      using dist that by (simp add: distinct_conv_nth)
    moreover have "s3_valid (f_ID (fls ! a)) (f_Name (fls ! a))" "s3_valid (f_ID (fls ! b)) (f_Name (fls ! b))"
      using valid that by (simp_all add: list_all_length)
    ultimately show ?thesis
      using join_relative_inject [of "f_ID (fls ! a)" "f_Name (fls ! a)" "f_ID (fls ! b)" "f_Name (fls ! b)"]
      by (auto simp: s3_independent_def s3_key_def s3_valid_def simp del: filepath_Join.simps)
  qed
  then have "s3_group.group_ok client objs cfg ?g"
    using laws by (auto simp: s3_group.group_ok_def s3_group.holds_def s3_at_pc_def)
  moreover have "queue_ok ?g" by (rule queue_ok_start)
  ultimately have "(\<forall>x\<in>set ts. \<exists>r. snd x = Done r \<and> s3_at_end client cfg objs (fst x) r c')
      \<and> mset errs = mset (concat (map (done_error \<circ> snd) ts))"
    using s3_group.finished_jobs [of client objs cfg ?g sched ts errs c'] run fin unfolding S3Files_WriteFiles_def by blast
  moreover have "map fst ts = fls"
    using group_run_jobs [of "S3Files_body client cfg" sched ?g] run by (simp add: S3Files_WriteFiles_def comp_def)
  ultimately show ?thesis by (fastforce simp: s3_at_end_def S3Files_GetFile_laws [OF laws])
qed

definition map_s3 :: "(string \<times> string \<rightharpoonup> bytes) s3_client" where
  "map_s3 =
     \<lparr>PutObject = (\<lambda>b k data c. (None, c((b, k) \<mapsto> data))),
      GetObject = (\<lambda>b k c. case c (b, k) of None \<Rightarrow> Inl ErrCodeNoSuchKey | Some data \<Rightarrow> Inr (data, None))\<rparr>"

theorem S3Files_WriteFiles_complete_witness:
  "S3Files_GetFile map_s3 \<lparr>BucketName = ''b''\<rparr> ''id1'' ''output''
     (snd (snd (S3Files_WriteFiles map_s3 \<lparr>BucketName = ''b''\<rparr> [1, 0, 0, 1]
       [\<lparr>f_ID = ''id1'', f_Name = ''output'', f_Data = ''x''\<rparr>, \<lparr>f_ID = ''id1'', f_Name = ''compile'', f_Data = ''y''\<rparr>] Map.empty)))
     = (''x'', None)"
proof -
  let ?fls = "[\<lparr>f_ID = ''id1'', f_Name = ''output'', f_Data = ''x''\<rparr>, \<lparr>f_ID = ''id1'', f_Name = ''compile'', f_Data = ''y''\<rparr>]"
  have laws: "s3_laws map_s3 (\<lambda>c. c)" by (simp add: s3_laws_def map_s3_def)
  obtain ts errs c' where run: "S3Files_WriteFiles map_s3 \<lparr>BucketName = ''b''\<rparr> [1, 0, 0, 1] ?fls Map.empty = (ts, errs, c')"
    using prod_cases3 by blast
  have ts: "ts = [(?fls ! 0, Done None), (?fls ! 1, Done None)]"
    using run by (simp add: S3Files_WriteFiles_def group_step_def S3Files_body_def S3Files_WriteFile_def or_wrap_def map_s3_def)
  have "finished (S3Files_WriteFiles map_s3 \<lparr>BucketName = ''b''\<rparr> [1, 0, 0, 1] ?fls Map.empty)"
    using run ts by (simp add: finished_def is_done_def)
  with S3Files_WriteFiles_complete [OF laws _ _ run] ts run show ?thesis
    by (simp add: s3_valid_def plain_def)
qed



end
