(* ===== verification/Repository_Model.thy ===== *)
theory Repository_Model
  imports Cars_Prelude
begin

text \<open>
  \<open>internal/repository\<close>: the table of executions behind gorm. Gorm is third-party code: the calls the
  client makes are the fields of \<open>gorm\<close> over an arbitrary database state, and \<open>gorm_laws\<close> states what
  gorm documents of them for a table with a primary key. The two time stamps gorm maintains by
  itself are left out; the program never reads them.
\<close>

record Execution =
  ex_ID :: string
  ex_Language :: string
  ex_Status :: string
  ex_TestStatus :: string
  ex_CompileMs :: int
  ex_RuntimeMs :: int
  ex_RuntimeMemoryMb :: rat

definition zero_execution :: Execution where
  "zero_execution =
     \<lparr>ex_ID = [], ex_Language = [], ex_Status = [], ex_TestStatus = [], ex_CompileMs = 0, ex_RuntimeMs = 0,
      ex_RuntimeMemoryMb = 0\<rparr>"

text \<open>
  \<open>Create(e)\<close>, \<open>Model(m).Where("").Updates(c)\<close> with its count of rows, \<open>Where("id = ?", id).First(&e)\<close> and
  \<open>Where("id = ?", id).UpdateColumns(c)\<close>.
\<close>

record 'db gorm =
  gorm_Create :: "Execution \<Rightarrow> 'db \<Rightarrow> error option \<times> 'db"
  gorm_Updates :: "Execution \<Rightarrow> Execution \<Rightarrow> 'db \<Rightarrow> (int \<times> error option) \<times> 'db"
  gorm_First :: "string \<Rightarrow> Execution \<Rightarrow> 'db \<Rightarrow> Execution \<times> error option"
  gorm_UpdateColumns :: "string \<Rightarrow> Execution \<Rightarrow> 'db \<Rightarrow> error option \<times> 'db"

definition InsertExecution :: "'db gorm \<Rightarrow> Execution \<Rightarrow> 'db \<Rightarrow> error option \<times> 'db" where
  "InsertExecution c execution db = gorm_Create c execution db"

definition UpdateExecution :: "'db gorm \<Rightarrow> string \<Rightarrow> Execution \<Rightarrow> 'db \<Rightarrow> (bool \<times> error option) \<times> 'db" where
  "UpdateExecution c eid columns db =
     (case gorm_Updates c (zero_execution\<lparr>ex_ID := eid\<rparr>) columns db of
        ((rows, err), db') \<Rightarrow> ((rows > 0, err), db'))"

definition GetExecution :: "'db gorm \<Rightarrow> string \<Rightarrow> 'db \<Rightarrow> Execution \<times> error option" where
  "GetExecution c eid db = gorm_First c eid zero_execution db"

definition UpdateExecutionStatus :: "'db gorm \<Rightarrow> string \<Rightarrow> string \<Rightarrow> 'db \<Rightarrow> error option \<times> 'db" where
  "UpdateExecutionStatus c eid status db = gorm_UpdateColumns c eid (zero_execution\<lparr>ex_Status := status\<rparr>) db"

text \<open>
  Opening: the errors of \<open>gorm.Open\<close>, of fetching the connection, of the ping and of the migration, in
  the order they are met. The result says whether a client is returned, and the error.
\<close>

definition pingTest :: "error option \<Rightarrow> error option \<Rightarrow> error option" where
  "pingTest db_err ping_err = (case db_err of Some e \<Rightarrow> Some e | None \<Rightarrow> ping_err)"

definition NewRepository :: "error option \<Rightarrow> error option \<Rightarrow> error option \<Rightarrow> error option \<Rightarrow> bool \<times> error option" where
  "NewRepository open_err db_err ping_err migrate_err =
     (case open_err of
        Some e \<Rightarrow> (False, Some e)
      | None \<Rightarrow>
          (case pingTest db_err ping_err of
             Some e \<Rightarrow> (False, Some e)
           | None \<Rightarrow> (True, migrate_err)))"

subsection \<open>What gorm documents\<close>

text \<open>Updates with a struct write the fields that are not zero.\<close>

definition merge_nonzero :: "Execution \<Rightarrow> Execution \<Rightarrow> Execution" where
  "merge_nonzero c e =
     e\<lparr>ex_ID := if ex_ID c = [] then ex_ID e else ex_ID c,
       ex_Language := if ex_Language c = [] then ex_Language e else ex_Language c,
       ex_Status := if ex_Status c = [] then ex_Status e else ex_Status c,
       ex_TestStatus := if ex_TestStatus c = [] then ex_TestStatus e else ex_TestStatus c,
       ex_CompileMs := if ex_CompileMs c = 0 then ex_CompileMs e else ex_CompileMs c,
       ex_RuntimeMs := if ex_RuntimeMs c = 0 then ex_RuntimeMs e else ex_RuntimeMs c,
       ex_RuntimeMemoryMb := if ex_RuntimeMemoryMb c = 0 then ex_RuntimeMemoryMb e else ex_RuntimeMemoryMb c\<rparr>"

definition update_row :: "string \<Rightarrow> Execution \<Rightarrow> (string \<rightharpoonup> Execution) \<Rightarrow> (string \<rightharpoonup> Execution)" where
  "update_row eid c t = (case t eid of None \<Rightarrow> t | Some e \<Rightarrow> t(eid \<mapsto> merge_nonzero c e))"

text \<open>
  \<open>rows\<close> is the table of a database state. Every call that reports no error has its effect, and one
  that reports an error has none.
\<close>

definition gorm_laws :: "'db gorm \<Rightarrow> ('db \<Rightarrow> string \<rightharpoonup> Execution) \<Rightarrow> bool" where
  "gorm_laws c rows \<longleftrightarrow>
     (\<forall>e db. case gorm_Create c e db of
        (None, db') \<Rightarrow> rows db (ex_ID e) = None \<and> rows db' = (rows db)(ex_ID e \<mapsto> e)
      | (Some err, db') \<Rightarrow> rows db' = rows db)
     \<and> (\<forall>m cols db. case gorm_Updates c m cols db of
          ((n, None), db') \<Rightarrow> rows db' = update_row (ex_ID m) cols (rows db) \<and> (n > 0 \<longleftrightarrow> rows db (ex_ID m) \<noteq> None)
        | ((n, Some err), db') \<Rightarrow> rows db' = rows db)
     \<and> (\<forall>eid cols db. case gorm_UpdateColumns c eid cols db of
          (None, db') \<Rightarrow> rows db' = update_row eid cols (rows db)
        | (Some err, db') \<Rightarrow> rows db' = rows db)
     \<and> (\<forall>eid z db. case gorm_First c eid z db of
          (e, None) \<Rightarrow> rows db eid = Some e
        | (e, Some err) \<Rightarrow> e = z \<and> (err = ErrRecordNotFound \<longrightarrow> rows db eid = None))"

lemma InsertExecution_effect:
  assumes "gorm_laws c rows" and "InsertExecution c e db = (r, db')"
  shows "rows db' = (if r = None then (rows db)(ex_ID e \<mapsto> e) else rows db)"
  using assms(1) [unfolded gorm_laws_def, THEN conjunct1, rule_format, where e = e and db = db] assms(2)
  by (auto simp: InsertExecution_def split: prod.splits option.splits)

lemma UpdateExecutionStatus_effect:
  assumes "gorm_laws c rows" and "UpdateExecutionStatus c eid status db = (r, db')"
  shows "rows db' = (if r = None then update_row eid (zero_execution\<lparr>ex_Status := status\<rparr>) (rows db) else rows db)"
  using assms(1) [unfolded gorm_laws_def, THEN conjunct2, THEN conjunct2, THEN conjunct1, rule_format,
      where eid = eid and cols = "zero_execution\<lparr>ex_Status := status\<rparr>" and db = db] assms(2)
  by (auto simp: UpdateExecutionStatus_def split: prod.splits option.splits)

lemma UpdateExecution_effect:
  assumes "gorm_laws c rows" and "UpdateExecution c eid cols db = ((found, r), db')"
  shows "rows db' = (if r = None then update_row eid cols (rows db) else rows db)"
    and "r = None \<Longrightarrow> found \<longleftrightarrow> rows db eid \<noteq> None"
  using assms(1) [unfolded gorm_laws_def, THEN conjunct2, THEN conjunct1, rule_format,
      where m = "zero_execution\<lparr>ex_ID := eid\<rparr>" and cols = cols and db = db] assms(2)
  by (auto simp: UpdateExecution_def split: prod.splits option.splits)

lemma GetExecution_effect:
  assumes "gorm_laws c rows" and "GetExecution c eid db = (e, r)"
  shows "r = None \<Longrightarrow> rows db eid = Some e" and "r \<noteq> None \<Longrightarrow> e = zero_execution"
  using assms(1) [unfolded gorm_laws_def, THEN conjunct2, THEN conjunct2, THEN conjunct2, rule_format,
      where eid = eid and z = zero_execution and db = db] assms(2)
  by (auto simp: GetExecution_def split: prod.splits option.splits)

subsection \<open>The interface\<close>

text \<open>
  What the API and the handlers rely on: every method that reports no error changes one row of the
  table as it says, one that reports an error changes none, and a row that is read is the row of
  the table.
\<close>

locale execution_table =
  fixes insert_row :: "Execution \<Rightarrow> 'db \<Rightarrow> error option \<times> 'db"
    and update_columns :: "string \<Rightarrow> Execution \<Rightarrow> 'db \<Rightarrow> (bool \<times> error option) \<times> 'db"
    and update_status :: "string \<Rightarrow> string \<Rightarrow> 'db \<Rightarrow> error option \<times> 'db"
    and get_row :: "string \<Rightarrow> 'db \<Rightarrow> Execution \<times> error option"
    and rows :: "'db \<Rightarrow> string \<rightharpoonup> Execution" and ready :: "'db \<Rightarrow> bool"
  assumes insert_rows: "ready db \<Longrightarrow> insert_row e db = (r, db') \<Longrightarrow>
      ready db' \<and> rows db' = (if r = None then (rows db)(ex_ID e \<mapsto> e) else rows db)"
    and update_rows: "ready db \<Longrightarrow> update_columns eid cols db = ((found, r), db') \<Longrightarrow>
      ready db' \<and> rows db' = (if r = None then update_row eid cols (rows db) else rows db)"
    and status_rows: "ready db \<Longrightarrow> update_status eid status db = (r, db') \<Longrightarrow>
      ready db' \<and> rows db' = (if r = None then update_row eid (zero_execution\<lparr>ex_Status := status\<rparr>) (rows db) else rows db)"
    and get_rows: "ready db \<Longrightarrow> get_row eid db = (e, None) \<Longrightarrow> rows db eid = Some e"
begin

lemma insert_get:
  "ready db \<Longrightarrow> insert_row e db = (None, db') \<Longrightarrow> get_row (ex_ID e) db' = (e', None) \<Longrightarrow> e' = e"
  using insert_rows [of db e None db'] get_rows [of db' "ex_ID e" e'] by simp

lemma update_get:
  "ready db \<Longrightarrow> rows db eid = Some e \<Longrightarrow> update_columns eid cols db = ((found, None), db') \<Longrightarrow> get_row eid db' = (e', None)
     \<Longrightarrow> e' = merge_nonzero cols e"
  using update_rows [of db eid cols found None db'] get_rows [of db' eid e'] by (simp add: update_row_def)

text \<open>A status is kept by a later update that does not set one, and replaced by one that does.\<close>

lemma status_update_get:
  assumes "ready db" and "rows db eid = Some e" and "update_status eid status db = (None, db1)"
    and "update_columns eid cols db1 = ((found, None), db2)" and "get_row eid db2 = (e', None)" and "status \<noteq> []"
  shows "ex_Status e' = (if ex_Status cols = [] then status else ex_Status cols)"
proof -
  have 1: "ready db1" "rows db1 eid = Some (merge_nonzero (zero_execution\<lparr>ex_Status := status\<rparr>) e)"
    using status_rows [OF assms(1,3)] assms(2) by (simp_all add: update_row_def)
  from update_get [OF 1 assms(4,5)] assms(6) show ?thesis by (simp add: merge_nonzero_def zero_execution_def)
qed

lemma insert_other: "ready db \<Longrightarrow> insert_row e db = (r, db') \<Longrightarrow> k \<noteq> ex_ID e \<Longrightarrow> rows db' k = rows db k"
  using insert_rows [of db e r db'] by simp

lemma update_other: "ready db \<Longrightarrow> update_columns eid cols db = ((found, r), db') \<Longrightarrow> k \<noteq> eid \<Longrightarrow> rows db' k = rows db k"
  using update_rows [of db eid cols found r db'] by (simp add: update_row_def split: option.splits)

end

interpretation execution_rows:
  execution_table "InsertExecution c" "UpdateExecution c" "UpdateExecutionStatus c" "GetExecution c" rows "\<lambda>db. gorm_laws c rows"
  for c rows
  by unfold_locales (simp_all add: InsertExecution_effect UpdateExecution_effect(1) UpdateExecutionStatus_effect GetExecution_effect(1))

text \<open>A table in memory that obeys the laws.\<close>

definition table_gorm :: "(string \<rightharpoonup> Execution) gorm" where
  "table_gorm =
     \<lparr>gorm_Create = (\<lambda>e t. if t (ex_ID e) = None then (None, t(ex_ID e \<mapsto> e)) else (Some (ClientError ''duplicate key''), t)),
      gorm_Updates = (\<lambda>m c t. ((if t (ex_ID m) = None then 0 else 1, None), update_row (ex_ID m) c t)),
      gorm_First = (\<lambda>eid z t. case t eid of None \<Rightarrow> (z, Some ErrRecordNotFound) | Some e \<Rightarrow> (e, None)),
      gorm_UpdateColumns = (\<lambda>eid c t. (None, update_row eid c t))\<rparr>"

lemma table_gorm_laws: "gorm_laws table_gorm (\<lambda>t. t)"
  by (auto simp: gorm_laws_def table_gorm_def split: option.splits)

end
