(* ===== verification/Queue_Handler.thy ===== *)
theory Queue_Handler
  imports Container_Manager Files_Store Repository_Model
begin

text \<open>
  \<open>internal/queue/queue.go\<close>: the compile message and the handler that runs it. The handler blocks on
  the limiter and on the container, and several handlers run at once, so it is a small-step
  program: \<open>handler\<close> is its program counter with its local variables, and \<open>handler_step\<close> runs it up
  to the next point where other goroutines can be seen. The file store and the Docker client are
  interface values, the database is gorm; the environment is the record \<open>env\<close>.
\<close>

subsection \<open>The message\<close>

record CompileMessage =
  cm_ID :: string
  cm_Language :: string
  cm_StdinData :: "string slice"
  cm_ExpectedStdoutData :: "string slice"

definition zero_message :: CompileMessage where
  "zero_message = \<lparr>cm_ID = [], cm_Language = [], cm_StdinData = None, cm_ExpectedStdoutData = None\<rparr>"

definition encode_message :: "CompileMessage \<Rightarrow> json" where
  "encode_message m =
     JObj [(''id'', JStr (cm_ID m)),
           (''language'', JStr (cm_Language m)),
           (''stdin_data'', enc_strings (cm_StdinData m)),
           (''expected_stdout_data'', enc_strings (cm_ExpectedStdoutData m))]"

definition store_message :: "string \<Rightarrow> json \<Rightarrow> CompileMessage \<Rightarrow> bool \<times> CompileMessage" where
  "store_message k v m =
     (if field_is ''id'' k then apsnd (\<lambda>x. m\<lparr>cm_ID := x\<rparr>) (dec_string v (cm_ID m))
      else if field_is ''language'' k then apsnd (\<lambda>x. m\<lparr>cm_Language := x\<rparr>) (dec_string v (cm_Language m))
      else if field_is ''stdin_data'' k then apsnd (\<lambda>x. m\<lparr>cm_StdinData := x\<rparr>) (dec_strings v (cm_StdinData m))
      else if field_is ''expected_stdout_data'' k then apsnd (\<lambda>x. m\<lparr>cm_ExpectedStdoutData := x\<rparr>) (dec_strings v (cm_ExpectedStdoutData m))
      else (True, m))"

definition message_ok :: "CompileMessage \<Rightarrow> bool" where
  "message_ok m \<longleftrightarrow>
     list_all valid_utf8 (cm_ID m # cm_Language m # elems (cm_StdinData m) @ elems (cm_ExpectedStdoutData m))"

lemma field_is_message_table:
  "list_all (\<lambda>n. list_all (\<lambda>k. field_is n k \<longleftrightarrow> n = k) [''id'', ''language'', ''stdin_data'', ''expected_stdout_data''])
     [''id'', ''language'', ''stdin_data'', ''expected_stdout_data'']"
  by code_simp

lemmas field_is_message = field_is_message_table [simplified]

lemma unmarshal_message:
  assumes "message_ok m"
  shows "json_Unmarshal store_message (json_Marshal (encode_message m)) r = (None, m)"
proof -
  have "json_ok 10000 (encode_message m)"
    using assms by (simp add: encode_message_def message_ok_def)
  then have "json_parse (json_Marshal (encode_message m)) = Some (encode_message m)"
    by (rule json_parse_Marshal)
  then show ?thesis
    by (simp add: json_Unmarshal_def encode_message_def store_message_def field_is_message)
qed

definition json_error :: "unmarshal_err \<Rightarrow> error" where
  "json_error e = Errorf (case e of SyntaxError \<Rightarrow> ''json: syntax error'' | UnmarshalTypeError \<Rightarrow> ''json: cannot unmarshal'')"

subsection \<open>The environment and the shared state\<close>

text \<open>The interface value \<open>files.Files\<close>: the two methods the handler calls.\<close>

record 'f files_iface =
  if_WriteFiles :: "File list \<Rightarrow> 'f \<Rightarrow> error list \<times> 'f"
  if_GetFile :: "string \<Rightarrow> string \<Rightarrow> 'f \<Rightarrow> bytes \<times> error option"

record ('d, 'f, 'db) env =
  e_docker :: "'d docker_client"
  e_files :: "'f files_iface"
  e_repo :: "'db gorm"
  e_goos :: string
  e_getenv :: string
  e_tempdir :: string

record ('d, 'f, 'db) loader =
  l_manager :: manager
  l_world :: "'d world"
  l_files :: 'f
  l_db :: 'db
  l_machine :: machine

definition set_status :: "('d, 'f, 'db) env \<Rightarrow> string \<Rightarrow> ContainerStatus \<Rightarrow> ('d, 'f, 'db) loader \<Rightarrow> ('d, 'f, 'db) loader" where
  "set_status env eid status ld =
     ld\<lparr>l_db := snd (UpdateExecutionStatus (e_repo env) eid (ContainerStatus_String status) (l_db ld))\<rparr>"

subsection \<open>Pieces of the handler\<close>

definition sandbox_request :: "string \<Rightarrow> CompileMessage \<Rightarrow> LanguageCompiler \<Rightarrow> Profile \<Rightarrow> bytes \<Rightarrow> Request" where
  "sandbox_request tempdir msg compiler profile sourceCode =
     \<lparr>rq_ID = cm_ID msg, rq_ExecutionProfile = profile,
      rq_Path = filepath_Join [tempdir, ''executions'', ''raw'', cm_ID msg],
      rq_SourceCode = sourceCode, rq_Compiler = compiler,
      rq_Test =
        (if length (elems (cm_StdinData msg)) > 0 \<or> length (elems (cm_ExpectedStdoutData msg)) > 0
         then Some \<lparr>t_ID = cm_ID msg, t_StdinData = cm_StdinData msg, t_ExpectedStdoutData = cm_ExpectedStdoutData msg\<rparr>
         else None)\<rparr>"

definition upload_files :: "Request \<Rightarrow> Response \<Rightarrow> File list" where
  "upload_files rq resp =
     [\<lparr>f_ID = rq_ID rq, f_Name = lc_OutputFile (rq_Compiler rq), f_Data = strings_Join (elems (rs_Output resp)) newline\<rparr>,
      \<lparr>f_ID = rq_ID rq, f_Name = lc_OutputErrFile (rq_Compiler rq), f_Data = strings_Join (elems (rs_OutputError resp)) newline\<rparr>]
     @ (if \<not> lc_Interpreter (rq_Compiler rq)
        then [\<lparr>f_ID = rq_ID rq, f_Name = lc_CompilerOutputFile (rq_Compiler rq),
               f_Data = strings_Join (elems (rs_CompilerOutput resp)) newline\<rparr>]
        else [])"

definition Milliseconds :: "Duration \<Rightarrow> int" where
  "Milliseconds d = quot64 d 1000000"

definition execution_columns :: "Response \<Rightarrow> Execution" where
  "execution_columns resp =
     zero_execution\<lparr>ex_Status := ContainerStatus_String (rs_Status resp),
       ex_TestStatus := ContainerTestStatus_String (rs_TestStatus resp),
       ex_CompileMs := Milliseconds (rs_CompileTime resp),
       ex_RuntimeMs := Milliseconds (rs_Runtime resp),
       ex_RuntimeMemoryMb := Megabytes (rs_RuntimeMemory resp)\<rparr>"

subsection \<open>The handler\<close>

datatype handler =
    HStart bytes
  | HAcquire CompileMessage Request
  | HRun CompileMessage Request
  | HStore CompileMessage Request string Container
  | HRunning CompileMessage Request string
  | HWait CompileMessage Request string
  | HRespond CompileMessage Request string
  | HReceive CompileMessage string Response
  | HDelete CompileMessage string Response
  | HUpdate CompileMessage Response
  | HRejected error
  | HFailed error
  | HTimedOut string
  | HDone

text \<open>
  Reading the request: up to the call of \<open>AddContainer\<close>. An unknown language gives the nil compiler,
  whose field is then read.
\<close>

definition handler_begin ::
  "('d, 'f, 'db) env \<Rightarrow> bytes \<Rightarrow> ('d, 'f, 'db) loader \<Rightarrow> panic + (handler \<times> ('d, 'f, 'db) loader)" where
  "handler_begin env data ld =
     (case json_Unmarshal store_message data zero_message of
        (Some err, _) \<Rightarrow> Inr (HRejected (Wrap (json_error err) ''failed to parse compile request''), ld)
      | (None, msg) \<Rightarrow>
          (case Compilers_lookup (cm_Language msg) of
             None \<Rightarrow> Inl NilDereference
           | Some compiler \<Rightarrow>
               let sourceCode = fst (if_GetFile (e_files env) (cm_ID msg) (lc_SourceFile compiler) (l_files ld))
               in case GetProfileForMachine (e_goos env) (e_getenv env) (w_fs (l_world ld)) (l_machine ld) of
                    Inl p \<Rightarrow> Inl p
                  | Inr (None, m1) \<Rightarrow> Inl NilDereference
                  | Inr (Some profile, m1) \<Rightarrow>
                      Inr (HAcquire msg (sandbox_request (e_tempdir env) msg compiler profile sourceCode),
                           set_status env (cm_ID msg) Created (ld\<lparr>l_machine := m1\<rparr>))))"

text \<open>What the \<open>select\<close> of the handler takes: the closed channel or the timer.\<close>

datatype choice = TakeComplete | TakeTimeout

text \<open>
  One step; \<open>None\<close> when it blocks, \<open>Inl\<close> for a panic. \<open>HAcquire\<close>, \<open>HRun\<close> and \<open>HStore\<close> are the three parts of
  \<open>AddContainer\<close>, \<open>HReceive\<close> and \<open>HDelete\<close> the two of \<open>RemoveContainer\<close>.
\<close>

fun handler_step ::
  "('d, 'f, 'db) env \<Rightarrow> choice \<Rightarrow> handler \<Rightarrow> ('d, 'f, 'db) loader \<Rightarrow> (panic + (handler \<times> ('d, 'f, 'db) loader)) option" where
  "handler_step env ch (HStart data) ld = Some (handler_begin env data ld)"
| "handler_step env ch (HAcquire msg rq) ld =
     (case limiter_send (rq_ID rq) (l_manager ld) of
        None \<Rightarrow> None
      | Some s \<Rightarrow> Some (Inr (HRun msg rq, ld\<lparr>l_manager := s\<rparr>)))"
| "handler_step env ch (HRun msg rq) ld =
     Some (case Run (e_docker env) (NewSandboxContainer rq) (l_world ld) of
             Inl p \<Rightarrow> Inl p
           | Inr (Inl err, d, w) \<Rightarrow>
               Inr (HFailed (Wrap err ''failed to add container to Manager''),
                    set_status env (cm_ID msg) NonDeterministicError (ld\<lparr>l_world := w\<rparr>))
           | Inr (Inr cid, d, w) \<Rightarrow> Inr (HStore msg rq cid d, ld\<lparr>l_world := w\<rparr>))"
| "handler_step env ch (HStore msg rq cid d) ld =
     Some (Inr (HRunning msg rq cid, ld\<lparr>l_manager := containers_Store cid d (l_manager ld)\<rparr>))"
| "handler_step env ch (HRunning msg rq cid) ld =
     Some (Inr (HWait msg rq cid, set_status env (cm_ID msg) Running ld))"
| "handler_step env ch (HWait msg rq cid) ld =
     (case ch of
        TakeTimeout \<Rightarrow> Some (Inr (HTimedOut cid, ld))
      | TakeComplete \<Rightarrow>
          (case getContainer cid (l_manager ld) of
             None \<Rightarrow> None
           | Some d \<Rightarrow> if c_complete d = ClosedChan then Some (Inr (HRespond msg rq cid, ld)) else None))"
| "handler_step env ch (HRespond msg rq cid) ld =
     Some (case manager_GetResponse cid (l_manager ld) of
             Inl p \<Rightarrow> Inl p
           | Inr (None, s) \<Rightarrow> Inl NilDereference
           | Inr (Some resp, s) \<Rightarrow>
               Inr (HReceive msg cid resp,
                    ld\<lparr>l_manager := s, l_files := snd (if_WriteFiles (e_files env) (upload_files rq resp) (l_files ld))\<rparr>))"
| "handler_step env ch (HReceive msg cid resp) ld =
     (case limiter_receive (l_manager ld) of
        None \<Rightarrow> None
      | Some s \<Rightarrow> Some (Inr (HDelete msg cid resp, ld\<lparr>l_manager := s\<rparr>)))"
| "handler_step env ch (HDelete msg cid resp) ld =
     Some (Inr (HUpdate msg resp, ld\<lparr>l_manager := containers_Delete cid (l_manager ld)\<rparr>))"
| "handler_step env ch (HUpdate msg resp) ld =
     Some (Inr (HDone, ld\<lparr>l_db := snd (UpdateExecution (e_repo env) (cm_ID msg) (execution_columns resp) (l_db ld))\<rparr>))"
| "handler_step env ch (HRejected err) ld = None"
| "handler_step env ch (HFailed err) ld = None"
| "handler_step env ch (HTimedOut cid) ld = None"
| "handler_step env ch HDone ld = None"

text \<open>What the finished handler returns to the queue.\<close>

fun handler_result :: "handler \<Rightarrow> error option" where
  "handler_result (HRejected err) = Some err"
| "handler_result (HFailed err) = Some err"
| "handler_result _ = None"

text \<open>A handler on its own, for a number of steps.\<close>

fun handler_steps ::
  "('d, 'f, 'db) env \<Rightarrow> nat \<Rightarrow> handler \<Rightarrow> ('d, 'f, 'db) loader \<Rightarrow> (panic + (handler \<times> ('d, 'f, 'db) loader)) option" where
  "handler_steps env 0 h ld = Some (Inr (h, ld))"
| "handler_steps env (Suc n) h ld =
     (case handler_step env TakeComplete h ld of
        None \<Rightarrow> None
      | Some (Inl p) \<Rightarrow> Some (Inl p)
      | Some (Inr (h', ld')) \<Rightarrow> handler_steps env n h' ld')"

subsection \<open>Accepting a message\<close>

lemma handler_begin_starts:
  assumes "message_ok msg" and "Compilers_lookup (cm_Language msg) = Some c"
    and "machine_ok (e_goos env) (l_machine ld)" and "daemonOnce (l_machine ld) \<or> \<not> null_daemon_file (w_fs (l_world ld))"
  obtains profile m1 where
    "handler_begin env (json_Marshal (encode_message msg)) ld =
       Inr (HAcquire msg (sandbox_request (e_tempdir env) msg c profile (fst (if_GetFile (e_files env) (cm_ID msg) (lc_SourceFile c) (l_files ld)))),
            set_status env (cm_ID msg) Created (ld\<lparr>l_machine := m1\<rparr>))"
    "machine_ok (e_goos env) m1"
proof -
  obtain p m1 where "GetProfileForMachine (e_goos env) (e_getenv env) (w_fs (l_world ld)) (l_machine ld) = Inr (Some p, m1)"
    "machine_ok (e_goos env) m1"
    by (rule GetProfileForMachine_some [OF assms(3,4)])
  with that assms(2) unmarshal_message [OF assms(1), of zero_message] show ?thesis
    by (simp add: handler_begin_def)
qed

subsection \<open>Reporting the result\<close>

lemma handler_finishes:
  assumes "getContainer cid (l_manager ld) = Some d" and "c_complete d = ClosedChan"
    and "GetResponse d = Inr (resp, d')" and "limiter (l_manager ld) = x # xs"
  shows "\<exists>ld'. handler_steps env 5 (HWait msg rq cid) ld = Some (Inr (HDone, ld'))
           \<and> limiter (l_manager ld') = xs \<and> containers (l_manager ld') = (containers (l_manager ld))(cid := None)
           \<and> l_files ld' = snd (if_WriteFiles (e_files env) (upload_files rq resp) (l_files ld))
           \<and> l_db ld' = snd (UpdateExecution (e_repo env) (cm_ID msg) (execution_columns resp) (l_db ld))"
  using assms by (simp add: numeral_eq_Suc manager_GetResponse_def limiter_receive_def)

end
