(* ===== verification/Loader_System.thy ===== *)
theory Loader_System
  imports Queue_Handler "HOL-Library.Multiset"
begin

text \<open>
  The loader as a whole: any number of handlers of \<open>internal/queue/queue.go\<close> and the event loop of
  \<open>internal/sandbox/manager.go\<close> run concurrently on one manager, while the containers, the Docker
  daemon and the API change the file system, the daemon's state, the stored files and the
  database. The step relation interleaves them; the invariant counts the limiter's slots. The
  working directories of different handlers are different, so \<open>Run\<close> is one step.
\<close>

subsection \<open>Who holds what\<close>

fun holds_slot :: "handler \<Rightarrow> bool" where
  "holds_slot (HRun msg rq) = True"
| "holds_slot (HStore msg rq cid d) = True"
| "holds_slot (HRunning msg rq cid) = True"
| "holds_slot (HWait msg rq cid) = True"
| "holds_slot (HRespond msg rq cid) = True"
| "holds_slot (HReceive msg cid resp) = True"
| "holds_slot (HFailed err) = True"
| "holds_slot (HTimedOut cid) = True"
| "holds_slot _ = False"

text \<open>The container a handler started, and the one it has in the registry.\<close>

fun registered :: "handler \<Rightarrow> string option" where
  "registered (HRunning msg rq cid) = Some cid"
| "registered (HWait msg rq cid) = Some cid"
| "registered (HRespond msg rq cid) = Some cid"
| "registered (HReceive msg cid resp) = Some cid"
| "registered (HDelete msg cid resp) = Some cid"
| "registered (HTimedOut cid) = Some cid"
| "registered _ = None"

fun started_id :: "handler \<Rightarrow> string option" where
  "started_id (HStore msg rq cid d) = Some cid"
| "started_id h = registered h"

text \<open>Handlers that ended without giving their slot back.\<close>

fun leaked :: "handler \<Rightarrow> bool" where
  "leaked (HFailed err) = True"
| "leaked (HTimedOut cid) = True"
| "leaked _ = False"

fun deleting :: "handler \<Rightarrow> bool" where
  "deleting (HDelete msg cid resp) = True"
| "deleting _ = False"

subsection \<open>Steps\<close>

text \<open>Messages carry ids that are plain file names, as the API makes them.\<close>

definition data_ok :: "bytes \<Rightarrow> bool" where
  "data_ok data \<longleftrightarrow> (case json_Unmarshal store_message data zero_message of (Some e, _) \<Rightarrow> True | (None, msg) \<Rightarrow> plain (cm_ID msg))"

definition env_ok :: "('d, 'f, 'db) env \<Rightarrow> bool" where
  "env_ok env \<longleftrightarrow> e_tempdir env = abs_path (path_elems (e_tempdir env)) \<and> list_all plain (path_elems (e_tempdir env))"

text \<open>Docker gives every container an id of its own.\<close>

definition fresh_id :: "handler list \<Rightarrow> handler \<Rightarrow> bool" where
  "fresh_id hs h \<longleftrightarrow> (case h of HStore msg rq cid d \<Rightarrow> (\<forall>g\<in>set hs. started_id g \<noteq> Some cid) | _ \<Rightarrow> True)"

inductive sys_step ::
  "('d, 'f, 'db) env \<Rightarrow> handler list \<times> ('d, 'f, 'db) loader \<Rightarrow> handler list \<times> ('d, 'f, 'db) loader \<Rightarrow> bool"
  for env where
  message: "data_ok data \<Longrightarrow> sys_step env (hs, ld) (hs @ [HStart data], ld)"
| handler: "i < length hs \<Longrightarrow> handler_step env ch (hs ! i) ld = Some (Inr (h, ld')) \<Longrightarrow> fresh_id hs h
            \<Longrightarrow> sys_step env (hs, ld) (hs[i := h], ld')"
| event: "handle_poll p (l_manager ld) (w_fs (l_world ld)) = Inr (s, f)
          \<Longrightarrow> sys_step env (hs, ld) (hs, ld\<lparr>l_manager := s, l_world := (l_world ld)\<lparr>w_fs := f\<rparr>\<rparr>)"
| outside: "sys_step env (hs, ld) (hs, ld\<lparr>l_world := w, l_files := fl, l_db := db\<rparr>)"

inductive reachable :: "('d, 'f, 'db) env \<Rightarrow> handler list \<times> ('d, 'f, 'db) loader \<Rightarrow> bool" for env where
  init: "containers (l_manager ld) = Map.empty \<Longrightarrow> limiter (l_manager ld) = [] \<Longrightarrow> reachable env ([], ld)"
| step: "reachable env x \<Longrightarrow> sys_step env x y \<Longrightarrow> reachable env y"

inductive later :: "('d, 'f, 'db) env \<Rightarrow> handler list \<times> ('d, 'f, 'db) loader \<Rightarrow> handler list \<times> ('d, 'f, 'db) loader \<Rightarrow> bool"
  for env x where
  refl: "later env x x"
| step: "later env x y \<Longrightarrow> sys_step env y z \<Longrightarrow> later env x z"

inductive_cases sys_stepE: "sys_step env (hs, ld) (hs', ld')"

subsection \<open>The invariant\<close>

text \<open>What a handler's local variables satisfy.\<close>

fun locals_ok :: "handler \<Rightarrow> bool" where
  "locals_ok (HStart data) = data_ok data"
| "locals_ok (HAcquire msg rq) = (\<exists>es. request_ok rq es)"
| "locals_ok (HRun msg rq) = (\<exists>es. request_ok rq es)"
| "locals_ok (HStore msg rq cid d) = live d"
| "locals_ok _ = True"

definition ids_ok :: "handler list \<Rightarrow> bool" where
  "ids_ok hs \<longleftrightarrow> (\<forall>a b. a < length hs \<longrightarrow> b < length hs \<longrightarrow> a \<noteq> b \<longrightarrow> started_id (hs ! a) \<noteq> None \<longrightarrow> started_id (hs ! a) \<noteq> started_id (hs ! b))"

definition registry_ok :: "handler list \<Rightarrow> manager \<Rightarrow> bool" where
  "registry_ok hs s \<longleftrightarrow> dom (containers s) = {cid. \<exists>h\<in>set hs. registered h = Some cid}"

definition system_inv :: "handler list \<times> ('d, 'f, 'db) loader \<Rightarrow> bool" where
  "system_inv x \<longleftrightarrow>
     (case x of (hs, ld) \<Rightarrow>
        manager_ok (l_manager ld)
        \<and> length (limiter (l_manager ld)) = length (filter holds_slot hs)
        \<and> list_all locals_ok hs
        \<and> ids_ok hs
        \<and> registry_ok hs (l_manager ld))"

lemma length_filter_update:
  "i < length xs \<Longrightarrow> length (filter P (xs[i := y])) + (if P (xs ! i) then 1 else 0) = length (filter P xs) + (if P y then 1 else 0)"
proof (induction xs arbitrary: i)
  case (Cons x xs)
  then show ?case by (cases i) auto
qed simp

lemma sandbox_request_ok:
  assumes "env_ok env" and "plain (cm_ID msg)" and "Compilers_lookup k = Some c"
  shows "request_ok (sandbox_request (e_tempdir env) msg c p src) (path_elems (e_tempdir env) @ [''executions'', ''raw'', cm_ID msg])"
proof -
  let ?es = "path_elems (e_tempdir env) @ [''executions'', ''raw'', cm_ID msg]"
  have es: "list_all plain ?es" using assms by (simp add: env_ok_def plain_def)
  have tmp: "e_tempdir env = abs_path (path_elems (e_tempdir env))" using assms by (simp add: env_ok_def)
  have join: "filepath_Join [e_tempdir env, ''executions'', ''raw'', cm_ID msg] = abs_path ?es"
  proof (cases "path_elems (e_tempdir env) = []")
    case True
    then have t: "e_tempdir env = ''/''" using tmp by (simp add: abs_path_def)
    have "strings_Split (''//executions/raw/'' @ cm_ID msg) ''/'' = [[], [], ''executions'', ''raw'', cm_ID msg]"
      using assms(2) split_nosep [of "CHR ''/''" "cm_ID msg"]
      by (simp add: strings_Split_def plain_def)
    then show ?thesis
      using t True es by (simp add: filepath_Clean_def Let_def abs_path_def plain_def foldl_clean_plain)
  next
    case False
    have "strings_Join [e_tempdir env, ''executions'', ''raw'', cm_ID msg] ''/'' = abs_path ?es"
      using False by (subst tmp) (simp add: abs_path_def strings_Join_append)
    moreover have "e_tempdir env \<noteq> []" using tmp by (metis abs_path_not_Nil)
    ultimately show ?thesis using clean_abs_path [OF es] by simp
  qed
  have "compiler_ok c" using Compilers_ok assms(3) by blast
  with es join show ?thesis by (simp add: request_ok_def sandbox_request_def del: filepath_Join.simps)
qed

lemma started_registered: "registered h = Some cid \<Longrightarrow> started_id h = Some cid"
  by (cases h) auto

lemma ids_okD:
  "ids_ok hs \<Longrightarrow> a < length hs \<Longrightarrow> b < length hs \<Longrightarrow> started_id (hs ! a) = Some y \<Longrightarrow> started_id (hs ! b) = Some y \<Longrightarrow> a = b"
  unfolding ids_ok_def by (metis option.distinct(1))

lemma registry_update:
  assumes ids: "ids_ok hs" and reg: "registry_ok hs s" and i: "i < length hs"
    and dom: "dom (containers s') = (dom (containers s) - set_option (registered (hs ! i))) \<union> set_option (registered h)"
  shows "registry_ok (hs[i := h]) s'"
proof -
  have other: "registered (hs ! a) \<noteq> Some cid" if "a < length hs" "a \<noteq> i" "registered (hs ! i) = Some cid" for a cid
    using ids_okD [OF ids i that(1)] that(2,3) started_registered by blast
  have "cid \<in> dom (containers s') \<longleftrightarrow> (\<exists>g\<in>set (hs[i := h]). registered g = Some cid)" for cid
  proof -
    have "(\<exists>g\<in>set (hs[i := h]). registered g = Some cid) \<longleftrightarrow>
        (\<exists>a<length hs. registered (if a = i then h else hs ! a) = Some cid)"
      by (auto simp: in_set_conv_nth nth_list_update Bex_def)
    also have "\<dots> \<longleftrightarrow> registered h = Some cid \<or> (\<exists>a<length hs. a \<noteq> i \<and> registered (hs ! a) = Some cid)"
      using i by (auto split: if_splits)
    also have "(\<exists>a<length hs. a \<noteq> i \<and> registered (hs ! a) = Some cid) \<longleftrightarrow>
        cid \<in> dom (containers s) - set_option (registered (hs ! i))"
      using other reg by (auto simp: registry_ok_def in_set_conv_nth Bex_def)
    finally show ?thesis by (auto simp: dom elem_set)
  qed
  then show ?thesis by (auto simp: registry_ok_def)
qed

lemma ids_update:
  assumes ids: "ids_ok hs" and i: "i < length hs"
    and new: "started_id h = None \<or> started_id h = started_id (hs ! i) \<or> (\<forall>g\<in>set hs. started_id g \<noteq> started_id h)"
  shows "ids_ok (hs[i := h])"
proof -
  have "started_id ((hs[i := h]) ! a) \<noteq> started_id ((hs[i := h]) ! b)"
    if "a < length hs" "b < length hs" "a \<noteq> b" "started_id ((hs[i := h]) ! a) \<noteq> None" for a b
    using ids_okD [OF ids that(1,2)] that new i by (cases "a = i"; cases "b = i") (auto dest: ids_okD [OF ids])
  then show ?thesis by (auto simp: ids_ok_def)
qed

lemma system_inv_update:
  assumes inv: "system_inv (hs, ld)" and i: "i < length hs"
    and ok: "manager_ok (l_manager ld')" and locals: "locals_ok h"
    and slots: "length (limiter (l_manager ld')) + (if holds_slot (hs ! i) then 1 else 0)
        = length (limiter (l_manager ld)) + (if holds_slot h then 1 else 0)"
    and new: "started_id h = None \<or> started_id h = started_id (hs ! i) \<or> (\<forall>g\<in>set hs. started_id g \<noteq> started_id h)"
    and dom: "dom (containers (l_manager ld')) = (dom (containers (l_manager ld)) - set_option (registered (hs ! i))) \<union> set_option (registered h)"
  shows "system_inv (hs[i := h], ld')"
proof -
  have parts: "length (limiter (l_manager ld)) = length (filter holds_slot hs)" "list_all locals_ok hs" "ids_ok hs"
    "registry_ok hs (l_manager ld)"
    using inv by (simp_all add: system_inv_def)
  have "length (limiter (l_manager ld')) = length (filter holds_slot (hs[i := h]))"
    using length_filter_update [OF i, of holds_slot h] slots parts(1) by (simp split: if_splits)
  moreover have "list_all locals_ok (hs[i := h])"
    using parts(2) locals by (auto simp: list_all_iff dest: set_update_subset_insert [THEN subsetD])
  moreover note ids_update [OF parts(3) i new] registry_update [OF parts(3,4) i dom]
  ultimately show ?thesis using ok by (simp add: system_inv_def)
qed

lemma set_status_simps [simp]:
  "l_manager (set_status env eid st ld) = l_manager ld" "l_world (set_status env eid st ld) = l_world ld"
  "l_files (set_status env eid st ld) = l_files ld" "l_machine (set_status env eid st ld) = l_machine ld"
  by (simp_all add: set_status_def)

lemma handler_begin_ok:
  assumes "env_ok env" and "data_ok data" and "handler_begin env data ld = Inr (h, ld')"
  shows "locals_ok h \<and> \<not> holds_slot h \<and> started_id h = None \<and> l_manager ld' = l_manager ld"
proof (cases "\<exists>err. h = HRejected err")
  case True
  with assms(3) show ?thesis
    by (auto simp: handler_begin_def Let_def split: prod.splits option.splits sum.splits)
next
  case False
  with assms(3) obtain msg compiler profile src m1 where
    msg: "json_Unmarshal store_message data zero_message = (None, msg)" and c: "Compilers_lookup (cm_Language msg) = Some compiler"
    and h: "h = HAcquire msg (sandbox_request (e_tempdir env) msg compiler profile src)"
    and ld': "ld' = set_status env (cm_ID msg) Created (ld\<lparr>l_machine := m1\<rparr>)"
    by (auto simp: handler_begin_def Let_def split: prod.splits option.splits sum.splits)
  have "plain (cm_ID msg)" using assms(2) msg by (simp add: data_ok_def)
  with sandbox_request_ok [OF assms(1) _ c] h ld' show ?thesis by auto
qed

text \<open>The steps that start a container and that read its response.\<close>

lemma run_step_inv:
  assumes inv: "system_inv (hs, ld)" and i: "i < length hs" and h: "hs ! i = HRun msg rq"
    and step: "handler_step env ch (hs ! i) ld = Some (Inr (h', ld'))" and fresh: "fresh_id hs h'"
  shows "system_inv (hs[i := h'], ld')"
proof -
  have ok: "manager_ok (l_manager ld)" using inv by (simp add: system_inv_def)
  have "locals_ok (hs ! i)" using inv i by (simp add: system_inv_def list_all_length)
  then obtain es where rq: "request_ok rq es" using h by auto
  show ?thesis
  proof (cases "\<exists>err. h' = HFailed err")
    case True
    with h step ok show ?thesis by (intro system_inv_update [OF inv i]) (auto split: sum.splits)
  next
    case False
    with h step obtain cid d w where run: "Run (e_docker env) (NewSandboxContainer rq) (l_world ld) = Inr (Inr cid, d, w)"
      "h' = HStore msg rq cid d" "ld' = ld\<lparr>l_world := w\<rparr>"
      by (auto split: sum.splits)
    with Run_live(1) [OF rq run(1)] h ok fresh show ?thesis
      by (intro system_inv_update [OF inv i]) (auto simp: fresh_id_def)
  qed
qed

lemma respond_step_inv:
  assumes inv: "system_inv (hs, ld)" and i: "i < length hs" and h: "hs ! i = HRespond msg rq cid"
    and step: "handler_step env ch (hs ! i) ld = Some (Inr (h', ld'))" and present: "cid \<in> dom (containers (l_manager ld))"
  shows "system_inv (hs[i := h'], ld')"
proof -
  from step h obtain resp s where r: "manager_GetResponse cid (l_manager ld) = Inr (Some resp, s)" "h' = HReceive msg cid resp"
    "l_manager ld' = s"
    by (auto split: sum.splits option.splits)
  have "limiter s = limiter (l_manager ld)" "dom (containers s) = dom (containers (l_manager ld))"
    using r(1) by (auto simp: manager_GetResponse_def getContainer_def split: option.splits sum.splits if_splits)
  moreover have "manager_ok s" using manager_GetResponse_ok [OF _ r(1)] inv by (simp add: system_inv_def)
  ultimately show ?thesis using r(2,3) h present by (intro system_inv_update [OF inv i]) auto
qed

lemma handler_step_inv:
  assumes env: "env_ok env" and inv: "system_inv (hs, ld)" and i: "i < length hs"
    and step: "handler_step env ch (hs ! i) ld = Some (Inr (h, ld'))" and fresh: "fresh_id hs h"
  shows "system_inv (hs[i := h], ld')"
proof -
  have ok: "manager_ok (l_manager ld)" and locals: "locals_ok (hs ! i)"
    and reg: "registry_ok hs (l_manager ld)"
    using inv i by (auto simp: system_inv_def list_all_length)
  have present: "registered (hs ! i) = Some cid \<Longrightarrow> cid \<in> dom (containers (l_manager ld))" for cid
    using reg i by (auto simp: registry_ok_def)
  note upd = system_inv_update [OF inv i]
  show ?thesis
  proof (cases "hs ! i")
    case (HStart data)
    with step locals handler_begin_ok [OF env, of data ld h ld'] started_registered [of h] ok show ?thesis
      by (intro upd) (auto simp: not_Some_eq [symmetric] simp del: not_Some_eq)
  next
    case (HAcquire msg rq)
    with step obtain s where s: "limiter_send (rq_ID rq) (l_manager ld) = Some s" "h = HRun msg rq" "ld' = ld\<lparr>l_manager := s\<rparr>"
      by (auto split: option.splits)
    with lim.acquire_Some [OF s(1)] limiter_send_containers [OF s(1)] manager_ok_send [OF ok s(1)] HAcquire locals
    show ?thesis by (intro upd) auto
  next
    case (HRun msg rq)
    from run_step_inv [OF inv i this step fresh] show ?thesis .
  next
    case (HStore msg rq cid d)
    with step locals ok show ?thesis
      by (intro upd) (auto intro: manager_ok_Store)
  next
    case (HRunning msg rq cid)
    with step ok present show ?thesis by (intro upd) auto
  next
    case (HWait msg rq cid)
    with step ok present show ?thesis by (intro upd) (auto split: choice.splits option.splits if_splits)
  next
    case (HRespond msg rq cid)
    with present have "cid \<in> dom (containers (l_manager ld))" by simp
    from respond_step_inv [OF inv i HRespond step this] show ?thesis .
  next
    case (HReceive msg cid resp)
    with step obtain s where s: "limiter_receive (l_manager ld) = Some s" "h = HDelete msg cid resp" "ld' = ld\<lparr>l_manager := s\<rparr>"
      by (auto split: option.splits)
    with lim.release_Some [OF s(1)] limiter_receive_containers [OF s(1)] manager_ok_receive [OF ok s(1)] HReceive present
    show ?thesis by (intro upd) auto
  next
    case (HDelete msg cid resp)
    with step ok show ?thesis
      by (intro upd) (auto intro: manager_ok_Delete split: if_splits)
  next
    case (HUpdate msg resp)
    with step ok show ?thesis by (intro upd) auto
  qed (use step in auto)
qed

lemma sys_step_inv:
  assumes env: "env_ok env" and "sys_step env x y" and "system_inv x"
  shows "system_inv y"
  using assms(2,3)
proof (cases rule: sys_step.cases)
  case (message data hs ld)
  moreover have "ids_ok (hs @ [HStart data])" if "ids_ok hs"
    using that by (auto simp: ids_ok_def nth_append less_Suc_eq)
  ultimately show ?thesis using assms(3) by (auto simp: system_inv_def registry_ok_def)
next
  case (handler i hs ch ld h ld')
  with handler_step_inv [OF env] assms(3) show ?thesis by simp
next
  case (event p ld s f hs)
  have "manager_ok s" using handle_poll_ok [OF _ event(3)] assms(3) event(1) by (simp add: system_inv_def)
  moreover have "limiter s = limiter (l_manager ld)" "dom (containers s) = dom (containers (l_manager ld))"
    using event(3) by (auto simp: handle_poll_def getContainer_def split: poll.splits option.splits sum.splits if_splits)
  ultimately show ?thesis using assms(3) event(1,2) by (simp add: system_inv_def registry_ok_def)
next
  case (outside hs ld w fl db)
  with assms(3) show ?thesis by (simp add: system_inv_def)
qed

lemma reachable_inv:
  assumes "env_ok env" and "reachable env x"
  shows "system_inv x"
  using assms(2)
proof (induction rule: reachable.induct)
  case (init ld)
  then show ?case by (auto simp: system_inv_def manager_ok_def ids_ok_def registry_ok_def)
next
  case (step x y)
  then show ?case by (blast intro: sys_step_inv [OF assms(1)])
qed

subsection \<open>Counting\<close>

lemma length_filter_mono: "(\<And>x. x \<in> set xs \<Longrightarrow> P x \<Longrightarrow> Q x) \<Longrightarrow> length (filter P xs) \<le> length (filter Q xs)"
  by (induction xs) auto

lemma length_filter_disj: "length (filter (\<lambda>x. P x \<or> Q x) xs) \<le> length (filter P xs) + length (filter Q xs)"
  by (induction xs) auto

lemma started_slot: "started_id h \<noteq> None \<Longrightarrow> holds_slot h \<or> deleting h"
  by (cases h) auto

lemma leaked_slot: "leaked h \<Longrightarrow> holds_slot h"
  by (cases h) auto

lemma card_registered: "card {cid. \<exists>h\<in>set hs. registered h = Some cid} \<le> length (filter (\<lambda>h. registered h \<noteq> None) hs)"
proof -
  have "{cid. \<exists>h\<in>set hs. registered h = Some cid} = (\<lambda>h. the (registered h)) ` set (filter (\<lambda>h. registered h \<noteq> None) hs)"
    by (force simp: image_def)
  moreover have "card (f ` set xs) \<le> length xs" for f :: "handler \<Rightarrow> string" and xs
    using card_image_le [of "set xs" f] card_length [of xs] by simp
  ultimately show ?thesis by metis
qed

lemma card_registry:
  assumes "registry_ok hs s"
  shows "card (dom (containers s)) \<le> length (filter holds_slot hs) + length (filter deleting hs)"
proof -
  have "card (dom (containers s)) \<le> length (filter (\<lambda>h. registered h \<noteq> None) hs)"
    using card_registered assms by (simp add: registry_ok_def)
  also have "\<dots> \<le> length (filter (\<lambda>h. holds_slot h \<or> deleting h) hs)"
    using started_registered started_slot by (intro length_filter_mono) (metis option.exhaust option.distinct(1))
  also have "\<dots> \<le> length (filter holds_slot hs) + length (filter deleting hs)" by (rule length_filter_disj)
  finally show ?thesis .
qed

subsection \<open>Slots that are never given back\<close>

lemma leaked_stuck: "leaked h \<Longrightarrow> handler_step env ch h ld = None"
  by (cases h) auto

lemma cap_step: "sys_step env (hs, ld) (hs', ld') \<Longrightarrow> limiter_cap (l_manager ld') = limiter_cap (l_manager ld)"
proof (erule sys_stepE)
  fix i ch h
  assume "handler_step env ch (hs ! i) ld = Some (Inr (h, ld'))"
  then show ?thesis
    by (cases "hs ! i")
      (auto simp: handler_begin_def Let_def limiter_send_def limiter_receive_def manager_GetResponse_def
        split: prod.splits option.splits sum.splits if_splits choice.splits list.splits)
qed (auto simp: handle_poll_def split: poll.splits option.splits sum.splits)

lemma leaked_step:
  assumes "sys_step env (hs, ld) (hs', ld')"
  shows "length (filter leaked hs) \<le> length (filter leaked hs')"
  using assms
proof (rule sys_stepE)
  fix i ch h
  assume i: "i < length hs" and step: "handler_step env ch (hs ! i) ld = Some (Inr (h, ld'))" and hs': "hs' = hs[i := h]"
  have "\<not> leaked (hs ! i)" using step leaked_stuck [of "hs ! i" env ch ld] by auto
  with length_filter_update [OF i, of leaked h] hs' show ?thesis by (simp split: if_splits)
qed auto

lemma later_leaks:
  assumes "later env x y"
  shows "length (filter leaked (fst x)) \<le> length (filter leaked (fst y)) \<and> limiter_cap (l_manager (snd y)) = limiter_cap (l_manager (snd x))"
  using assms
proof (induction rule: later.induct)
  case (step y z)
  then show ?case using leaked_step [of env "fst y" "snd y" "fst z" "snd z"] cap_step [of env "fst y" "snd y" "fst z" "snd z"] by simp
qed simp

lemma later_reachable: "later env x y \<Longrightarrow> reachable env x \<Longrightarrow> reachable env y"
  by (induction rule: later.induct) (auto intro: reachable.step)

subsection \<open>Concrete data for the witnesses\<close>

definition demo_env :: "(unit, unit, string \<rightharpoonup> Execution) env" where
  "demo_env =
     \<lparr>e_docker = refusing_client,
      e_files = \<lparr>if_WriteFiles = (\<lambda>fls u. ([], u)), if_GetFile = (\<lambda>i n u. (''print(1)'', None))\<rparr>,
      e_repo = table_gorm, e_goos = ''linux'', e_getenv = [], e_tempdir = ''/tmp''\<rparr>"

definition demo_message :: CompileMessage where
  "demo_message = \<lparr>cm_ID = ''r1'', cm_Language = ''python'', cm_StdinData = None, cm_ExpectedStdoutData = Some [''1'']\<rparr>"

definition demo_loader :: "(unit, unit, string \<rightharpoonup> Execution) loader" where
  "demo_loader =
     \<lparr>l_manager = \<lparr>containers = Map.empty, limiter = [], limiter_cap = 1, stopFlag = 0\<rparr>,
      l_world = demo_world, l_files = (), l_db = [''r1'' \<mapsto> zero_execution\<lparr>ex_ID := ''r1''\<rparr>], l_machine = initial_machine\<rparr>"

lemma demo_env_ok: "env_ok demo_env"
  by (simp add: env_ok_def demo_env_def path_elems_def strings_Split_def abs_path_def plain_def)

lemma demo_message_ok: "message_ok demo_message" "plain (cm_ID demo_message)"
  by (simp_all add: message_ok_def demo_message_def plain_def)

lemma demo_compiler: obtains c where "Compilers_lookup (cm_Language demo_message) = Some c"
  by (simp add: Compilers_lookup_def demo_message_def Compilers_def)

lemma demo_data_ok: "data_ok (json_Marshal (encode_message demo_message))"
  using unmarshal_message [OF demo_message_ok(1), of zero_message] demo_message_ok(2) by (simp add: data_ok_def)

lemma demo_daemon: "\<not> null_daemon_file (w_fs (l_world demo_loader))"
  by (simp add: null_daemon_file_def os_ReadFile_def demo_loader_def demo_world_def empty_fs_def Let_def)

lemma demo_begin:
  assumes "machine_ok ''linux'' (l_machine ld)" and "l_world ld = demo_world"
  obtains rq es ld' where "handler_step demo_env TakeComplete (HStart (json_Marshal (encode_message demo_message))) ld = Some (Inr (HAcquire demo_message rq, ld'))"
    "request_ok rq es" "l_manager ld' = l_manager ld" "l_world ld' = demo_world" "machine_ok ''linux'' (l_machine ld')"
proof -
  obtain c where c: "Compilers_lookup (cm_Language demo_message) = Some c" by (rule demo_compiler)
  have m: "machine_ok (e_goos demo_env) (l_machine ld)" using assms(1) by (simp add: demo_env_def)
  have d: "\<not> null_daemon_file (w_fs (l_world ld))" using demo_daemon assms(2) by (simp add: demo_loader_def)
  obtain profile m1 where b: "handler_begin demo_env (json_Marshal (encode_message demo_message)) ld =
       Inr (HAcquire demo_message (sandbox_request (e_tempdir demo_env) demo_message c profile
              (fst (if_GetFile (e_files demo_env) (cm_ID demo_message) (lc_SourceFile c) (l_files ld)))),
            set_status demo_env (cm_ID demo_message) Created (ld\<lparr>l_machine := m1\<rparr>))" "machine_ok (e_goos demo_env) m1"
    using handler_begin_starts [OF demo_message_ok(1) c m, of thesis] d by blast
  then have "machine_ok ''linux'' m1" by (simp add: demo_env_def)
  with b(1) assms(2) show ?thesis
    using that [of _ "set_status demo_env (cm_ID demo_message) Created (ld\<lparr>l_machine := m1\<rparr>)",
        OF _ sandbox_request_ok [OF demo_env_ok demo_message_ok(2) c]]
    by simp
qed

lemma reachable_handler:
  assumes "reachable env (hs, ld)" and "i < length hs" and "handler_step env ch (hs ! i) ld = Some (Inr (h, ld'))" and "fresh_id hs h"
  shows "reachable env (hs[i := h], ld')"
  using assms by (blast intro: reachable.step sys_step.handler)

text \<open>One slot: the first handler fails to start its container, the second waits for the slot.\<close>

lemma demo_leak:
  obtains err rq ld where "reachable demo_env ([HFailed err, HAcquire demo_message rq], ld)" "limiter_cap (l_manager ld) = 1"
proof -
  let ?h = "HStart (json_Marshal (encode_message demo_message))"
  have "reachable demo_env ([], demo_loader)" by (rule reachable.init) (simp_all add: demo_loader_def)
  from reachable.step [OF this sys_step.message [OF demo_data_ok]]
  have "reachable demo_env ([?h], demo_loader)" by simp
  from reachable.step [OF this sys_step.message [OF demo_data_ok]]
  have 0: "reachable demo_env ([?h, ?h], demo_loader)" by simp
  have "machine_ok ''linux'' (l_machine demo_loader)" "l_world demo_loader = demo_world"
    using initial_machine_ok by (simp_all add: demo_loader_def)
  then obtain rq es ld1 where 1: "handler_step demo_env TakeComplete ?h demo_loader = Some (Inr (HAcquire demo_message rq, ld1))"
    "request_ok rq es" "l_manager ld1 = l_manager demo_loader" "l_world ld1 = demo_world" "machine_ok ''linux'' (l_machine ld1)"
    by (rule demo_begin)
  have r1: "reachable demo_env ([HAcquire demo_message rq, ?h], ld1)"
    using reachable_handler [OF 0, of 0 TakeComplete "HAcquire demo_message rq" ld1] 1(1)
    by (simp add: fresh_id_def del: handler_step.simps)
  obtain rq2 es2 ld2 where 2: "handler_step demo_env TakeComplete ?h ld1 = Some (Inr (HAcquire demo_message rq2, ld2))"
    "request_ok rq2 es2" "l_manager ld2 = l_manager ld1"
    by (rule demo_begin [OF 1(5,4)])
  have r2: "reachable demo_env ([HAcquire demo_message rq, HAcquire demo_message rq2], ld2)"
    using reachable_handler [OF r1, of 1 TakeComplete "HAcquire demo_message rq2" ld2] 2(1)
    by (simp add: fresh_id_def del: handler_step.simps)
  define ld3 where "ld3 = ld2\<lparr>l_manager := (l_manager ld2)\<lparr>limiter := [rq_ID rq]\<rparr>\<rparr>"
  have "handler_step demo_env TakeComplete (HAcquire demo_message rq) ld2 = Some (Inr (HRun demo_message rq, ld3))"
    using 1(3) 2(3) by (simp add: ld3_def demo_loader_def limiter_send_def)
  then have r3: "reachable demo_env ([HRun demo_message rq, HAcquire demo_message rq2], ld3)"
    using reachable_handler [OF r2, of 0 TakeComplete "HRun demo_message rq" ld3]
    by (simp add: fresh_id_def del: handler_step.simps)
  have "create_refused (e_docker demo_env)" by (simp add: create_refused_def refusing_client_def demo_env_def)
  then obtain err d w where run: "Run (e_docker demo_env) (NewSandboxContainer rq) (l_world ld3) = Inr (Inl err, d, w)"
    by (rule Run_refused [OF _ 1(2)])
  define ld4 where "ld4 = set_status demo_env (cm_ID demo_message) NonDeterministicError (ld3\<lparr>l_world := w\<rparr>)"
  have "handler_step demo_env TakeComplete (HRun demo_message rq) ld3 =
      Some (Inr (HFailed (Wrap err ''failed to add container to Manager''), ld4))"
    using run by (simp add: ld4_def)
  then have "reachable demo_env ([HFailed (Wrap err ''failed to add container to Manager''), HAcquire demo_message rq2], ld4)"
    using reachable_handler [OF r3, of 0 TakeComplete "HFailed (Wrap err ''failed to add container to Manager'')" ld4]
    by (simp add: fresh_id_def del: handler_step.simps)
  then show ?thesis using that 1(3) 2(3) by (simp add: ld4_def ld3_def demo_loader_def)
qed

lemma demo_closed: obtains d where "live d" "c_complete d = ClosedChan"
proof -
  have "AddDockerEventMessage destroy_event demo_container empty_fs \<noteq> Inl p" for p
    by (auto simp: AddDockerEventMessage_Inl demo_container_def)
  then obtain d f where ev: "AddDockerEventMessage destroy_event demo_container empty_fs = Inr (d, f)"
    by (cases "AddDockerEventMessage destroy_event demo_container empty_fs") auto
  then have "c_complete d = ClosedChan" by (rule destroy_closes) (simp add: destroy_event_def)
  with that live.event [OF demo_container_live ev] show ?thesis by blast
qed

text \<open>What a handler of a reachable state can do.\<close>

lemma handler_enabled:
  assumes "env_ok env" and "reachable env (hs, ld)" and "i < length hs"
  shows "(\<forall>p. handler_step env ch (hs ! i) ld = Some (Inl p) \<longrightarrow> (\<exists>data. hs ! i = HStart data))
         \<and> (handler_step env ch (hs ! i) ld = None \<longrightarrow>
              (\<exists>msg rq. hs ! i = HAcquire msg rq \<and> length (limiter (l_manager ld)) = limiter_cap (l_manager ld))
              \<or> (\<exists>msg rq cid d. hs ! i = HWait msg rq cid \<and> ch = TakeComplete \<and> getContainer cid (l_manager ld) = Some d
                   \<and> c_complete d \<noteq> ClosedChan)
              \<or> hs ! i = HDone \<or> leaked (hs ! i) \<or> (\<exists>err. hs ! i = HRejected err))"
proof -
  have inv: "system_inv (hs, ld)" by (rule reachable_inv [OF assms(1,2)])
  then have ok: "manager_ok (l_manager ld)" and locals: "locals_ok (hs ! i)" and reg: "registry_ok hs (l_manager ld)"
    and slots: "length (limiter (l_manager ld)) = length (filter holds_slot hs)"
    using assms(3) by (auto simp: system_inv_def list_all_length)
  have present: "registered (hs ! i) = Some cid \<Longrightarrow> \<exists>d. getContainer cid (l_manager ld) = Some d" for cid
    using reg assms(3) by (force simp: registry_ok_def getContainer_def)
  show ?thesis
  proof (cases "hs ! i")
    case (HAcquire msg rq)
    then show ?thesis
      using lim.acquire_None_iff [of "l_manager ld" "rq_ID rq"] ok by (auto simp: manager_ok_def split: option.splits)
  next
    case (HRun msg rq)
    with locals obtain es where "request_ok rq es" by auto
    then have "request_ok (c_request (NewSandboxContainer rq)) es" by (simp add: NewSandboxContainer_def)
    then obtain r d w where "Run (e_docker env) (NewSandboxContainer rq) (l_world ld) = Inr (r, d, w)"
      using Run_result [of "NewSandboxContainer rq" es "e_docker env" "l_world ld"] by blast
    with HRun show ?thesis by (auto split: sum.splits)
  next
    case (HWait msg rq cid)
    with present [of cid] show ?thesis by (auto split: choice.splits option.splits)
  next
    case (HRespond msg rq cid)
    then obtain d where d: "getContainer cid (l_manager ld) = Some d" using present by auto
    obtain r d' where "GetResponse d = Inr (r, d')"
      using test_result_live [OF manager_ok_live [OF ok d]] by (simp add: GetResponse_def Let_def)
    with d HRespond show ?thesis by (simp add: manager_GetResponse_def)
  next
    case (HReceive msg cid resp)
    then have "filter holds_slot hs \<noteq> []" using assms(3) by (auto simp: filter_empty_conv dest: nth_mem) (metis holds_slot.simps(6) nth_mem)
    with slots have "length (limiter (l_manager ld)) \<noteq> 0" by simp
    with HReceive lim.release_None_iff [of "l_manager ld"] show ?thesis by (auto split: option.splits)
  qed auto
qed

subsection \<open>Properties\<close>

text \<open>
  C5. In every interleaving of handlers, events and the outside world, the containers that have been
  started and not yet given back never outnumber the configured maximum, and the registry holds
  at most one more container per handler that is just removing its own.
\<close>

theorem loader_bounds_containers:
  assumes "env_ok env" and "reachable env (hs, ld)"
  shows "length (filter (\<lambda>h. started_id h \<noteq> None \<and> \<not> deleting h) hs) \<le> limiter_cap (l_manager ld)
         \<and> card (dom (containers (l_manager ld))) \<le> limiter_cap (l_manager ld) + length (filter deleting hs)"
proof -
  have inv: "system_inv (hs, ld)" by (rule reachable_inv [OF assms])
  then have slots: "length (filter holds_slot hs) \<le> limiter_cap (l_manager ld)"
    by (simp add: system_inv_def manager_ok_def)
  have "length (filter (\<lambda>h. started_id h \<noteq> None \<and> \<not> deleting h) hs) \<le> length (filter holds_slot hs)"
    using started_slot by (intro length_filter_mono) blast
  moreover have "card (dom (containers (l_manager ld))) \<le> length (filter holds_slot hs) + length (filter deleting hs)"
    using inv by (intro card_registry) (simp add: system_inv_def)
  ultimately show ?thesis using slots by linarith
qed

theorem loader_bounds_containers_witness:
  "\<exists>err rq ld. reachable demo_env ([HFailed err, HAcquire demo_message rq], ld) \<and> card (dom (containers (l_manager ld))) \<le> 1"
proof -
  obtain err rq ld where r: "reachable demo_env ([HFailed err, HAcquire demo_message rq], ld)" "limiter_cap (l_manager ld) = 1"
    by (rule demo_leak)
  with loader_bounds_containers [OF demo_env_ok r(1)] show ?thesis by auto
qed

text \<open>
  C8. In a reachable state a handler panics only while it reads its message; after that it is never
  stuck except while the limiter is full, while its container has not completed, or once it has
  returned. In particular giving a slot back never blocks and the response is always there.
\<close>

theorem handler_progress:
  assumes "env_ok env" and "reachable env (hs, ld)" and "i < length hs"
  shows "(\<forall>p. handler_step env ch (hs ! i) ld = Some (Inl p) \<longrightarrow> (\<exists>data. hs ! i = HStart data))
         \<and> (handler_step env ch (hs ! i) ld = None \<longrightarrow>
              (\<exists>msg rq. hs ! i = HAcquire msg rq \<and> length (limiter (l_manager ld)) = limiter_cap (l_manager ld))
              \<or> (\<exists>msg rq cid d. hs ! i = HWait msg rq cid \<and> ch = TakeComplete \<and> getContainer cid (l_manager ld) = Some d
                   \<and> c_complete d \<noteq> ClosedChan)
              \<or> hs ! i = HDone \<or> leaked (hs ! i) \<or> (\<exists>err. hs ! i = HRejected err))"
  by (rule handler_enabled [OF assms])

theorem handler_progress_witness:
  "\<exists>err rq ld. reachable demo_env ([HFailed err, HAcquire demo_message rq], ld)
     \<and> \<not> (\<exists>p. handler_step demo_env TakeComplete (HAcquire demo_message rq) ld = Some (Inl p))"
proof -
  obtain err rq ld where r: "reachable demo_env ([HFailed err, HAcquire demo_message rq], ld)" by (rule demo_leak)
  from handler_progress [OF demo_env_ok r, of 1 TakeComplete]
  have "\<not> (\<exists>p. handler_step demo_env TakeComplete (HAcquire demo_message rq) ld = Some (Inl p))"
    by (simp del: handler_step.simps)
  with r show ?thesis by blast
qed

text \<open>
  C29. Slots leak: a handler whose container fails to start or times out keeps its slot for ever. Once
  as many handlers have ended this way as there are slots, no message is ever handled again.
\<close>

theorem leaked_slots_stop_loader:
  assumes "env_ok env" and "reachable env (hs, ld)" and "length (filter leaked hs) = limiter_cap (l_manager ld)"
    and "later env (hs, ld) (hs', ld')" and "i < length hs'" and "hs' ! i = HAcquire msg rq"
  shows "handler_step env ch (hs' ! i) ld' = None"
proof -
  have "reachable env (hs', ld')" using later_reachable [OF assms(4,2)] .
  then have inv: "system_inv (hs', ld')" by (rule reachable_inv [OF assms(1)])
  have "limiter_cap (l_manager ld') \<le> length (filter leaked hs')"
    using later_leaks [OF assms(4)] assms(3) by simp
  also have "\<dots> \<le> length (filter holds_slot hs')" using leaked_slot by (intro length_filter_mono) blast
  also have "\<dots> = length (limiter (l_manager ld'))" using inv by (simp add: system_inv_def)
  finally have "limiter_send x (l_manager ld') = None" for x by (simp add: limiter_send_def)
  with assms(6) show ?thesis by simp
qed

theorem leaked_slots_stop_loader_witness:
  "\<exists>err rq ld. reachable demo_env ([HFailed err, HAcquire demo_message rq], ld)
     \<and> handler_step demo_env TakeComplete (HAcquire demo_message rq) ld = None"
proof -
  obtain err rq ld where r: "reachable demo_env ([HFailed err, HAcquire demo_message rq], ld)" "limiter_cap (l_manager ld) = 1"
    by (rule demo_leak)
  have "handler_step demo_env TakeComplete ([HFailed err, HAcquire demo_message rq] ! 1) ld = None"
    by (rule leaked_slots_stop_loader [OF demo_env_ok r(1) _ later.refl]) (simp_all add: r(2))
  with r(1) show ?thesis by (auto simp del: handler_step.simps)
qed

text \<open>
  A well-formed message for a supported language is accepted: the handler goes on to
  \<open>AddContainer\<close> with a request for a working directory of its own below the temporary directory,
  the stored source code, the compiler of the language, and a test exactly when the message has
  input or expected output; the row of the execution is marked as created.
\<close>

theorem handler_accepts_message:
  assumes "env_ok env" and "message_ok msg" and "plain (cm_ID msg)" and "Compilers_lookup (cm_Language msg) = Some c"
    and "machine_ok (e_goos env) (l_machine ld)" and "daemonOnce (l_machine ld) \<or> \<not> null_daemon_file (w_fs (l_world ld))"
  shows "\<exists>rq ld'. handler_begin env (json_Marshal (encode_message msg)) ld = Inr (HAcquire msg rq, ld')
           \<and> request_ok rq (path_elems (e_tempdir env) @ [''executions'', ''raw'', cm_ID msg])
           \<and> rq_ID rq = cm_ID msg \<and> rq_Compiler rq = c
           \<and> rq_SourceCode rq = fst (if_GetFile (e_files env) (cm_ID msg) (lc_SourceFile c) (l_files ld))
           \<and> (rq_Test rq = None \<longleftrightarrow> elems (cm_StdinData msg) = [] \<and> elems (cm_ExpectedStdoutData msg) = [])
           \<and> l_db ld' = snd (UpdateExecutionStatus (e_repo env) (cm_ID msg) ''Created'' (l_db ld))
           \<and> l_manager ld' = l_manager ld"
proof -
  obtain p m1 where b: "handler_begin env (json_Marshal (encode_message msg)) ld =
       Inr (HAcquire msg (sandbox_request (e_tempdir env) msg c p (fst (if_GetFile (e_files env) (cm_ID msg) (lc_SourceFile c) (l_files ld)))),
            set_status env (cm_ID msg) Created (ld\<lparr>l_machine := m1\<rparr>))"
    using handler_begin_starts [OF assms(2,4,5,6)] by metis
  have "ContainerStatus_String Created = ''Created''" by code_simp
  with b sandbox_request_ok [OF assms(1,3,4)] show ?thesis
    by (auto simp: sandbox_request_def set_status_def)
qed

theorem handler_accepts_message_witness:
  "\<exists>rq ld'. handler_begin demo_env (json_Marshal (encode_message demo_message)) demo_loader = Inr (HAcquire demo_message rq, ld')
     \<and> rq_SourceCode rq = ''print(1)''"
proof -
  obtain c where c: "Compilers_lookup (cm_Language demo_message) = Some c" by (rule demo_compiler)
  have "machine_ok (e_goos demo_env) (l_machine demo_loader)"
    using initial_machine_ok by (simp add: demo_loader_def)
  from handler_accepts_message [OF demo_env_ok demo_message_ok c this] demo_daemon show ?thesis
    by (auto simp: demo_env_def)
qed

text \<open>
  When its container has completed, the handler reports and returns without error: it takes the
  response of its container, stores the output files, gives its slot back, removes the container
  from the registry and writes status, verdict and measurements to the row of the execution.
\<close>

theorem handler_reports_result:
  assumes "manager_ok (l_manager ld)" and "getContainer cid (l_manager ld) = Some d" and "c_complete d = ClosedChan"
    and "limiter (l_manager ld) \<noteq> []" and "gorm_laws (e_repo env) rows"
  shows "\<exists>resp d' ld'. GetResponse d = Inr (resp, d')
           \<and> handler_steps env 5 (HWait msg rq cid) ld = Some (Inr (HDone, ld')) \<and> handler_result HDone = None
           \<and> length (limiter (l_manager ld)) = Suc (length (limiter (l_manager ld')))
           \<and> containers (l_manager ld') = (containers (l_manager ld))(cid := None)
           \<and> l_files ld' = snd (if_WriteFiles (e_files env) (upload_files rq resp) (l_files ld))
           \<and> (rows (l_db ld') = update_row (cm_ID msg) (execution_columns resp) (rows (l_db ld)) \<or> rows (l_db ld') = rows (l_db ld))"
proof -
  obtain x xs where l: "limiter (l_manager ld) = x # xs" using assms(4) by (cases "limiter (l_manager ld)") auto
  obtain resp d' where r: "GetResponse d = Inr (resp, d')"
    using test_result_live [OF manager_ok_live [OF assms(1,2)]] by (simp add: GetResponse_def Let_def)
  obtain ld' where f: "handler_steps env 5 (HWait msg rq cid) ld = Some (Inr (HDone, ld'))" "limiter (l_manager ld') = xs"
    "containers (l_manager ld') = (containers (l_manager ld))(cid := None)"
    "l_files ld' = snd (if_WriteFiles (e_files env) (upload_files rq resp) (l_files ld))"
    "l_db ld' = snd (UpdateExecution (e_repo env) (cm_ID msg) (execution_columns resp) (l_db ld))"
    using handler_finishes [OF assms(2,3) r l] by blast
  obtain y z db where u: "UpdateExecution (e_repo env) (cm_ID msg) (execution_columns resp) (l_db ld) = ((y, z), db)"
    by (metis prod.exhaust)
  have "rows db = (if z = None then update_row (cm_ID msg) (execution_columns resp) (rows (l_db ld)) else rows (l_db ld))"
    by (rule UpdateExecution_effect(1) [OF assms(5) u])
  with u f(5) have "rows (l_db ld') = update_row (cm_ID msg) (execution_columns resp) (rows (l_db ld)) \<or> rows (l_db ld') = rows (l_db ld)"
    by (cases z) simp_all
  with r f(1-4) l show ?thesis by (simp only: handler_result.simps) auto
qed

theorem handler_reports_result_witness:
  "\<exists>d ld'. handler_steps demo_env 5 (HWait demo_message demo_request ''c1'')
     (demo_loader\<lparr>l_manager := \<lparr>containers = [''c1'' \<mapsto> d], limiter = [''r1''], limiter_cap = 1, stopFlag = 0\<rparr>\<rparr>) = Some (Inr (HDone, ld'))
     \<and> limiter (l_manager ld') = [] \<and> containers (l_manager ld') = Map.empty"
proof -
  obtain d where d: "live d" "c_complete d = ClosedChan" by (rule demo_closed)
  let ?ld = "demo_loader\<lparr>l_manager := \<lparr>containers = [''c1'' \<mapsto> d], limiter = [''r1''], limiter_cap = 1, stopFlag = 0\<rparr>\<rparr>"
  have "manager_ok (l_manager ?ld)" "getContainer ''c1'' (l_manager ?ld) = Some d" "limiter (l_manager ?ld) \<noteq> []"
    using d by (auto simp: manager_ok_def getContainer_def split: if_splits)
  moreover have "gorm_laws (e_repo demo_env) (\<lambda>t. t)" using table_gorm_laws by (simp add: demo_env_def)
  ultimately obtain ld' where "handler_steps demo_env 5 (HWait demo_message demo_request ''c1'') ?ld = Some (Inr (HDone, ld'))"
    "length (limiter (l_manager ?ld)) = Suc (length (limiter (l_manager ld')))"
    "containers (l_manager ld') = (containers (l_manager ?ld))(''c1'' := None)"
    using handler_reports_result [of ?ld "''c1''" d demo_env "\<lambda>t. t" demo_message demo_request] d(2) by blast
  then show ?thesis by (intro exI [of _ d] exI [of _ ld']) (auto simp: fun_eq_iff)
qed

end
