(* ===== verification/Validation_Errors.thy ===== *)
theory Validation_Errors
  imports Go_Strings
begin

text \<open>
  The error types of \<open>internal/gen/pb/content/consumer/v1/consumer.pb.validate.go\<close>. The generator
  writes two of them for every message: one violation with its five accessors and its text, and a
  list of violations with its text. They are the two constructors of \<open>validation_error\<close>, which carry
  the name of the message as the dynamic type; \<open>validation_Error\<close> is the call of the method
  \<open>Error\<close> through the interface. A locale says what the types of one message promise, and every
  message is an instance.
\<close>

subsection \<open>Errors\<close>

datatype validation_error =
    ValidationError (ve_message: string) (ve_field: string) (ve_reason: string)
      (ve_cause: "validation_error option") (ve_key: bool)
  | MultiError (ve_message: string) (AllErrors: "validation_error list")

fun validation_Error :: "validation_error \<Rightarrow> string" where
  "validation_Error (ValidationError msg field reason cause key) =
     ''invalid '' @ (if key then ''key for '' else '''') @ msg @ ''.'' @ field @ '': '' @ reason
     @ (case cause of None \<Rightarrow> '''' | Some e \<Rightarrow> '' | caused by: '' @ validation_Error e)"
| "validation_Error (MultiError msg es) = strings_Join (map validation_Error es) ''; ''"

definition cause_text :: "validation_error option \<Rightarrow> string" where
  "cause_text cause = (case cause of None \<Rightarrow> '''' | Some e \<Rightarrow> '' | caused by: '' @ validation_Error e)"

definition key_text :: "bool \<Rightarrow> string" where
  "key_text key = (if key then ''key for '' else '''')"

subsection \<open>The types of the messages\<close>

definition PingResponseMultiError :: "validation_error list \<Rightarrow> validation_error" where
  [simp]: "PingResponseMultiError errs = MultiError ''PingResponse'' errs"

definition PingResponseMultiError_Error :: "validation_error list \<Rightarrow> string" where
  "PingResponseMultiError_Error m = strings_Join (map validation_Error m) ''; ''"

definition PingResponseValidationError :: "string \<Rightarrow> string \<Rightarrow> validation_error option \<Rightarrow> bool \<Rightarrow> validation_error" where
  [simp]: "PingResponseValidationError field reason cause key = ValidationError ''PingResponse'' field reason cause key"

definition PingResponseValidationError_ErrorName :: string where
  "PingResponseValidationError_ErrorName = ''PingResponseValidationError''"

definition PingResponseValidationError_Error :: "string \<Rightarrow> string \<Rightarrow> validation_error option \<Rightarrow> bool \<Rightarrow> string" where
  "PingResponseValidationError_Error field reason cause key =
     ''invalid '' @ key_text key @ ''PingResponse.'' @ field @ '': '' @ reason @ cause_text cause"

definition GetTemplateRequestMultiError :: "validation_error list \<Rightarrow> validation_error" where
  [simp]: "GetTemplateRequestMultiError errs = MultiError ''GetTemplateRequest'' errs"

definition GetTemplateRequestMultiError_Error :: "validation_error list \<Rightarrow> string" where
  "GetTemplateRequestMultiError_Error m = strings_Join (map validation_Error m) ''; ''"

definition GetTemplateRequestValidationError :: "string \<Rightarrow> string \<Rightarrow> validation_error option \<Rightarrow> bool \<Rightarrow> validation_error" where
  [simp]: "GetTemplateRequestValidationError field reason cause key = ValidationError ''GetTemplateRequest'' field reason cause key"

definition GetTemplateRequestValidationError_ErrorName :: string where
  "GetTemplateRequestValidationError_ErrorName = ''GetTemplateRequestValidationError''"

definition GetTemplateRequestValidationError_Error :: "string \<Rightarrow> string \<Rightarrow> validation_error option \<Rightarrow> bool \<Rightarrow> string" where
  "GetTemplateRequestValidationError_Error field reason cause key =
     ''invalid '' @ key_text key @ ''GetTemplateRequest.'' @ field @ '': '' @ reason @ cause_text cause"

definition GetTemplateResponseMultiError :: "validation_error list \<Rightarrow> validation_error" where
  [simp]: "GetTemplateResponseMultiError errs = MultiError ''GetTemplateResponse'' errs"

definition GetTemplateResponseMultiError_Error :: "validation_error list \<Rightarrow> string" where
  "GetTemplateResponseMultiError_Error m = strings_Join (map validation_Error m) ''; ''"

definition GetTemplateResponseValidationError :: "string \<Rightarrow> string \<Rightarrow> validation_error option \<Rightarrow> bool \<Rightarrow> validation_error" where
  [simp]: "GetTemplateResponseValidationError field reason cause key = ValidationError ''GetTemplateResponse'' field reason cause key"

definition GetTemplateResponseValidationError_ErrorName :: string where
  "GetTemplateResponseValidationError_ErrorName = ''GetTemplateResponseValidationError''"

definition GetTemplateResponseValidationError_Error :: "string \<Rightarrow> string \<Rightarrow> validation_error option \<Rightarrow> bool \<Rightarrow> string" where
  "GetTemplateResponseValidationError_Error field reason cause key =
     ''invalid '' @ key_text key @ ''GetTemplateResponse.'' @ field @ '': '' @ reason @ cause_text cause"

definition SupportedLanguageMultiError :: "validation_error list \<Rightarrow> validation_error" where
  [simp]: "SupportedLanguageMultiError errs = MultiError ''SupportedLanguage'' errs"

definition SupportedLanguageMultiError_Error :: "validation_error list \<Rightarrow> string" where
  "SupportedLanguageMultiError_Error m = strings_Join (map validation_Error m) ''; ''"

definition SupportedLanguageValidationError :: "string \<Rightarrow> string \<Rightarrow> validation_error option \<Rightarrow> bool \<Rightarrow> validation_error" where
  [simp]: "SupportedLanguageValidationError field reason cause key = ValidationError ''SupportedLanguage'' field reason cause key"

definition SupportedLanguageValidationError_ErrorName :: string where
  "SupportedLanguageValidationError_ErrorName = ''SupportedLanguageValidationError''"

definition SupportedLanguageValidationError_Error :: "string \<Rightarrow> string \<Rightarrow> validation_error option \<Rightarrow> bool \<Rightarrow> string" where
  "SupportedLanguageValidationError_Error field reason cause key =
     ''invalid '' @ key_text key @ ''SupportedLanguage.'' @ field @ '': '' @ reason @ cause_text cause"

definition GetSupportedLanguagesResponseMultiError :: "validation_error list \<Rightarrow> validation_error" where
  [simp]: "GetSupportedLanguagesResponseMultiError errs = MultiError ''GetSupportedLanguagesResponse'' errs"

definition GetSupportedLanguagesResponseMultiError_Error :: "validation_error list \<Rightarrow> string" where
  "GetSupportedLanguagesResponseMultiError_Error m = strings_Join (map validation_Error m) ''; ''"

definition GetSupportedLanguagesResponseValidationError :: "string \<Rightarrow> string \<Rightarrow> validation_error option \<Rightarrow> bool \<Rightarrow> validation_error" where
  [simp]: "GetSupportedLanguagesResponseValidationError field reason cause key = ValidationError ''GetSupportedLanguagesResponse'' field reason cause key"

definition GetSupportedLanguagesResponseValidationError_ErrorName :: string where
  "GetSupportedLanguagesResponseValidationError_ErrorName = ''GetSupportedLanguagesResponseValidationError''"

definition GetSupportedLanguagesResponseValidationError_Error :: "string \<Rightarrow> string \<Rightarrow> validation_error option \<Rightarrow> bool \<Rightarrow> string" where
  "GetSupportedLanguagesResponseValidationError_Error field reason cause key =
     ''invalid '' @ key_text key @ ''GetSupportedLanguagesResponse.'' @ field @ '': '' @ reason @ cause_text cause"

definition CreateCompileRequestMultiError :: "validation_error list \<Rightarrow> validation_error" where
  [simp]: "CreateCompileRequestMultiError errs = MultiError ''CreateCompileRequest'' errs"

definition CreateCompileRequestMultiError_Error :: "validation_error list \<Rightarrow> string" where
  "CreateCompileRequestMultiError_Error m = strings_Join (map validation_Error m) ''; ''"

definition CreateCompileRequestValidationError :: "string \<Rightarrow> string \<Rightarrow> validation_error option \<Rightarrow> bool \<Rightarrow> validation_error" where
  [simp]: "CreateCompileRequestValidationError field reason cause key = ValidationError ''CreateCompileRequest'' field reason cause key"

definition CreateCompileRequestValidationError_ErrorName :: string where
  "CreateCompileRequestValidationError_ErrorName = ''CreateCompileRequestValidationError''"

definition CreateCompileRequestValidationError_Error :: "string \<Rightarrow> string \<Rightarrow> validation_error option \<Rightarrow> bool \<Rightarrow> string" where
  "CreateCompileRequestValidationError_Error field reason cause key =
     ''invalid '' @ key_text key @ ''CreateCompileRequest.'' @ field @ '': '' @ reason @ cause_text cause"

definition CreateCompileResponseMultiError :: "validation_error list \<Rightarrow> validation_error" where
  [simp]: "CreateCompileResponseMultiError errs = MultiError ''CreateCompileResponse'' errs"

definition CreateCompileResponseMultiError_Error :: "validation_error list \<Rightarrow> string" where
  "CreateCompileResponseMultiError_Error m = strings_Join (map validation_Error m) ''; ''"

definition CreateCompileResponseValidationError :: "string \<Rightarrow> string \<Rightarrow> validation_error option \<Rightarrow> bool \<Rightarrow> validation_error" where
  [simp]: "CreateCompileResponseValidationError field reason cause key = ValidationError ''CreateCompileResponse'' field reason cause key"

definition CreateCompileResponseValidationError_ErrorName :: string where
  "CreateCompileResponseValidationError_ErrorName = ''CreateCompileResponseValidationError''"

definition CreateCompileResponseValidationError_Error :: "string \<Rightarrow> string \<Rightarrow> validation_error option \<Rightarrow> bool \<Rightarrow> string" where
  "CreateCompileResponseValidationError_Error field reason cause key =
     ''invalid '' @ key_text key @ ''CreateCompileResponse.'' @ field @ '': '' @ reason @ cause_text cause"

definition GetCompileResultRequestMultiError :: "validation_error list \<Rightarrow> validation_error" where
  [simp]: "GetCompileResultRequestMultiError errs = MultiError ''GetCompileResultRequest'' errs"

definition GetCompileResultRequestMultiError_Error :: "validation_error list \<Rightarrow> string" where
  "GetCompileResultRequestMultiError_Error m = strings_Join (map validation_Error m) ''; ''"

definition GetCompileResultRequestValidationError :: "string \<Rightarrow> string \<Rightarrow> validation_error option \<Rightarrow> bool \<Rightarrow> validation_error" where
  [simp]: "GetCompileResultRequestValidationError field reason cause key = ValidationError ''GetCompileResultRequest'' field reason cause key"

definition GetCompileResultRequestValidationError_ErrorName :: string where
  "GetCompileResultRequestValidationError_ErrorName = ''GetCompileResultRequestValidationError''"

definition GetCompileResultRequestValidationError_Error :: "string \<Rightarrow> string \<Rightarrow> validation_error option \<Rightarrow> bool \<Rightarrow> string" where
  "GetCompileResultRequestValidationError_Error field reason cause key =
     ''invalid '' @ key_text key @ ''GetCompileResultRequest.'' @ field @ '': '' @ reason @ cause_text cause"

definition GetCompileResultResponseMultiError :: "validation_error list \<Rightarrow> validation_error" where
  [simp]: "GetCompileResultResponseMultiError errs = MultiError ''GetCompileResultResponse'' errs"

definition GetCompileResultResponseMultiError_Error :: "validation_error list \<Rightarrow> string" where
  "GetCompileResultResponseMultiError_Error m = strings_Join (map validation_Error m) ''; ''"

definition GetCompileResultResponseValidationError :: "string \<Rightarrow> string \<Rightarrow> validation_error option \<Rightarrow> bool \<Rightarrow> validation_error" where
  [simp]: "GetCompileResultResponseValidationError field reason cause key = ValidationError ''GetCompileResultResponse'' field reason cause key"

definition GetCompileResultResponseValidationError_ErrorName :: string where
  "GetCompileResultResponseValidationError_ErrorName = ''GetCompileResultResponseValidationError''"

definition GetCompileResultResponseValidationError_Error :: "string \<Rightarrow> string \<Rightarrow> validation_error option \<Rightarrow> bool \<Rightarrow> string" where
  "GetCompileResultResponseValidationError_Error field reason cause key =
     ''invalid '' @ key_text key @ ''GetCompileResultResponse.'' @ field @ '': '' @ reason @ cause_text cause"

subsection \<open>What the two types of a message promise\<close>

locale message_errors =
  fixes name :: string and mk :: "string \<Rightarrow> string \<Rightarrow> validation_error option \<Rightarrow> bool \<Rightarrow> validation_error"
    and multi :: "validation_error list \<Rightarrow> validation_error"
    and mk_Error :: "string \<Rightarrow> string \<Rightarrow> validation_error option \<Rightarrow> bool \<Rightarrow> string"
    and multi_Error :: "validation_error list \<Rightarrow> string" and ErrorName :: string
  assumes mk_dispatch: "validation_Error (mk field reason cause key) = mk_Error field reason cause key"
    and multi_dispatch: "validation_Error (multi errs) = multi_Error errs"
    and mk_text: "mk_Error field reason cause key =
      ''invalid '' @ key_text key @ name @ ''.'' @ field @ '': '' @ reason @ cause_text cause"
    and multi_text: "multi_Error errs = strings_Join (map validation_Error errs) ''; ''"
    and errors: "AllErrors (multi errs) = errs"
    and error_name: "ErrorName = name @ ''ValidationError''"
begin

text \<open>A plain violation names its message and field, and a list of one reads as that one.\<close>

lemma plain_text: "validation_Error (mk field reason None False) = ''invalid '' @ name @ ''.'' @ field @ '': '' @ reason"
  by (simp add: mk_dispatch mk_text key_text_def cause_text_def)

lemma caused_text:
  "validation_Error (mk field reason (Some e) False) = validation_Error (mk field reason None False) @ '' | caused by: '' @ validation_Error e"
  by (simp add: mk_dispatch mk_text key_text_def cause_text_def)

lemma multi_one: "validation_Error (multi [e]) = validation_Error e"
  by (simp add: multi_dispatch multi_text)

lemma multi_more: "es \<noteq> [] \<Longrightarrow> validation_Error (multi (e # es)) = validation_Error e @ ''; '' @ validation_Error (multi es)"
  by (cases es) (simp_all add: multi_dispatch multi_text)

end

lemmas error_defs = key_text_def cause_text_def

interpretation ping_errors: message_errors "''PingResponse''" PingResponseValidationError PingResponseMultiError
  PingResponseValidationError_Error PingResponseMultiError_Error PingResponseValidationError_ErrorName
  by unfold_locales (simp_all add: error_defs PingResponseValidationError_Error_def PingResponseMultiError_Error_def
      PingResponseValidationError_ErrorName_def)

interpretation template_request_errors: message_errors "''GetTemplateRequest''" GetTemplateRequestValidationError GetTemplateRequestMultiError
  GetTemplateRequestValidationError_Error GetTemplateRequestMultiError_Error GetTemplateRequestValidationError_ErrorName
  by unfold_locales (simp_all add: error_defs GetTemplateRequestValidationError_Error_def GetTemplateRequestMultiError_Error_def
      GetTemplateRequestValidationError_ErrorName_def)

interpretation template_response_errors: message_errors "''GetTemplateResponse''" GetTemplateResponseValidationError GetTemplateResponseMultiError
  GetTemplateResponseValidationError_Error GetTemplateResponseMultiError_Error GetTemplateResponseValidationError_ErrorName
  by unfold_locales (simp_all add: error_defs GetTemplateResponseValidationError_Error_def GetTemplateResponseMultiError_Error_def
      GetTemplateResponseValidationError_ErrorName_def)

interpretation language_errors: message_errors "''SupportedLanguage''" SupportedLanguageValidationError SupportedLanguageMultiError
  SupportedLanguageValidationError_Error SupportedLanguageMultiError_Error SupportedLanguageValidationError_ErrorName
  by unfold_locales (simp_all add: error_defs SupportedLanguageValidationError_Error_def SupportedLanguageMultiError_Error_def
      SupportedLanguageValidationError_ErrorName_def)

interpretation languages_errors: message_errors "''GetSupportedLanguagesResponse''" GetSupportedLanguagesResponseValidationError GetSupportedLanguagesResponseMultiError
  GetSupportedLanguagesResponseValidationError_Error GetSupportedLanguagesResponseMultiError_Error GetSupportedLanguagesResponseValidationError_ErrorName
  by unfold_locales (simp_all add: error_defs GetSupportedLanguagesResponseValidationError_Error_def GetSupportedLanguagesResponseMultiError_Error_def
      GetSupportedLanguagesResponseValidationError_ErrorName_def)

interpretation compile_request_errors: message_errors "''CreateCompileRequest''" CreateCompileRequestValidationError CreateCompileRequestMultiError
  CreateCompileRequestValidationError_Error CreateCompileRequestMultiError_Error CreateCompileRequestValidationError_ErrorName
  by unfold_locales (simp_all add: error_defs CreateCompileRequestValidationError_Error_def CreateCompileRequestMultiError_Error_def
      CreateCompileRequestValidationError_ErrorName_def)

interpretation compile_response_errors: message_errors "''CreateCompileResponse''" CreateCompileResponseValidationError CreateCompileResponseMultiError
  CreateCompileResponseValidationError_Error CreateCompileResponseMultiError_Error CreateCompileResponseValidationError_ErrorName
  by unfold_locales (simp_all add: error_defs CreateCompileResponseValidationError_Error_def CreateCompileResponseMultiError_Error_def
      CreateCompileResponseValidationError_ErrorName_def)

interpretation result_request_errors: message_errors "''GetCompileResultRequest''" GetCompileResultRequestValidationError GetCompileResultRequestMultiError
  GetCompileResultRequestValidationError_Error GetCompileResultRequestMultiError_Error GetCompileResultRequestValidationError_ErrorName
  by unfold_locales (simp_all add: error_defs GetCompileResultRequestValidationError_Error_def GetCompileResultRequestMultiError_Error_def
      GetCompileResultRequestValidationError_ErrorName_def)

interpretation result_response_errors: message_errors "''GetCompileResultResponse''" GetCompileResultResponseValidationError GetCompileResultResponseMultiError
  GetCompileResultResponseValidationError_Error GetCompileResultResponseMultiError_Error GetCompileResultResponseValidationError_ErrorName
  by unfold_locales (simp_all add: error_defs GetCompileResultResponseValidationError_Error_def GetCompileResultResponseMultiError_Error_def
      GetCompileResultResponseValidationError_ErrorName_def)

end
