(* ===== verification/Request_Validation.thy ===== *)
theory Request_Validation
  imports Compilers Go_Json Validation_Errors
begin

text \<open>
  \<open>internal/gen/pb/content/consumer/v1/consumer.pb.validate.go\<close>: the validation of the messages of
  the consumer API, which the gRPC server runs on every request before its handler. The generated
  file repeats one scheme for every message: a method \<open>validate\<close> that collects or returns
  violations, an error type with five accessors, and a type for several errors. The error types are
  the two constructors of \<open>validation_error\<close>, which carry the name of their message. A message is
  a pointer, so its type is an option.
\<close>

subsection \<open>The messages\<close>

record PingResponse = pr_Message :: string

record GetTemplateRequest = gt_Language :: string

record GetTemplateResponse = gt_Template :: string

record SupportedLanguage =
  sl_LanguageCode :: string
  sl_DisplayName :: string

record GetSupportedLanguagesResponse = gs_Languages :: "SupportedLanguage option list"

record CreateCompileRequest =
  cc_Language :: string
  cc_Source :: string
  cc_StandardInData :: "string slice"
  cc_ExpectedStandardOutData :: "string slice"

record CreateCompileResponse = cc_Id :: string

record GetCompileResultRequest = gr_Id :: string

record GetCompileResultResponse =
  gr_Language :: string
  gr_Status :: string
  gr_TestStatus :: string
  gr_CompileMs :: int
  gr_RuntimeMs :: int
  gr_RuntimeMemoryMb :: rat
  gr_Output :: string
  gr_OutputError :: string
  gr_CompilerOutput :: string

subsection \<open>Rules\<close>

text \<open>
  \<open>utf8.RuneCountInString\<close>: a byte that starts no valid sequence counts as one rune.
\<close>

fun RuneCountInString :: "string \<Rightarrow> nat" where
  "RuneCountInString [] = 0"
| "RuneCountInString (c # cs) = Suc (RuneCountInString (drop (utf8_size (c # cs) - 1) cs))"

text \<open>
  The scheme of a \<open>validate\<close> method after its nil check: one element per rule in the order of the
  fields, None when the rule holds, and \<open>multi\<close> converts the list to the message's own type. Without \<open>all\<close> the first violation is returned at once; with
  \<open>all\<close> violations are collected.
\<close>

fun check_rules :: "bool \<Rightarrow> (validation_error list \<Rightarrow> validation_error) \<Rightarrow> validation_error list \<Rightarrow> validation_error option list \<Rightarrow> validation_error option" where
  "check_rules all multi errs [] = (if length errs > 0 then Some (multi errs) else None)"
| "check_rules all multi errs (None # rules) = check_rules all multi errs rules"
| "check_rules all multi errs (Some err # rules) =
     (if \<not> all then Some err else check_rules all multi (errs @ [err]) rules)"

definition GetTemplateRequest_Language_InLookup :: "string list" where
  "GetTemplateRequest_Language_InLookup =
     [''python2'', ''python'', ''node'', ''rust'', ''ruby'', ''go'', ''c'', ''cpp'', ''fsharp'', ''csharp'',
      ''java'', ''kotlin'', ''scala'', ''php'']"

definition CreateCompileRequest_Language_InLookup :: "string list" where
  "CreateCompileRequest_Language_InLookup =
     [''python2'', ''python'', ''node'', ''rust'', ''ruby'', ''go'', ''c'', ''cpp'', ''fsharp'', ''csharp'',
      ''java'', ''kotlin'', ''scala'', ''php'']"

definition language_reason :: string where
  "language_reason = ''value must be in list [python2 python node rust ruby go c cpp fsharp csharp java kotlin scala php]''"

definition PingResponse_validate :: "bool \<Rightarrow> PingResponse option \<Rightarrow> validation_error option" where
  "PingResponse_validate all m = (case m of None \<Rightarrow> None | Some m \<Rightarrow> check_rules all PingResponseMultiError [] [])"

definition PingResponse_Validate :: "PingResponse option \<Rightarrow> validation_error option" where
  "PingResponse_Validate m = PingResponse_validate False m"

definition PingResponse_ValidateAll :: "PingResponse option \<Rightarrow> validation_error option" where
  "PingResponse_ValidateAll m = PingResponse_validate True m"

definition GetTemplateRequest_validate :: "bool \<Rightarrow> GetTemplateRequest option \<Rightarrow> validation_error option" where
  "GetTemplateRequest_validate all m =
     (case m of
        None \<Rightarrow> None
      | Some m \<Rightarrow>
          check_rules all GetTemplateRequestMultiError []
            [if gt_Language m \<notin> set GetTemplateRequest_Language_InLookup
             then Some (GetTemplateRequestValidationError ''Language'' language_reason None False)
             else None])"

definition GetTemplateRequest_Validate :: "GetTemplateRequest option \<Rightarrow> validation_error option" where
  "GetTemplateRequest_Validate m = GetTemplateRequest_validate False m"

definition GetTemplateRequest_ValidateAll :: "GetTemplateRequest option \<Rightarrow> validation_error option" where
  "GetTemplateRequest_ValidateAll m = GetTemplateRequest_validate True m"

definition GetTemplateResponse_validate :: "bool \<Rightarrow> GetTemplateResponse option \<Rightarrow> validation_error option" where
  "GetTemplateResponse_validate all m =
     (case m of None \<Rightarrow> None | Some m \<Rightarrow> check_rules all GetTemplateResponseMultiError [] [])"

definition GetTemplateResponse_Validate :: "GetTemplateResponse option \<Rightarrow> validation_error option" where
  "GetTemplateResponse_Validate m = GetTemplateResponse_validate False m"

definition GetTemplateResponse_ValidateAll :: "GetTemplateResponse option \<Rightarrow> validation_error option" where
  "GetTemplateResponse_ValidateAll m = GetTemplateResponse_validate True m"

definition SupportedLanguage_validate :: "bool \<Rightarrow> SupportedLanguage option \<Rightarrow> validation_error option" where
  "SupportedLanguage_validate all m =
     (case m of None \<Rightarrow> None | Some m \<Rightarrow> check_rules all SupportedLanguageMultiError [] [])"

definition SupportedLanguage_Validate :: "SupportedLanguage option \<Rightarrow> validation_error option" where
  "SupportedLanguage_Validate m = SupportedLanguage_validate False m"

definition SupportedLanguage_ValidateAll :: "SupportedLanguage option \<Rightarrow> validation_error option" where
  "SupportedLanguage_ValidateAll m = SupportedLanguage_validate True m"

definition GetSupportedLanguagesResponse_validate ::
  "bool \<Rightarrow> GetSupportedLanguagesResponse option \<Rightarrow> validation_error option" where
  "GetSupportedLanguagesResponse_validate all m =
     (case m of
        None \<Rightarrow> None
      | Some m \<Rightarrow>
          check_rules all GetSupportedLanguagesResponseMultiError []
            (map (\<lambda>(idx, item).
                map_option (\<lambda>err. GetSupportedLanguagesResponseValidationError
                    (''Languages['' @ strconv_Itoa (int idx) @ '']'')
                    ''embedded message failed validation'' (Some err) False)
                  (if all then SupportedLanguage_ValidateAll item else SupportedLanguage_Validate item))
              (enumerate 0 (gs_Languages m))))"

definition GetSupportedLanguagesResponse_Validate :: "GetSupportedLanguagesResponse option \<Rightarrow> validation_error option" where
  "GetSupportedLanguagesResponse_Validate m = GetSupportedLanguagesResponse_validate False m"

definition GetSupportedLanguagesResponse_ValidateAll :: "GetSupportedLanguagesResponse option \<Rightarrow> validation_error option" where
  "GetSupportedLanguagesResponse_ValidateAll m = GetSupportedLanguagesResponse_validate True m"

definition CreateCompileRequest_validate :: "bool \<Rightarrow> CreateCompileRequest option \<Rightarrow> validation_error option" where
  "CreateCompileRequest_validate all m =
     (case m of
        None \<Rightarrow> None
      | Some m \<Rightarrow>
          check_rules all CreateCompileRequestMultiError []
            [if cc_Language m \<notin> set CreateCompileRequest_Language_InLookup
             then Some (CreateCompileRequestValidationError ''Language'' language_reason None False)
             else None,
             let l = RuneCountInString (cc_Source m)
             in if l < 5 \<or> l > 1024
                then Some (CreateCompileRequestValidationError ''Source''
                       ''value length must be between 5 and 1024 runes, inclusive'' None False)
                else None])"

definition CreateCompileRequest_Validate :: "CreateCompileRequest option \<Rightarrow> validation_error option" where
  "CreateCompileRequest_Validate m = CreateCompileRequest_validate False m"

definition CreateCompileRequest_ValidateAll :: "CreateCompileRequest option \<Rightarrow> validation_error option" where
  "CreateCompileRequest_ValidateAll m = CreateCompileRequest_validate True m"

definition CreateCompileResponse_validate :: "bool \<Rightarrow> CreateCompileResponse option \<Rightarrow> validation_error option" where
  "CreateCompileResponse_validate all m =
     (case m of None \<Rightarrow> None | Some m \<Rightarrow> check_rules all CreateCompileResponseMultiError [] [])"

definition CreateCompileResponse_Validate :: "CreateCompileResponse option \<Rightarrow> validation_error option" where
  "CreateCompileResponse_Validate m = CreateCompileResponse_validate False m"

definition CreateCompileResponse_ValidateAll :: "CreateCompileResponse option \<Rightarrow> validation_error option" where
  "CreateCompileResponse_ValidateAll m = CreateCompileResponse_validate True m"

definition GetCompileResultRequest_validate :: "bool \<Rightarrow> GetCompileResultRequest option \<Rightarrow> validation_error option" where
  "GetCompileResultRequest_validate all m =
     (case m of None \<Rightarrow> None | Some m \<Rightarrow> check_rules all GetCompileResultRequestMultiError [] [])"

definition GetCompileResultRequest_Validate :: "GetCompileResultRequest option \<Rightarrow> validation_error option" where
  "GetCompileResultRequest_Validate m = GetCompileResultRequest_validate False m"

definition GetCompileResultRequest_ValidateAll :: "GetCompileResultRequest option \<Rightarrow> validation_error option" where
  "GetCompileResultRequest_ValidateAll m = GetCompileResultRequest_validate True m"

definition GetCompileResultResponse_validate :: "bool \<Rightarrow> GetCompileResultResponse option \<Rightarrow> validation_error option" where
  "GetCompileResultResponse_validate all m =
     (case m of None \<Rightarrow> None | Some m \<Rightarrow> check_rules all GetCompileResultResponseMultiError [] [])"

definition GetCompileResultResponse_Validate :: "GetCompileResultResponse option \<Rightarrow> validation_error option" where
  "GetCompileResultResponse_Validate m = GetCompileResultResponse_validate False m"

definition GetCompileResultResponse_ValidateAll :: "GetCompileResultResponse option \<Rightarrow> validation_error option" where
  "GetCompileResultResponse_ValidateAll m = GetCompileResultResponse_validate True m"

subsection \<open>Rune counts\<close>

lemma utf8_size_le_4: "utf8_size s \<le> 4"
  by (auto simp: utf8_size_def seq_len_def Let_def split: list.split)

lemma RuneCount_le: "RuneCountInString s \<le> length s"
proof (induction s rule: RuneCountInString.induct)
  case (2 c cs)
  then show ?case by (auto intro: le_trans)
qed simp

lemma RuneCount_bytes: "length s \<le> 4 * RuneCountInString s"
proof (induction s rule: RuneCountInString.induct)
  case (2 c cs)
  then show ?case using utf8_size_le_4 [of "c # cs"] by simp
qed simp

lemma RuneCount_ascii: "list_all is_ascii s \<Longrightarrow> RuneCountInString s = length s"
proof (induction s)
  case (Cons c cs)
  then have "utf8_size (c # cs) = 0"
    using utf8_size_pos(3) [of c cs] by auto
  with Cons show ?case by simp
qed simp

subsection \<open>The scheme\<close>

text \<open>
  The violations of a message; \<open>Validate\<close> gives the first of them and \<open>ValidateAll\<close> all of them.
\<close>

definition violations :: "validation_error option list \<Rightarrow> validation_error list" where
  "violations rules = List.map_filter id rules"

lemma violations_simps [simp]:
  "violations [] = []" "violations (None # rules) = violations rules"
  "violations (Some e # rules) = e # violations rules"
  by (simp_all add: violations_def map_filter_def)

lemma violations_none [simp]: "violations (map (\<lambda>x. None) xs) = []"
  by (induction xs) simp_all

lemma check_rules_first:
  "check_rules False multi [] rules = (case violations rules of [] \<Rightarrow> None | e # es \<Rightarrow> Some e)"
  by (induction "False" multi "[] :: validation_error list" rules rule: check_rules.induct) auto

lemma check_rules_all:
  "check_rules True multi errs rules =
     (if errs @ violations rules = [] then None else Some (multi (errs @ violations rules)))"
  by (induction True multi errs rules rule: check_rules.induct) auto

text \<open>
  The two methods of a message that the validating interceptor of the server and the containing
  messages call. The violations are the same in both modes.
\<close>

locale validated_message = message_errors +
  fixes Validate :: "'m option \<Rightarrow> validation_error option" and ValidateAll :: "'m option \<Rightarrow> validation_error option"
    and rules :: "'m \<Rightarrow> validation_error option list"
  assumes nil_valid: "Validate None = None" "ValidateAll None = None"
    and Validate_rules: "Validate (Some m) = check_rules False multi [] (rules m)"
    and ValidateAll_rules: "ValidateAll (Some m) = check_rules True multi [] (rules m)"
begin

lemma Validate_first: "Validate m = map_option (hd \<circ> AllErrors) (ValidateAll m)"
  by (cases m) (simp_all add: nil_valid Validate_rules ValidateAll_rules check_rules_first check_rules_all errors split: list.split)

lemma same_accepted: "ValidateAll m = None \<longleftrightarrow> Validate m = None"
  by (simp add: Validate_first)

lemma accepted_iff: "Validate (Some m) = None \<longleftrightarrow> violations (rules m) = []"
  by (simp add: Validate_rules check_rules_first split: list.split)

lemma all_text: "ValidateAll (Some m) = Some e \<Longrightarrow> validation_Error e = strings_Join (map validation_Error (violations (rules m))) ''; ''"
  by (auto simp: ValidateAll_rules check_rules_all multi_dispatch multi_text split: if_splits)

end

text \<open>The rules of the two requests the server checks.\<close>

definition template_rules :: "GetTemplateRequest \<Rightarrow> validation_error option list" where
  "template_rules m =
     [if gt_Language m \<notin> set GetTemplateRequest_Language_InLookup
      then Some (GetTemplateRequestValidationError ''Language'' language_reason None False)
      else None]"

definition compile_rules :: "CreateCompileRequest \<Rightarrow> validation_error option list" where
  "compile_rules m =
     [if cc_Language m \<notin> set CreateCompileRequest_Language_InLookup
      then Some (CreateCompileRequestValidationError ''Language'' language_reason None False)
      else None,
      let l = RuneCountInString (cc_Source m)
      in if l < 5 \<or> l > 1024
         then Some (CreateCompileRequestValidationError ''Source''
                ''value length must be between 5 and 1024 runes, inclusive'' None False)
         else None]"

lemma SupportedLanguage_valid: "SupportedLanguage_Validate l = None" "SupportedLanguage_ValidateAll l = None"
  by (simp_all add: SupportedLanguage_Validate_def SupportedLanguage_ValidateAll_def SupportedLanguage_validate_def split: option.split)

text \<open>Every message is an instance; seven of them have no rule that can be violated.\<close>

interpretation ping: validated_message "''PingResponse''" PingResponseValidationError PingResponseMultiError
  PingResponseValidationError_Error PingResponseMultiError_Error PingResponseValidationError_ErrorName
  PingResponse_Validate PingResponse_ValidateAll "\<lambda>m. []"
  by unfold_locales (simp_all add: PingResponse_Validate_def PingResponse_ValidateAll_def PingResponse_validate_def)

interpretation template_request: validated_message "''GetTemplateRequest''" GetTemplateRequestValidationError GetTemplateRequestMultiError
  GetTemplateRequestValidationError_Error GetTemplateRequestMultiError_Error GetTemplateRequestValidationError_ErrorName
  GetTemplateRequest_Validate GetTemplateRequest_ValidateAll "template_rules"
  by unfold_locales (simp_all add: GetTemplateRequest_Validate_def GetTemplateRequest_ValidateAll_def GetTemplateRequest_validate_def template_rules_def)

interpretation template_response: validated_message "''GetTemplateResponse''" GetTemplateResponseValidationError GetTemplateResponseMultiError
  GetTemplateResponseValidationError_Error GetTemplateResponseMultiError_Error GetTemplateResponseValidationError_ErrorName
  GetTemplateResponse_Validate GetTemplateResponse_ValidateAll "\<lambda>m. []"
  by unfold_locales (simp_all add: GetTemplateResponse_Validate_def GetTemplateResponse_ValidateAll_def GetTemplateResponse_validate_def)

interpretation language: validated_message "''SupportedLanguage''" SupportedLanguageValidationError SupportedLanguageMultiError
  SupportedLanguageValidationError_Error SupportedLanguageMultiError_Error SupportedLanguageValidationError_ErrorName
  SupportedLanguage_Validate SupportedLanguage_ValidateAll "\<lambda>m. []"
  by unfold_locales (simp_all add: SupportedLanguage_Validate_def SupportedLanguage_ValidateAll_def SupportedLanguage_validate_def)

interpretation languages: validated_message "''GetSupportedLanguagesResponse''" GetSupportedLanguagesResponseValidationError GetSupportedLanguagesResponseMultiError
  GetSupportedLanguagesResponseValidationError_Error GetSupportedLanguagesResponseMultiError_Error GetSupportedLanguagesResponseValidationError_ErrorName
  GetSupportedLanguagesResponse_Validate GetSupportedLanguagesResponse_ValidateAll "\<lambda>m. map (\<lambda>x. None) (gs_Languages m)"
  by unfold_locales (simp_all add: GetSupportedLanguagesResponse_Validate_def GetSupportedLanguagesResponse_ValidateAll_def GetSupportedLanguagesResponse_validate_def SupportedLanguage_valid case_prod_unfold map_replicate_const)

interpretation compile_request: validated_message "''CreateCompileRequest''" CreateCompileRequestValidationError CreateCompileRequestMultiError
  CreateCompileRequestValidationError_Error CreateCompileRequestMultiError_Error CreateCompileRequestValidationError_ErrorName
  CreateCompileRequest_Validate CreateCompileRequest_ValidateAll "compile_rules"
  by unfold_locales (simp_all add: CreateCompileRequest_Validate_def CreateCompileRequest_ValidateAll_def CreateCompileRequest_validate_def compile_rules_def)

interpretation compile_response: validated_message "''CreateCompileResponse''" CreateCompileResponseValidationError CreateCompileResponseMultiError
  CreateCompileResponseValidationError_Error CreateCompileResponseMultiError_Error CreateCompileResponseValidationError_ErrorName
  CreateCompileResponse_Validate CreateCompileResponse_ValidateAll "\<lambda>m. []"
  by unfold_locales (simp_all add: CreateCompileResponse_Validate_def CreateCompileResponse_ValidateAll_def CreateCompileResponse_validate_def)

interpretation result_request: validated_message "''GetCompileResultRequest''" GetCompileResultRequestValidationError GetCompileResultRequestMultiError
  GetCompileResultRequestValidationError_Error GetCompileResultRequestMultiError_Error GetCompileResultRequestValidationError_ErrorName
  GetCompileResultRequest_Validate GetCompileResultRequest_ValidateAll "\<lambda>m. []"
  by unfold_locales (simp_all add: GetCompileResultRequest_Validate_def GetCompileResultRequest_ValidateAll_def GetCompileResultRequest_validate_def)

interpretation result_response: validated_message "''GetCompileResultResponse''" GetCompileResultResponseValidationError GetCompileResultResponseMultiError
  GetCompileResultResponseValidationError_Error GetCompileResultResponseMultiError_Error GetCompileResultResponseValidationError_ErrorName
  GetCompileResultResponse_Validate GetCompileResultResponse_ValidateAll "\<lambda>m. []"
  by unfold_locales (simp_all add: GetCompileResultResponse_Validate_def GetCompileResultResponse_ValidateAll_def GetCompileResultResponse_validate_def)

lemma lookup_lists:
  "set GetTemplateRequest_Language_InLookup = set (map fst Compilers)"
  "set CreateCompileRequest_Language_InLookup = set (map fst Compilers)"
  by code_simp+

lemma in_lookup_lists:
  "l \<in> set GetTemplateRequest_Language_InLookup \<longleftrightarrow> Compilers_lookup l \<noteq> None"
  "l \<in> set CreateCompileRequest_Language_InLookup \<longleftrightarrow> Compilers_lookup l \<noteq> None"
  by (simp_all only: lookup_lists Compilers_lookup_dom)

text \<open>What a client can rely on: the rules of the two requests the server checks.\<close>

definition compile_request_ok :: "CreateCompileRequest \<Rightarrow> bool" where
  "compile_request_ok m \<longleftrightarrow>
     Compilers_lookup (cc_Language m) \<noteq> None
     \<and> 5 \<le> RuneCountInString (cc_Source m) \<and> RuneCountInString (cc_Source m) \<le> 1024"

lemma CreateCompileRequest_Validate_iff: "CreateCompileRequest_Validate (Some m) = None \<longleftrightarrow> compile_request_ok m"
  by (auto simp: CreateCompileRequest_Validate_def CreateCompileRequest_validate_def compile_request_ok_def
      in_lookup_lists Let_def)

lemma GetTemplateRequest_Validate_iff:
  "GetTemplateRequest_Validate (Some m) = None \<longleftrightarrow> Compilers_lookup (gt_Language m) \<noteq> None"
  by (auto simp: GetTemplateRequest_Validate_def GetTemplateRequest_validate_def in_lookup_lists)

lemma responses_always_valid:
  "PingResponse_Validate p = None" "GetTemplateResponse_Validate t = None" "SupportedLanguage_Validate l = None"
  "GetSupportedLanguagesResponse_Validate ls = None" "CreateCompileResponse_Validate c = None"
  "GetCompileResultRequest_Validate g = None" "GetCompileResultResponse_Validate r = None"
  by (cases p; cases t; cases l; cases ls; cases c; cases g; cases r;
      simp add: ping.nil_valid ping.accepted_iff template_response.nil_valid template_response.accepted_iff
        language.nil_valid language.accepted_iff languages.nil_valid languages.accepted_iff
        compile_response.nil_valid compile_response.accepted_iff result_request.nil_valid result_request.accepted_iff
        result_response.nil_valid result_response.accepted_iff)+

subsection \<open>Properties\<close>

text \<open>
  C17. A compile request passes the validation exactly when its language is one of the table and its
  source has 5 to 1024 runes, so that it has 5 to 4096 bytes; \<open>Validate\<close> and \<open>ValidateAll\<close> accept the
  same requests, and the error of \<open>Validate\<close> is the first of the errors of \<open>ValidateAll\<close>.
\<close>

theorem CreateCompileRequest_validates:
  "(CreateCompileRequest_Validate (Some m) = None \<longleftrightarrow>
      Compilers_lookup (cc_Language m) \<noteq> None
      \<and> 5 \<le> RuneCountInString (cc_Source m) \<and> RuneCountInString (cc_Source m) \<le> 1024)
   \<and> (CreateCompileRequest_Validate (Some m) = None \<longrightarrow>
        5 \<le> length (cc_Source m) \<and> length (cc_Source m) \<le> 4096)
   \<and> CreateCompileRequest_Validate (Some m) =
       map_option (hd \<circ> AllErrors) (CreateCompileRequest_ValidateAll (Some m))"
proof (intro conjI)
  show iff: "CreateCompileRequest_Validate (Some m) = None \<longleftrightarrow>
      Compilers_lookup (cc_Language m) \<noteq> None
      \<and> 5 \<le> RuneCountInString (cc_Source m) \<and> RuneCountInString (cc_Source m) \<le> 1024"
    by (simp add: CreateCompileRequest_Validate_iff compile_request_ok_def)
  show "CreateCompileRequest_Validate (Some m) = None \<longrightarrow> 5 \<le> length (cc_Source m) \<and> length (cc_Source m) \<le> 4096"
    unfolding iff using RuneCount_le [of "cc_Source m"] RuneCount_bytes [of "cc_Source m"] by linarith
qed (rule compile_request.Validate_first)

theorem CreateCompileRequest_validates_witness:
  "CreateCompileRequest_Validate (Some \<lparr>cc_Language = ''go'', cc_Source = ''print'', cc_StandardInData = None,
       cc_ExpectedStandardOutData = None\<rparr>) = None
   \<and> length ''print'' \<le> 4096"
  using CreateCompileRequest_validates [of "\<lparr>cc_Language = ''go'', cc_Source = ''print'', cc_StandardInData = None,
       cc_ExpectedStandardOutData = None\<rparr>"]
  by (simp add: CreateCompileRequest_Validate_def CreateCompileRequest_validate_def
      CreateCompileRequest_Language_InLookup_def utf8_size_def seq_len_def byte_in_def Let_def)

end
