(* ===== verification/Consumer_Api.thy ===== *)
theory Consumer_Api
  imports Queue_Handler Request_Validation "HOL-Library.List_Lexorder" "HOL-Library.Char_ord"
begin

text \<open>
  \<open>internal/api/consumer/server.go\<close>: the methods of the API server, and the gRPC glue of
  \<open>consumer_grpc.pb.go\<close> that connects them to the service. The file store, the repository and the
  queue are the interface values of the server; \<open>uuid.Parse\<close> and the fresh id of \<open>uuid.NewString\<close> are
  arguments. A method returns a panic or its result, an error or a response, with the new state.
\<close>

subsection \<open>The server\<close>

record ('f, 'q, 'db) server =
  sv_WriteFile :: "File \<Rightarrow> 'f \<Rightarrow> error option \<times> 'f"
  sv_GetFile :: "string \<Rightarrow> string \<Rightarrow> 'f \<Rightarrow> bytes \<times> error option"
  sv_Repo :: "'db gorm"
  sv_SubmitMessageToQueue :: "bytes \<Rightarrow> 'q \<Rightarrow> error option \<times> 'q"

record ('f, 'q, 'db) api =
  a_files :: 'f
  a_queue :: 'q
  a_db :: 'db

type_synonym ('r, 'f, 'q, 'db) api_result = "panic + ((error + 'r) \<times> ('f, 'q, 'db) api)"

subsection \<open>Reading a result\<close>

text \<open>\<open>if data, err := GetFile(id, name); err == nil { field = string(data) }\<close> for a field that is empty.\<close>

definition read_or_empty :: "('f, 'q, 'db) server \<Rightarrow> string \<Rightarrow> string \<Rightarrow> ('f, 'q, 'db) api \<Rightarrow> string" where
  "read_or_empty sv rid name st =
     (case sv_GetFile sv rid name (a_files st) of (data, None) \<Rightarrow> data | (data, Some err) \<Rightarrow> [])"

definition is_RecordNotFound :: "error \<Rightarrow> bool" where
  "is_RecordNotFound e \<longleftrightarrow> e = ErrRecordNotFound"

definition Server_GetCompileResultRequest ::
  "('f, 'q, 'db) server \<Rightarrow> (string \<Rightarrow> error + string) \<Rightarrow> GetCompileResultRequest \<Rightarrow> ('f, 'q, 'db) api
    \<Rightarrow> (GetCompileResultResponse, 'f, 'q, 'db) api_result" where
  "Server_GetCompileResultRequest sv uuid_Parse rq st =
     (case uuid_Parse (gr_Id rq) of
        Inl err \<Rightarrow> Inr (Inl (Errorf ''failed to parse id value''), st)
      | Inr rid \<Rightarrow>
          (case GetExecution (sv_Repo sv) rid (a_db st) of
             (execution, err) \<Rightarrow>
               if (case err of None \<Rightarrow> False | Some e \<Rightarrow> errors_Is e is_RecordNotFound)
               then Inr (Inl (Errorf ''the execution does not exist by the provided id''), st)
               else case Compilers_lookup (ex_Language execution) of
                      None \<Rightarrow> Inl NilDereference
                    | Some compiler \<Rightarrow>
                        Inr (Inr \<lparr>gr_Language = ex_Language execution, gr_Status = ex_Status execution,
                               gr_TestStatus = ex_TestStatus execution, gr_CompileMs = ex_CompileMs execution,
                               gr_RuntimeMs = ex_RuntimeMs execution, gr_RuntimeMemoryMb = ex_RuntimeMemoryMb execution,
                               gr_Output = read_or_empty sv rid (lc_OutputFile compiler) st,
                               gr_OutputError = read_or_empty sv rid (lc_OutputErrFile compiler) st,
                               gr_CompilerOutput = read_or_empty sv rid (lc_CompilerOutputFile compiler) st\<rparr>, st)))"

subsection \<open>Creating a compile request\<close>

definition compile_message :: "string \<Rightarrow> CreateCompileRequest \<Rightarrow> CompileMessage" where
  "compile_message requestID direct =
     \<lparr>cm_ID = requestID, cm_Language = cc_Language direct, cm_StdinData = cc_StandardInData direct,
      cm_ExpectedStdoutData = cc_ExpectedStandardOutData direct\<rparr>"

definition new_execution :: "string \<Rightarrow> CreateCompileRequest \<Rightarrow> Execution" where
  "new_execution requestID direct =
     zero_execution\<lparr>ex_ID := requestID, ex_Language := cc_Language direct,
       ex_Status := ContainerStatus_String NotRan, ex_TestStatus := ContainerTestStatus_String TestNotRan\<rparr>"

text \<open>
  The method up to and including the submission to the queue, and its rest. Between the two the
  loader, which shares the queue, the file store and the database, can already run.
\<close>

definition create_submit ::
  "('f, 'q, 'db) server \<Rightarrow> string \<Rightarrow> CreateCompileRequest \<Rightarrow> ('f, 'q, 'db) api
    \<Rightarrow> panic + (error option \<times> ('f, 'q, 'db) api)" where
  "create_submit sv requestID direct st =
     (case Compilers_lookup (cc_Language direct) of
        None \<Rightarrow> Inl NilDereference
      | Some compiler \<Rightarrow>
          let st1 = st\<lparr>a_files := snd (sv_WriteFile sv
                        \<lparr>f_ID = requestID, f_Name = lc_SourceFile compiler, f_Data = cc_Source direct\<rparr> (a_files st))\<rparr>
          in case sv_SubmitMessageToQueue sv (json_Marshal (encode_message (compile_message requestID direct))) (a_queue st1) of
               (err, q) \<Rightarrow> Inr (err, st1\<lparr>a_queue := q\<rparr>))"

definition create_insert ::
  "('f, 'q, 'db) server \<Rightarrow> string \<Rightarrow> CreateCompileRequest \<Rightarrow> ('f, 'q, 'db) api
    \<Rightarrow> (error + CreateCompileResponse) \<times> ('f, 'q, 'db) api" where
  "create_insert sv requestID direct st =
     (case InsertExecution (sv_Repo sv) (new_execution requestID direct) (a_db st) of
        (Some dbErr, db) \<Rightarrow> (Inl (Errorf ''failed to create execution record''), st\<lparr>a_db := db\<rparr>)
      | (None, db) \<Rightarrow> (Inr \<lparr>cc_Id = requestID\<rparr>, st\<lparr>a_db := db\<rparr>))"

definition Server_CreateCompileRequest ::
  "('f, 'q, 'db) server \<Rightarrow> string \<Rightarrow> CreateCompileRequest \<Rightarrow> ('f, 'q, 'db) api
    \<Rightarrow> (CreateCompileResponse, 'f, 'q, 'db) api_result" where
  "Server_CreateCompileRequest sv requestID direct st =
     (case create_submit sv requestID direct st of
        Inl p \<Rightarrow> Inl p
      | Inr (Some err, st1) \<Rightarrow> Inr (Inl (Errorf ''failed to execute compile request''), st1)
      | Inr (None, st1) \<Rightarrow> Inr (create_insert sv requestID direct st1))"

subsection \<open>Languages and templates\<close>

definition supported_language :: "string \<times> LanguageCompiler \<Rightarrow> SupportedLanguage" where
  "supported_language = (\<lambda>(langCode, compiler).
     \<lparr>sl_LanguageCode = langCode,
      sl_DisplayName =
        (if lc_Compiler compiler \<noteq> [] \<and> \<not> strings_EqualFold (lc_Compiler compiler) langCode
         then lc_Language compiler @ '' ('' @ lc_Compiler compiler @ '')'' else lc_Language compiler)\<rparr>)"

text \<open>\<open>order\<close> is the order in which the table is iterated; strings are compared byte by byte.\<close>

definition Server_GetSupportedLanguages :: "(string \<times> LanguageCompiler) list \<Rightarrow> GetSupportedLanguagesResponse" where
  "Server_GetSupportedLanguages order =
     \<lparr>gs_Languages = map Some (sort_key sl_DisplayName (map supported_language order))\<rparr>"

definition Server_GetTemplate :: "template_state \<Rightarrow> GetTemplateRequest \<Rightarrow> error + GetTemplateResponse" where
  "Server_GetTemplate ts rq =
     (case CompilerTemplate ts (gt_Language rq) of
        Some template \<Rightarrow> Inr \<lparr>gt_Template = template\<rparr>
      | None \<Rightarrow> Inl (Errorf (''template for langauge `'' @ gt_Language rq @ ''` does not exist'')))"

definition Server_Ping :: PingResponse where
  "Server_Ping = \<lparr>pr_Message = ''ping''\<rparr>"

subsection \<open>The gRPC service\<close>

text \<open>
  The server embeds \<open>UnimplementedConsumerServiceServer\<close> and does not declare methods with the names
  \<open>CreateCompile\<close> and \<open>GetCompileResult\<close> of the service, so those two are the embedded ones.
\<close>

definition Unimplemented :: "string \<Rightarrow> error" where
  "Unimplemented name = ClientError (''rpc error: code = Unimplemented desc = method '' @ name @ '' not implemented'')"

definition Server_CreateCompile :: "CreateCompileRequest \<Rightarrow> 's \<Rightarrow> panic + ((error + CreateCompileResponse) \<times> 's)" where
  "Server_CreateCompile rq st = Inr (Inl (Unimplemented ''CreateCompile''), st)"

definition Server_GetCompileResult :: "GetCompileResultRequest \<Rightarrow> 's \<Rightarrow> panic + ((error + GetCompileResultResponse) \<times> 's)" where
  "Server_GetCompileResult rq st = Inr (Inl (Unimplemented ''GetCompileResult''), st)"

text \<open>A handler of the service: decode, then call the method directly or through the interceptor.\<close>

type_synonym ('i, 'r, 's) rpc_method = "'i \<Rightarrow> 's \<Rightarrow> panic + ((error + 'r) \<times> 's)"

type_synonym ('i, 'r, 's) interceptor = "'i \<Rightarrow> ('i, 'r, 's) rpc_method \<Rightarrow> 's \<Rightarrow> panic + ((error + 'r) \<times> 's)"

definition unary_handler ::
  "error + 'i \<Rightarrow> ('i, 'r, 's) interceptor option \<Rightarrow> ('i, 'r, 's) rpc_method \<Rightarrow> 's \<Rightarrow> panic + ((error + 'r) \<times> 's)" where
  "unary_handler dec i method_call st =
     (case dec of
        Inl err \<Rightarrow> Inr (Inl err, st)
      | Inr rq \<Rightarrow> (case i of None \<Rightarrow> method_call rq st | Some f \<Rightarrow> f rq method_call st))"

definition ConsumerService_CreateCompile_Handler ::
  "error + CreateCompileRequest \<Rightarrow> (CreateCompileRequest, CreateCompileResponse, 's) interceptor option \<Rightarrow> 's
    \<Rightarrow> panic + ((error + CreateCompileResponse) \<times> 's)" where
  "ConsumerService_CreateCompile_Handler dec i st = unary_handler dec i Server_CreateCompile st"

definition ConsumerService_GetCompileResult_Handler ::
  "error + GetCompileResultRequest \<Rightarrow> (GetCompileResultRequest, GetCompileResultResponse, 's) interceptor option \<Rightarrow> 's
    \<Rightarrow> panic + ((error + GetCompileResultResponse) \<times> 's)" where
  "ConsumerService_GetCompileResult_Handler dec i st = unary_handler dec i Server_GetCompileResult st"

definition ConsumerService_GetTemplate_Handler ::
  "template_state \<Rightarrow> error + GetTemplateRequest \<Rightarrow> (GetTemplateRequest, GetTemplateResponse, 's) interceptor option \<Rightarrow> 's
    \<Rightarrow> panic + ((error + GetTemplateResponse) \<times> 's)" where
  "ConsumerService_GetTemplate_Handler ts dec i st = unary_handler dec i (\<lambda>rq st. Inr (Server_GetTemplate ts rq, st)) st"

definition ConsumerService_Ping_Handler ::
  "error + unit \<Rightarrow> (unit, PingResponse, 's) interceptor option \<Rightarrow> 's \<Rightarrow> panic + ((error + PingResponse) \<times> 's)" where
  "ConsumerService_Ping_Handler dec i st = unary_handler dec i (\<lambda>rq st. Inr (Inr Server_Ping, st)) st"

definition ConsumerService_GetSupportedLanguages_Handler ::
  "(string \<times> LanguageCompiler) list \<Rightarrow> error + unit \<Rightarrow> (unit, GetSupportedLanguagesResponse, 's) interceptor option \<Rightarrow> 's
    \<Rightarrow> panic + ((error + GetSupportedLanguagesResponse) \<times> 's)" where
  "ConsumerService_GetSupportedLanguages_Handler order dec i st =
     unary_handler dec i (\<lambda>rq st. Inr (Inr (Server_GetSupportedLanguages order), st)) st"

text \<open>
  The interceptors the server is started with, \<open>grpc_validator\<close> and \<open>grpc_recovery\<close>, as they are
  documented: a request that fails its validation is answered with an error and the method is not
  called; otherwise the method's result is the result, and its panic becomes an error.
\<close>

definition validating :: "('i \<Rightarrow> 'e option) \<Rightarrow> ('i, 'r, 's) interceptor \<Rightarrow> bool" where
  "validating validate i \<longleftrightarrow>
     (\<forall>rq h st.
        (validate rq \<noteq> None \<longrightarrow> (\<exists>e. i rq h st = Inr (Inl e, st)))
        \<and> (validate rq = None \<longrightarrow>
             (case h rq st of Inr r \<Rightarrow> i rq h st = Inr r | Inl p \<Rightarrow> (\<exists>e st'. i rq h st = Inr (Inl e, st')))))"

lemma validating_rejects: "validating v i \<Longrightarrow> v rq \<noteq> None \<Longrightarrow> \<exists>e. i rq h st = Inr (Inl e, st)"
  unfolding validating_def by blast

lemma validating_passes: "validating v i \<Longrightarrow> v rq = None \<Longrightarrow> h rq st = Inr r \<Longrightarrow> i rq h st = Inr r"
  unfolding validating_def by (drule spec [of _ rq], drule spec [of _ h], drule spec [of _ st]) simp

lemma validating_error:
  assumes "validating v i" and "h rq st = Inr (Inl e, st)"
  shows "\<exists>e. i rq h st = Inr (Inl e, st)"
  using validating_rejects [OF assms(1), of rq h st] validating_passes [OF assms(1), of rq h st, OF _ assms(2)] by blast

subsection \<open>The list of languages\<close>

lemma display_names_distinct: "distinct (map (sl_DisplayName \<circ> supported_language) Compilers)"
  by code_simp

lemma supported_inj:
  assumes "mset order = mset Compilers"
  shows "inj_on sl_DisplayName (set (map supported_language order))"
proof -
  have "set order = set Compilers" using assms by (metis set_mset_mset)
  then show ?thesis
    using display_names_distinct by (auto simp: distinct_map inj_on_def)
qed

lemma supported_sorted:
  assumes "mset order = mset Compilers"
  shows "sorted_wrt (<) (map sl_DisplayName (sort_key sl_DisplayName (map supported_language order)))"
proof -
  have "distinct order" using assms distinct_Compilers by (metis distinct_map mset_eq_imp_distinct_iff)
  moreover have "inj_on (sl_DisplayName \<circ> supported_language) (set order)"
    using assms display_names_distinct by (metis distinct_map mset_eq_setD)
  ultimately have "distinct (map (sl_DisplayName \<circ> supported_language) order)"
    by (simp add: distinct_map)
  then have d: "distinct (map sl_DisplayName (map supported_language order))" by simp
  then have "distinct (map supported_language order)" unfolding distinct_map [of sl_DisplayName] by (rule conjunct1)
  with d have "distinct (map sl_DisplayName (sort_key sl_DisplayName (map supported_language order)))"
    unfolding distinct_map [of sl_DisplayName] by simp
  then show ?thesis by (simp add: strict_sorted_iff)
qed

subsection \<open>Creating a request\<close>

lemma create_submit_simps:
  assumes "Compilers_lookup (cc_Language direct) = Some c"
  shows "create_submit sv requestID direct st =
     (case sv_SubmitMessageToQueue sv (json_Marshal (encode_message (compile_message requestID direct))) (a_queue st) of
        (err, q) \<Rightarrow>
          Inr (err, st\<lparr>a_files := snd (sv_WriteFile sv \<lparr>f_ID = requestID, f_Name = lc_SourceFile c, f_Data = cc_Source direct\<rparr> (a_files st)),
                       a_queue := q\<rparr>))"
  by (simp add: create_submit_def assms)

lemma compile_request_lookup:
  assumes "compile_request_ok direct"
  obtains c where "Compilers_lookup (cc_Language direct) = Some c" "compiler_ok c"
  using assms Compilers_ok by (auto simp: compile_request_ok_def)

definition request_strings_ok :: "string \<Rightarrow> CreateCompileRequest \<Rightarrow> bool" where
  "request_strings_ok requestID direct \<longleftrightarrow> plain requestID \<and> message_ok (compile_message requestID direct)"

text \<open>
  A store the API and the loader share: what the API writes for a request is what the handler of
  its message reads.
\<close>

context file_store
begin

lemma submitted_source:
  assumes "ready (a_files st)" and "valid requestID (lc_SourceFile c)" and "Compilers_lookup (cc_Language direct) = Some c"
    and "sv_WriteFile sv = wr" and "create_submit sv requestID direct st = Inr (err, st')"
    and "fst (wr \<lparr>f_ID = requestID, f_Name = lc_SourceFile c, f_Data = cc_Source direct\<rparr> (a_files st)) = None"
  shows "rd requestID (lc_SourceFile c) (a_files st') = (cc_Source direct, None)"
proof -
  let ?x = "\<lparr>f_ID = requestID, f_Name = lc_SourceFile c, f_Data = cc_Source direct\<rparr>"
  have "wr ?x (a_files st) = (None, a_files st')"
    using assms(4-6) by (auto simp: create_submit_simps [OF assms(3)] prod_eq_iff split: prod.splits)
  then show ?thesis using write_read [of "a_files st" ?x] assms(1,2) by simp
qed

end

subsection \<open>Rows\<close>

lemma update_row_dom [simp]: "dom (update_row eid c t) = dom t"
  by (auto simp: update_row_def split: option.splits if_splits)

lemma update_dom:
  assumes "gorm_laws c rows"
  shows "dom (rows (snd (UpdateExecutionStatus c eid status db))) = dom (rows db)"
    and "dom (rows (snd (UpdateExecution c eid cols db))) = dom (rows db)"
proof -
  obtain r db1 where u: "UpdateExecutionStatus c eid status db = (r, db1)" by fastforce
  show "dom (rows (snd (UpdateExecutionStatus c eid status db))) = dom (rows db)"
    using UpdateExecutionStatus_effect [OF assms u] u by simp
  obtain found r' db2 where v: "UpdateExecution c eid cols db = ((found, r'), db2)" by (metis prod.exhaust)
  show "dom (rows (snd (UpdateExecution c eid cols db))) = dom (rows db)"
    using UpdateExecution_effect(1) [OF assms v] v by simp
qed

text \<open>A handler never makes or removes a row.\<close>

lemma handler_step_db:
  assumes "handler_step env ch h ld = Some (Inr (h', ld'))"
  obtains "l_db ld' = l_db ld" | eid s where "l_db ld' = snd (UpdateExecutionStatus (e_repo env) eid s (l_db ld))"
    | eid c where "l_db ld' = snd (UpdateExecution (e_repo env) eid c (l_db ld))"
proof (cases h)
  case (HStart data)
  then show ?thesis
    using assms that(1,2) by (auto simp: handler_begin_def set_status_def Let_def split: option.splits sum.splits prod.splits)
qed (use assms that in \<open>auto simp: set_status_def split: option.splits sum.splits choice.splits if_splits prod.splits\<close>)

lemma handler_step_dom:
  assumes "gorm_laws (e_repo env) rows" and "handler_step env ch h ld = Some (Inr (h', ld'))"
  shows "dom (rows (l_db ld')) = dom (rows (l_db ld))"
  using assms(2) by (rule handler_step_db) (simp_all only: update_dom [OF assms(1)])

lemma create_submit_db: "create_submit sv requestID direct st = Inr (err, st') \<Longrightarrow> a_db st' = a_db st"
  by (auto simp: create_submit_def Let_def split: option.splits prod.splits)

lemma create_insert_rows:
  assumes "gorm_laws (sv_Repo sv) rows" and "create_insert sv requestID direct st = (r, st')"
  shows "case r of Inr resp \<Rightarrow> cc_Id resp = requestID \<and> rows (a_db st') = (rows (a_db st))(requestID \<mapsto> new_execution requestID direct)
         | Inl e \<Rightarrow> rows (a_db st') = rows (a_db st)"
proof -
  obtain e db where i: "InsertExecution (sv_Repo sv) (new_execution requestID direct) (a_db st) = (e, db)" by fastforce
  have "ex_ID (new_execution requestID direct) = requestID" by (simp add: new_execution_def)
  with InsertExecution_effect [OF assms(1) i] i assms(2) show ?thesis
    by (auto simp: create_insert_def split: option.splits)
qed

subsection \<open>Data for the witnesses\<close>

definition demo_server :: "(fs, bytes list, string \<rightharpoonup> Execution) server" where
  "demo_server =
     \<lparr>sv_WriteFile = LocalFiles_WriteFile \<lparr>LocalRootPath = ''/tmp/executions''\<rparr>,
      sv_GetFile = LocalFiles_GetFile \<lparr>LocalRootPath = ''/tmp/executions''\<rparr>,
      sv_Repo = table_gorm, sv_SubmitMessageToQueue = (\<lambda>data q. (None, q @ [data]))\<rparr>"

definition demo_fs :: fs where
  "demo_fs = \<lparr>files = Map.empty, dirs = {[]}, fault = (\<lambda>op k. False)\<rparr>"

definition demo_api :: "(fs, bytes list, string \<rightharpoonup> Execution) api" where
  "demo_api = \<lparr>a_files = demo_fs, a_queue = [], a_db = Map.empty\<rparr>"

definition demo_direct :: CreateCompileRequest where
  "demo_direct = \<lparr>cc_Language = ''python'', cc_Source = ''print(1)'', cc_StandardInData = None, cc_ExpectedStandardOutData = Some [''1'']\<rparr>"

lemma demo_direct_valid: "CreateCompileRequest_Validate (Some demo_direct) = None"
  by code_simp

definition passing_interceptor :: "('i \<Rightarrow> 'e option) \<Rightarrow> ('i, 'r, 's) interceptor" where
  "passing_interceptor validate rq h st =
     (case validate rq of
        Some e \<Rightarrow> Inr (Inl (ClientError ''InvalidArgument''), st)
      | None \<Rightarrow> (case h rq st of Inr r \<Rightarrow> Inr r | Inl p \<Rightarrow> Inr (Inl (ClientError ''Internal''), st)))"

lemma passing_validating: "validating validate (passing_interceptor validate)"
  by (simp add: validating_def passing_interceptor_def split: option.split sum.split)

subsection \<open>Properties\<close>

text \<open>
  C16. A compile request that passed the validation never panics: the client gets its id and a row
  in state NotRan exists for it, or it gets an error and the table is unchanged. Without the
  validation the method panics exactly for a language that is not in the table.
\<close>

theorem CreateCompileRequest_outcome:
  assumes "gorm_laws (sv_Repo sv) rows" and "CreateCompileRequest_Validate (Some direct) = None"
  shows "(\<exists>r st'. Server_CreateCompileRequest sv requestID direct st = Inr (r, st')
           \<and> (case r of
                Inr resp \<Rightarrow> cc_Id resp = requestID
                  \<and> rows (a_db st') = (rows (a_db st))(requestID \<mapsto> new_execution requestID direct)
              | Inl e \<Rightarrow> rows (a_db st') = rows (a_db st)))
         \<and> (\<forall>other. (\<exists>p. Server_CreateCompileRequest sv requestID other st = Inl p) \<longleftrightarrow> Compilers_lookup (cc_Language other) = None)"
proof (intro conjI allI)
  fix other :: CreateCompileRequest
  show "(\<exists>p. Server_CreateCompileRequest sv requestID other st = Inl p) \<longleftrightarrow> Compilers_lookup (cc_Language other) = None"
    by (auto simp: Server_CreateCompileRequest_def create_submit_def Let_def split: option.splits prod.splits)
next
  obtain c where c: "Compilers_lookup (cc_Language direct) = Some c"
    using assms(2) compile_request_lookup by (auto simp: CreateCompileRequest_Validate_iff)
  obtain err q where q: "sv_SubmitMessageToQueue sv (json_Marshal (encode_message (compile_message requestID direct))) (a_queue st) = (err, q)"
    by fastforce
  then obtain st1 where s: "create_submit sv requestID direct st = Inr (err, st1)"
    by (simp add: create_submit_simps [OF c])
  obtain r st2 where i: "create_insert sv requestID direct st1 = (r, st2)" by fastforce
  show "\<exists>r st'. Server_CreateCompileRequest sv requestID direct st = Inr (r, st')
      \<and> (case r of
           Inr resp \<Rightarrow> cc_Id resp = requestID \<and> rows (a_db st') = (rows (a_db st))(requestID \<mapsto> new_execution requestID direct)
         | Inl e \<Rightarrow> rows (a_db st') = rows (a_db st))"
    using create_insert_rows [OF assms(1) i] create_submit_db [OF s]
    by (cases err; cases r) (simp_all add: Server_CreateCompileRequest_def s i)
qed

theorem CreateCompileRequest_outcome_witness:
  "\<exists>st'. Server_CreateCompileRequest demo_server ''r1'' demo_direct demo_api = Inr (Inr \<lparr>cc_Id = ''r1''\<rparr>, st')
     \<and> a_db st' = [''r1'' \<mapsto> new_execution ''r1'' demo_direct]"
proof -
  have "gorm_laws (sv_Repo demo_server) (\<lambda>t. t)" using table_gorm_laws by (simp add: demo_server_def)
  then obtain r st' where r: "Server_CreateCompileRequest demo_server ''r1'' demo_direct demo_api = Inr (r, st')"
    "case r of Inr resp \<Rightarrow> cc_Id resp = ''r1'' \<and> a_db st' = (a_db demo_api)(''r1'' \<mapsto> new_execution ''r1'' demo_direct)
       | Inl e \<Rightarrow> a_db st' = a_db demo_api"
    using CreateCompileRequest_outcome [OF _ demo_direct_valid, of demo_server "\<lambda>t. t" "''r1''" demo_api] by auto
  obtain c where "Compilers_lookup (cc_Language demo_direct) = Some c"
    using demo_direct_valid compile_request_lookup by (auto simp: CreateCompileRequest_Validate_iff)
  then have "r = Inr \<lparr>cc_Id = ''r1''\<rparr>"
    using r(1) by (simp add: Server_CreateCompileRequest_def create_submit_simps create_insert_def InsertExecution_def
        demo_server_def demo_api_def table_gorm_def)
  with r show ?thesis by (auto simp: demo_api_def)
qed

text \<open>
  C34. The list of languages the gRPC handler answers does not depend on the iteration order of the table
  nor on the sorting algorithm: it is strictly ordered by display name, has every language of the table once, and is the
  only ordering of these entries by display name.
\<close>

theorem GetSupportedLanguages_deterministic:
  assumes "mset order = mset Compilers" and "validating (\<lambda>rq. None :: validation_error option) i"
  shows "ConsumerService_GetSupportedLanguages_Handler order (Inr ()) (Some i) st =
           Inr (Inr (Server_GetSupportedLanguages Compilers), st)
         \<and> (\<exists>ls. Server_GetSupportedLanguages order = \<lparr>gs_Languages = map Some ls\<rparr>
           \<and> Server_GetSupportedLanguages order = Server_GetSupportedLanguages Compilers
           \<and> sorted_wrt (<) (map sl_DisplayName ls)
           \<and> mset (map sl_LanguageCode ls) = mset (map fst Compilers)
           \<and> (\<forall>ys. mset ys = mset (map supported_language order) \<and> sorted (map sl_DisplayName ys) \<longrightarrow> ys = ls))"
proof (intro exI conjI allI impI)
  let ?s = "\<lambda>order. sort_key sl_DisplayName (map supported_language order)"
  have unique: "?s order = ys" if "mset ys = mset (map supported_language order)" "sorted (map sl_DisplayName ys)" for ys
    using that supported_inj [OF assms(1)] by (intro sort_key_inj_key_eq) auto
  then show "\<And>ys. mset ys = mset (map supported_language order) \<and> sorted (map sl_DisplayName ys) \<Longrightarrow> ys = ?s order"
    by auto
  show "Server_GetSupportedLanguages order = \<lparr>gs_Languages = map Some (?s order)\<rparr>"
    by (simp add: Server_GetSupportedLanguages_def)
  have "?s order = ?s Compilers" using assms(1) by (intro unique) simp_all
  then show same: "Server_GetSupportedLanguages order = Server_GetSupportedLanguages Compilers"
    by (simp only: Server_GetSupportedLanguages_def)
  have "i () (\<lambda>rq st. Inr (Inr (Server_GetSupportedLanguages order), st)) st = Inr (Inr (Server_GetSupportedLanguages order), st)"
    by (rule validating_passes [OF assms(2)]) simp_all
  then show "ConsumerService_GetSupportedLanguages_Handler order (Inr ()) (Some i) st =
           Inr (Inr (Server_GetSupportedLanguages Compilers), st)"
    by (simp add: ConsumerService_GetSupportedLanguages_Handler_def unary_handler_def same)
  show "sorted_wrt (<) (map sl_DisplayName (?s order))" by (rule supported_sorted [OF assms(1)])
  have code: "sl_LanguageCode \<circ> supported_language = fst" by (auto simp: supported_language_def fun_eq_iff)
  have "mset (map sl_LanguageCode (?s order)) = image_mset sl_LanguageCode (mset (map supported_language order))" by simp
  also have "\<dots> = image_mset fst (mset Compilers)"
    by (simp only: mset_map multiset.map_comp code assms(1))
  finally show "mset (map sl_LanguageCode (?s order)) = mset (map fst Compilers)" by simp
qed

theorem GetSupportedLanguages_deterministic_witness:
  "ConsumerService_GetSupportedLanguages_Handler (rev Compilers) (Inr ())
     (Some (passing_interceptor (\<lambda>rq. None :: validation_error option))) () = Inr (Inr (Server_GetSupportedLanguages Compilers), ())"
proof -
  have "mset (rev Compilers) = mset Compilers" by (rule mset_rev)
  from GetSupportedLanguages_deterministic [OF this passing_validating, of "()"] show ?thesis by (rule conjunct1)
qed

text \<open>
  C35. Through the gRPC handler with its validating interceptor, a template request is answered with
  a template exactly when the language is supported and a template file was embedded for it, and
  the template is the content of that file; every other request gets an error, and none panics.
\<close>

theorem GetTemplate_serves:
  assumes "set order = set (map fst Compilers)" and "validating (\<lambda>rq. GetTemplateRequest_Validate (Some rq)) i"
  shows "(ConsumerService_GetTemplate_Handler (LoadEmbeddedTemplateFiles content order initial_templates) (Inr rq) (Some i) st
            = Inr (Inr resp, st')
          \<longleftrightarrow> Compilers_lookup (gt_Language rq) \<noteq> None
              \<and> content (''templates/'' @ gt_Language rq @ ''.txt'') = Some (gt_Template resp) \<and> st' = st)
         \<and> (\<exists>r. ConsumerService_GetTemplate_Handler (LoadEmbeddedTemplateFiles content order initial_templates) (Inr rq) (Some i) st
            = Inr (r, st))"
proof -
  let ?ts = "LoadEmbeddedTemplateFiles content order initial_templates"
    and ?h = "\<lambda>rq st. Inr (Server_GetTemplate (LoadEmbeddedTemplateFiles content order initial_templates) rq, st)"
  have ts: "CompilerTemplate ?ts = (\<lambda>s. if Compilers_lookup s = None then None else content (''templates/'' @ s @ ''.txt''))"
    by (simp add: LoadEmbeddedTemplateFiles_def initial_templates_def load_templates_complete [OF assms(1)])
  have h: "ConsumerService_GetTemplate_Handler ?ts (Inr rq) (Some i) st = i rq ?h st"
    by (simp add: ConsumerService_GetTemplate_Handler_def unary_handler_def)
  show ?thesis
  proof (cases "Compilers_lookup (gt_Language rq) = None")
    case True
    then have "GetTemplateRequest_Validate (Some rq) \<noteq> None" using GetTemplateRequest_Validate_iff [of rq] by blast
    then obtain e where "i rq ?h st = Inr (Inl e, st)" using validating_rejects [OF assms(2)] by blast
    with True show ?thesis unfolding h by simp
  next
    case False
    then have "GetTemplateRequest_Validate (Some rq) = None" using GetTemplateRequest_Validate_iff [of rq] by blast
    then have "i rq ?h st = Inr (Server_GetTemplate ?ts rq, st)" by (rule validating_passes [OF assms(2)]) simp
    with False show ?thesis
      unfolding h by (cases resp) (auto simp: Server_GetTemplate_def ts split: option.splits)
  qed
qed

theorem GetTemplate_serves_witness:
  "ConsumerService_GetTemplate_Handler
      (LoadEmbeddedTemplateFiles [''templates/go.txt'' \<mapsto> ''package main''] (map fst Compilers) initial_templates)
      (Inr \<lparr>gt_Language = ''go''\<rparr>) (Some (passing_interceptor (\<lambda>rq. GetTemplateRequest_Validate (Some rq)))) ()
    = Inr (Inr \<lparr>gt_Template = ''package main''\<rparr>, ())"
proof -
  have "Compilers_lookup ''go'' \<noteq> None" by code_simp
  then show ?thesis
    using GetTemplate_serves [OF refl passing_validating, of "[''templates/go.txt'' \<mapsto> ''package main'']" "\<lparr>gt_Language = ''go''\<rparr>" "()" "\<lparr>gt_Template = ''package main''\<rparr>" "()"]
    by simp
qed



text \<open>
  C36. Asking for a result panics exactly when the id is well formed and either the database fails
  with an error other than a missing row, or the row names a language that is not in the table.
\<close>

theorem GetCompileResult_panics_iff:
  assumes "gorm_laws (sv_Repo sv) rows"
  shows "(\<exists>p. Server_GetCompileResultRequest sv uuid_Parse rq st = Inl p) \<longleftrightarrow>
           (\<exists>rid. uuid_Parse (gr_Id rq) = Inr rid
              \<and> (case GetExecution (sv_Repo sv) rid (a_db st) of
                   (e, Some err) \<Rightarrow> \<not> errors_Is err is_RecordNotFound
                 | (e, None) \<Rightarrow> rows (a_db st) rid = Some e \<and> Compilers_lookup (ex_Language e) = None))"
proof (cases "uuid_Parse (gr_Id rq)")
  case (Inr rid)
  obtain e err where g: "GetExecution (sv_Repo sv) rid (a_db st) = (e, err)" by fastforce
  have "Compilers_lookup (ex_Language zero_execution) = None" by code_simp
  then show ?thesis
    using GetExecution_effect [OF assms g]
    by (cases err) (auto simp: Server_GetCompileResultRequest_def Inr g split: option.splits)
qed (simp add: Server_GetCompileResultRequest_def)

theorem GetCompileResult_panics_iff_witness:
  "(\<exists>p. Server_GetCompileResultRequest demo_server Inr \<lparr>gr_Id = ''r1''\<rparr> (demo_api\<lparr>a_db := [''r1'' \<mapsto> zero_execution]\<rparr>) = Inl p)
   \<and> \<not> (\<exists>p. Server_GetCompileResultRequest demo_server Inr \<lparr>gr_Id = ''r1''\<rparr> demo_api = Inl p)"
proof -
  have l: "gorm_laws (sv_Repo demo_server) (\<lambda>t. t)" using table_gorm_laws by (simp add: demo_server_def)
  have "Compilers_lookup (ex_Language zero_execution) = None" by code_simp
  then show ?thesis
    unfolding GetCompileResult_panics_iff [OF l]
    by (simp add: demo_server_def demo_api_def table_gorm_def GetExecution_def is_RecordNotFound_def)
qed

end
