(* ===== verification/Service_System.thy ===== *)
theory Service_System
  imports Loader_System Consumer_Api
begin

text \<open>
  The API and the loader together, as \<open>cars-api\<close> and \<open>cars-loader\<close> run them: calls of
  \<open>CreateCompileRequest\<close> of \<open>server.go\<close>, the queue between the two programs, and the handlers and the
  event loop of the loader, on one file store and one database. A call is interleaved at the point
  between its submission to the queue and its insertion of the row. The queue delivers its messages
  in any order and may deliver a message again, as NSQ and SQS document it.
\<close>

subsection \<open>Steps\<close>

datatype call = Submitted string CreateCompileRequest | Answered string "error + CreateCompileResponse"

record ('d, 'f, 'db) service =
  s_calls :: "call list"
  s_queue :: "bytes list"
  s_handlers :: "handler list"
  s_loader :: "('d, 'f, 'db) loader"

fun call_id :: "call \<Rightarrow> string" where
  "call_id (Submitted rid direct) = rid"
| "call_id (Answered rid r) = rid"

definition api_view :: "('d, 'f, 'db) service \<Rightarrow> ('f, bytes list, 'db) api" where
  "api_view S = \<lparr>a_files = l_files (s_loader S), a_queue = s_queue S, a_db = l_db (s_loader S)\<rparr>"

definition after_api :: "('f, bytes list, 'db) api \<Rightarrow> ('d, 'f, 'db) service \<Rightarrow> ('d, 'f, 'db) service" where
  "after_api st S = S\<lparr>s_queue := a_queue st, s_loader := (s_loader S)\<lparr>l_files := a_files st, l_db := a_db st\<rparr>\<rparr>"

text \<open>Publishing adds the message or fails without effect.\<close>

definition queue_law :: "('f, bytes list, 'db) server \<Rightarrow> bool" where
  "queue_law sv \<longleftrightarrow>
     (\<forall>data q. case sv_SubmitMessageToQueue sv data q of (None, q') \<Rightarrow> q' = q @ [data] | (Some e, q') \<Rightarrow> q' = q)"

inductive service_step ::
  "('d, 'f, 'db) env \<Rightarrow> ('f, bytes list, 'db) server \<Rightarrow> ('db \<Rightarrow> string \<rightharpoonup> Execution)
    \<Rightarrow> ('d, 'f, 'db) service \<Rightarrow> ('d, 'f, 'db) service \<Rightarrow> bool"
  for env sv rows where
  submit: "CreateCompileRequest_Validate (Some direct) = None \<Longrightarrow> request_strings_ok rid direct
           \<Longrightarrow> rid \<notin> call_id ` set (s_calls S) \<Longrightarrow> rows (l_db (s_loader S)) rid = None
           \<Longrightarrow> create_submit sv rid direct (api_view S) = Inr (err, st)
           \<Longrightarrow> service_step env sv rows S ((after_api st S)\<lparr>s_calls := s_calls S @
                  [case err of None \<Rightarrow> Submitted rid direct
                   | Some e \<Rightarrow> Answered rid (Inl (Errorf ''failed to execute compile request''))]\<rparr>)"
| insert: "i < length (s_calls S) \<Longrightarrow> s_calls S ! i = Submitted rid direct
           \<Longrightarrow> create_insert sv rid direct (api_view S) = (r, st)
           \<Longrightarrow> service_step env sv rows S ((after_api st S)\<lparr>s_calls := (s_calls S)[i := Answered rid r]\<rparr>)"
| deliver: "data \<in> set (s_queue S) \<Longrightarrow> set q \<subseteq> set (s_queue S)
           \<Longrightarrow> service_step env sv rows S (S\<lparr>s_queue := q, s_handlers := s_handlers S @ [HStart data]\<rparr>)"
| handler: "i < length (s_handlers S) \<Longrightarrow> handler_step env ch (s_handlers S ! i) (s_loader S) = Some (Inr (h, ld))
           \<Longrightarrow> fresh_id (s_handlers S) h
           \<Longrightarrow> service_step env sv rows S (S\<lparr>s_handlers := (s_handlers S)[i := h], s_loader := ld\<rparr>)"
| event: "handle_poll p (l_manager (s_loader S)) (w_fs (l_world (s_loader S))) = Inr (s, f)
           \<Longrightarrow> service_step env sv rows S (S\<lparr>s_loader := (s_loader S)\<lparr>l_manager := s, l_world := (l_world (s_loader S))\<lparr>w_fs := f\<rparr>\<rparr>\<rparr>)"
| outside: "service_step env sv rows S (S\<lparr>s_loader := (s_loader S)\<lparr>l_world := w\<rparr>\<rparr>)"

definition service_start :: "('d, 'f, 'db) env \<Rightarrow> ('d, 'f, 'db) service \<Rightarrow> bool" where
  "service_start env S \<longleftrightarrow>
     s_calls S = [] \<and> s_queue S = [] \<and> s_handlers S = [] \<and> machine_ok (e_goos env) (l_machine (s_loader S))
     \<and> containers (l_manager (s_loader S)) = Map.empty \<and> limiter (l_manager (s_loader S)) = []"

inductive service_reachable ::
  "('d, 'f, 'db) env \<Rightarrow> ('f, bytes list, 'db) server \<Rightarrow> ('db \<Rightarrow> string \<rightharpoonup> Execution) \<Rightarrow> ('d, 'f, 'db) service \<Rightarrow> bool"
  for env sv rows where
  init: "service_start env S \<Longrightarrow> service_reachable env sv rows S"
| step: "service_reachable env sv rows S \<Longrightarrow> service_step env sv rows S S' \<Longrightarrow> service_reachable env sv rows S'"

subsection \<open>What the messages are\<close>

text \<open>The messages in the queue, and those of the handlers, are those of validated calls.\<close>

definition api_message :: "CompileMessage \<Rightarrow> bool" where
  "api_message msg \<longleftrightarrow>
     (\<exists>rid direct. CreateCompileRequest_Validate (Some direct) = None \<and> request_strings_ok rid direct
        \<and> msg = compile_message rid direct)"

definition api_data :: "bytes \<Rightarrow> bool" where
  "api_data data \<longleftrightarrow> (\<exists>msg. api_message msg \<and> data = json_Marshal (encode_message msg))"

lemma api_message_facts:
  assumes "api_message msg"
  shows "message_ok msg" and "plain (cm_ID msg)" and "\<exists>c. Compilers_lookup (cm_Language msg) = Some c"
  using assms by (auto simp: api_message_def request_strings_ok_def compile_message_def CreateCompileRequest_Validate_iff compile_request_ok_def)

lemma api_data_unmarshal:
  assumes "api_data data"
  obtains msg c where "json_Unmarshal store_message data zero_message = (None, msg)" "api_message msg"
    "Compilers_lookup (cm_Language msg) = Some c" "data = json_Marshal (encode_message msg)"
  using assms unmarshal_message api_message_facts by (metis api_data_def)

lemma api_data_ok: "api_data data \<Longrightarrow> data_ok data"
  by (erule api_data_unmarshal) (simp add: data_ok_def api_message_facts)

fun handler_api :: "handler \<Rightarrow> bool" where
  "handler_api (HStart data) = api_data data"
| "handler_api (HAcquire msg rq) = api_message msg"
| "handler_api (HRun msg rq) = api_message msg"
| "handler_api (HStore msg rq cid d) = api_message msg"
| "handler_api (HRunning msg rq cid) = api_message msg"
| "handler_api (HWait msg rq cid) = api_message msg"
| "handler_api (HRespond msg rq cid) = api_message msg"
| "handler_api (HReceive msg cid resp) = api_message msg"
| "handler_api (HDelete msg cid resp) = api_message msg"
| "handler_api (HUpdate msg resp) = api_message msg"
| "handler_api (HRejected err) = False"
| "handler_api _ = True"

lemma handler_step_api:
  assumes "handler_step env ch h ld = Some (Inr (h', ld'))" and "handler_api h" and "machine_ok (e_goos env) (l_machine ld)"
  shows "handler_api h' \<and> machine_ok (e_goos env) (l_machine ld')"
  using assms
proof (cases h)
  case (HStart data)
  then obtain msg c where msg: "json_Unmarshal store_message data zero_message = (None, msg)" "api_message msg"
    "Compilers_lookup (cm_Language msg) = Some c"
    using assms(2) api_data_unmarshal by (metis handler_api.simps(1))
  with HStart assms(1) obtain p m1 where g: "GetProfileForMachine (e_goos env) (e_getenv env) (w_fs (l_world ld)) (l_machine ld) = Inr (Some p, m1)"
    "h' = HAcquire msg (sandbox_request (e_tempdir env) msg c p (fst (if_GetFile (e_files env) (cm_ID msg) (lc_SourceFile c) (l_files ld))))"
    "l_machine ld' = m1"
    by (auto simp: handler_begin_def set_status_def Let_def split: sum.splits option.splits prod.splits)
  with GetProfileForMachine_ok [OF assms(3) g(1)] msg(2) show ?thesis by simp
qed (auto simp: set_status_def split: option.splits sum.splits choice.splits if_splits prod.splits)

definition service_inv :: "('d, 'f, 'db) env \<Rightarrow> ('db \<Rightarrow> string \<rightharpoonup> Execution) \<Rightarrow> ('d, 'f, 'db) service \<Rightarrow> bool" where
  "service_inv env rows S \<longleftrightarrow>
     list_all api_data (s_queue S) \<and> list_all handler_api (s_handlers S) \<and> machine_ok (e_goos env) (l_machine (s_loader S))
     \<and> distinct (map call_id (s_calls S))
     \<and> (\<forall>rid direct. Submitted rid direct \<in> set (s_calls S) \<longrightarrow> rows (l_db (s_loader S)) rid = None)"

lemma submit_queue:
  assumes "queue_law sv" and "create_submit sv rid direct st = Inr (err, st')"
  shows "a_queue st' = a_queue st \<or> a_queue st' = a_queue st @ [json_Marshal (encode_message (compile_message rid direct))]"
proof -
  obtain e q where q: "sv_SubmitMessageToQueue sv (json_Marshal (encode_message (compile_message rid direct))) (a_queue st) = (e, q)"
    by fastforce
  then have "q = a_queue st \<or> q = a_queue st @ [json_Marshal (encode_message (compile_message rid direct))]"
    using assms(1) [unfolded queue_law_def, rule_format, where data = "json_Marshal (encode_message (compile_message rid direct))" and q = "a_queue st"]
    by (cases e) simp_all
  with assms(2) q show ?thesis
    by (auto simp: create_submit_def Let_def split: option.splits)
qed

lemma create_insert_other:
  assumes "gorm_laws (sv_Repo sv) rows" and "create_insert sv rid direct st = (r, st')"
  shows "a_queue st' = a_queue st" and "i \<noteq> rid \<Longrightarrow> rows (a_db st') i = rows (a_db st) i"
proof -
  show "a_queue st' = a_queue st"
    using assms(2) by (auto simp: create_insert_def split: prod.splits option.splits)
  show "i \<noteq> rid \<Longrightarrow> rows (a_db st') i = rows (a_db st) i"
    using create_insert_rows [OF assms] by (cases r) auto
qed

lemma api_view_simps [simp]:
  "a_files (api_view S) = l_files (s_loader S)" "a_queue (api_view S) = s_queue S" "a_db (api_view S) = l_db (s_loader S)"
  by (simp_all add: api_view_def)

lemma after_api_simps [simp]:
  "s_queue (after_api st S) = a_queue st" "s_calls (after_api st S) = s_calls S" "s_handlers (after_api st S) = s_handlers S"
  "l_db (s_loader (after_api st S)) = a_db st" "l_machine (s_loader (after_api st S)) = l_machine (s_loader S)"
  by (simp_all add: after_api_def)

text \<open>
  One lemma per kind of step, then the summary. The row condition is carried by the domain of the
  table, which only an insertion changes.
\<close>

lemma inv_submit:
  assumes "service_inv env rows S" and "queue_law sv"
    and "CreateCompileRequest_Validate (Some direct) = None" and "request_strings_ok rid direct"
    and "rid \<notin> call_id ` set (s_calls S)" and "rows (l_db (s_loader S)) rid = None"
    and "create_submit sv rid direct (api_view S) = Inr (err, st)" and "call_id x = rid" and "\<And>d r. x = Submitted r d \<Longrightarrow> r = rid"
  shows "service_inv env rows ((after_api st S)\<lparr>s_calls := s_calls S @ [x]\<rparr>)"
proof -
  have "api_data (json_Marshal (encode_message (compile_message rid direct)))"
    using assms(3,4) by (auto simp: api_data_def api_message_def)
  with submit_queue [OF assms(2,7)] assms(1) have "list_all api_data (a_queue st)" by (auto simp: service_inv_def)
  moreover have "a_db st = l_db (s_loader S)" using create_submit_db [OF assms(7)] by simp
  ultimately show ?thesis using assms(1,5,6,8,9) by (auto simp: service_inv_def)
qed

lemma inv_insert:
  assumes "service_inv env rows S" and "gorm_laws (sv_Repo sv) rows" and "i < length (s_calls S)" and "s_calls S ! i = Submitted rid direct"
    and "create_insert sv rid direct (api_view S) = (r, st)"
  shows "service_inv env rows ((after_api st S)\<lparr>s_calls := (s_calls S)[i := Answered rid r]\<rparr>)"
proof -
  let ?cs = "(s_calls S)[i := Answered rid r]"
  have "map call_id ?cs = (map call_id (s_calls S))[i := call_id (s_calls S ! i)]" using assms(4) by (simp add: map_update)
  then have ids: "map call_id ?cs = map call_id (s_calls S)"
    using assms(3) list_update_id [of "map call_id (s_calls S)" i] by simp
  have "rows (a_db st) rid' = None" if sub: "Submitted rid' d' \<in> set ?cs" for rid' d'
  proof -
    obtain j where j: "j < length (s_calls S)" "?cs ! j = Submitted rid' d'" using sub by (auto simp: in_set_conv_nth)
    with assms(3) have "j \<noteq> i" "s_calls S ! j = Submitted rid' d'" by (auto simp: nth_list_update split: if_splits)
    moreover have "distinct (map call_id (s_calls S))" using assms(1) by (simp add: service_inv_def)
    ultimately have "rid' \<noteq> rid" using j(1) assms(3,4) by (metis call_id.simps(1) length_map nth_eq_iff_index_eq nth_map)
    moreover have "rows (l_db (s_loader S)) rid' = None"
      using assms(1) j(1) \<open>s_calls S ! j = _\<close> by (metis nth_mem service_inv_def)
    ultimately show ?thesis using create_insert_other(2) [OF assms(2,5)] by simp
  qed
  moreover have "a_queue st = s_queue S" using create_insert_other(1) [OF assms(2,5)] by simp
  ultimately show ?thesis using assms(1) ids by (simp add: service_inv_def)
qed

lemma inv_handler:
  assumes "service_inv env rows S" and "gorm_laws (e_repo env) rows" and "i < length (s_handlers S)"
    and "handler_step env ch (s_handlers S ! i) (s_loader S) = Some (Inr (h, ld))"
  shows "service_inv env rows (S\<lparr>s_handlers := (s_handlers S)[i := h], s_loader := ld\<rparr>)"
proof -
  have "handler_api (s_handlers S ! i)" "machine_ok (e_goos env) (l_machine (s_loader S))"
    using assms(1,3) by (simp_all add: service_inv_def list_all_length)
  with handler_step_api [OF assms(4)] have "handler_api h" "machine_ok (e_goos env) (l_machine ld)" by blast+
  moreover have "rows (l_db ld) rid = None \<longleftrightarrow> rows (l_db (s_loader S)) rid = None" for rid
    using handler_step_dom [OF assms(2,4)] by (metis domIff)
  ultimately show ?thesis
    using assms(1) by (auto simp: service_inv_def list_all_iff dest!: set_update_subset_insert [THEN subsetD])
qed

lemma service_reachable_inv:
  assumes "queue_law sv" and "gorm_laws (sv_Repo sv) rows" and "gorm_laws (e_repo env) rows" and "service_reachable env sv rows S"
  shows "service_inv env rows S"
  using assms(4)
proof (induction rule: service_reachable.induct)
  case (init S)
  then show ?case by (simp add: service_start_def service_inv_def)
next
  case (step S S')
  from step.hyps(2) step.IH show ?case
  proof (cases rule: service_step.cases)
    case (submit direct rid err st)
    then show ?thesis
      using inv_submit [OF step.IH assms(1) submit(2-6), of "case err of None \<Rightarrow> Submitted rid direct
        | Some e \<Rightarrow> Answered rid (Inl (Errorf ''failed to execute compile request''))"]
      by (cases err) auto
  next
    case (insert i rid direct r st)
    with inv_insert [OF step.IH assms(2)] show ?thesis by simp
  next
    case (handler i ch h ld)
    with inv_handler [OF step.IH assms(3)] show ?thesis by (simp del: handler_step.simps)
  next
    case (deliver data q)
    with step.IH show ?thesis by (auto simp: service_inv_def list_all_iff)
  qed (simp_all add: service_inv_def)
qed

subsection \<open>The loader of the service is the loader system\<close>

lemma service_step_simulates:
  assumes "service_inv env rows S" and "service_step env sv rows S S'"
  shows "sys_step env (s_handlers S, s_loader S) (s_handlers S', s_loader S')"
  using assms(2)
proof (cases rule: service_step.cases)
  case (deliver data q)
  moreover have "data_ok data" using assms(1) deliver(2) by (intro api_data_ok) (auto simp: service_inv_def list_all_iff)
  ultimately show ?thesis by (auto intro: sys_step.message)
next
  case (submit direct rid err st)
  then show ?thesis using sys_step.outside [where ld = "s_loader S" and w = "l_world (s_loader S)" and fl = "a_files st" and db = "a_db st"] by (simp add: after_api_def)
next
  case (insert i rid direct r st)
  then show ?thesis using sys_step.outside [where ld = "s_loader S" and w = "l_world (s_loader S)" and fl = "a_files st" and db = "a_db st"] by (simp add: after_api_def)
next
  case (outside w)
  then show ?thesis using sys_step.outside [where ld = "s_loader S" and w = w and fl = "l_files (s_loader S)" and db = "l_db (s_loader S)"] by simp
qed (auto intro: sys_step.handler sys_step.event simp del: handler_step.simps)

lemma service_reachable_loader:
  assumes "queue_law sv" and "gorm_laws (sv_Repo sv) rows" and "gorm_laws (e_repo env) rows" and "service_reachable env sv rows S"
  shows "reachable env (s_handlers S, s_loader S)"
  using assms(4)
proof (induction rule: service_reachable.induct)
  case (init S)
  then show ?case using reachable.init [of "s_loader S" env] by (simp add: service_start_def)
next
  case (step S S')
  have "service_inv env rows S" by (rule service_reachable_inv [OF assms(1-3) step.hyps(1)])
  then have "sys_step env (s_handlers S, s_loader S) (s_handlers S', s_loader S')"
    by (rule service_step_simulates [OF _ step.hyps(2)])
  with step.IH show ?case by (rule reachable.step)
qed

subsection \<open>What the handler stored is what the API reads\<close>

text \<open>The file store of the two programs: the local one, with a schedule of the goroutines of each call.\<close>

definition local_iface :: "LocalConfig \<Rightarrow> nat list \<Rightarrow> fs files_iface" where
  "local_iface cfg sched =
     \<lparr>if_WriteFiles = (\<lambda>fls f. snd (LocalFiles_WriteFiles cfg sched fls f)), if_GetFile = LocalFiles_GetFile cfg\<rparr>"

lemma uploaded_files:
  assumes "root_ok cfg" and "plain (rq_ID rq)" and "compiler_ok (rq_Compiler rq)"
    and "snd (LocalFiles_WriteFiles cfg sched (upload_files rq resp) f) = ([], f')"
    and "finished (LocalFiles_WriteFiles cfg sched (upload_files rq resp) f)" and "readable f'"
    and "x \<in> set (upload_files rq resp)"
  shows "LocalFiles_GetFile cfg (f_ID x) (f_Name x) f' = (f_Data x, None)"
proof -
  have valid: "local_valid cfg (f_ID x) (f_Name x)" if "x \<in> set (upload_files rq resp)" for x
    using that assms(1-3) by (auto simp: upload_files_def local_valid_def compiler_ok_def)
  have "distinct (map f_Name (upload_files rq resp))" using assms(3) by (auto simp: upload_files_def compiler_ok_def)
  then have "distinct (map (\<lambda>x. local_key cfg (f_ID x) (f_Name x)) (upload_files rq resp))"
    by (auto simp: distinct_map inj_on_def local_key_valid(1) [OF valid])
  moreover obtain ts where "LocalFiles_WriteFiles cfg sched (upload_files rq resp) f = (ts, [], f')"
    using assms(4) by (cases "LocalFiles_WriteFiles cfg sched (upload_files rq resp) f") auto
  ultimately have "files f' (local_key cfg (f_ID x) (f_Name x)) = Some (f_Data x)"
    using LocalFiles_WriteFiles_stored [OF _ _ assms(5,7)] by blast
  then show ?thesis by (simp add: LocalFiles_GetFile_readable [OF assms(6)])
qed

lemma upload_names:
  "\<lparr>f_ID = rq_ID rq, f_Name = lc_OutputFile (rq_Compiler rq), f_Data = strings_Join (elems (rs_Output resp)) newline\<rparr> \<in> set (upload_files rq resp)"
  "\<lparr>f_ID = rq_ID rq, f_Name = lc_OutputErrFile (rq_Compiler rq), f_Data = strings_Join (elems (rs_OutputError resp)) newline\<rparr> \<in> set (upload_files rq resp)"
  "\<not> lc_Interpreter (rq_Compiler rq) \<Longrightarrow>
     \<lparr>f_ID = rq_ID rq, f_Name = lc_CompilerOutputFile (rq_Compiler rq), f_Data = strings_Join (elems (rs_CompilerOutput resp)) newline\<rparr>
       \<in> set (upload_files rq resp)"
  by (simp_all add: upload_files_def)

lemma merged_row:
  assumes "gorm_laws c rows" and "rows db rid = Some e" and "UpdateExecution c rid (execution_columns resp) db = ((found, None), db')"
    and "GetExecution c rid db' = (e', None)"
  shows "ex_Status e' = ContainerStatus_String (rs_Status resp)" "ex_TestStatus e' = ContainerTestStatus_String (rs_TestStatus resp)"
    "ex_Language e' = ex_Language e"
proof -
  have "e' = merge_nonzero (execution_columns resp) e" by (rule execution_rows.update_get [OF assms])
  then show "ex_Status e' = ContainerStatus_String (rs_Status resp)" "ex_TestStatus e' = ContainerTestStatus_String (rs_TestStatus resp)"
    "ex_Language e' = ex_Language e"
    using container_status.to_string_nonempty test_status.to_string_nonempty by (simp_all add: merge_nonzero_def execution_columns_def zero_execution_def)
qed

subsection \<open>A run for the witnesses\<close>

definition unit_server :: "(unit, bytes list, string \<rightharpoonup> Execution) server" where
  "unit_server =
     \<lparr>sv_WriteFile = (\<lambda>x u. (None, ())), sv_GetFile = (\<lambda>i n u. ([], None)), sv_Repo = table_gorm,
      sv_SubmitMessageToQueue = (\<lambda>data q. (None, q @ [data]))\<rparr>"

definition demo_service :: "(unit, unit, string \<rightharpoonup> Execution) service" where
  "demo_service = \<lparr>s_calls = [], s_queue = [], s_handlers = [], s_loader = demo_loader\<lparr>l_db := Map.empty\<rparr>\<rparr>"

lemma unit_server_laws: "queue_law unit_server" "gorm_laws (sv_Repo unit_server) (\<lambda>t. t)" "gorm_laws (e_repo demo_env) (\<lambda>t. t)"
  using table_gorm_laws by (simp_all add: queue_law_def unit_server_def demo_env_def)

lemma demo_compile_message: "compile_message ''r1'' demo_direct = demo_message"
  by (simp add: compile_message_def demo_direct_def demo_message_def)

lemma demo_submit:
  "create_submit unit_server ''r1'' demo_direct (api_view S) =
     Inr (None, (api_view S)\<lparr>a_queue := s_queue S @ [json_Marshal (encode_message demo_message)]\<rparr>)"
proof -
  obtain c where "Compilers_lookup (cc_Language demo_direct) = Some c"
    using demo_direct_valid by (auto simp: CreateCompileRequest_Validate_iff compile_request_ok_def)
  then show ?thesis by (simp add: create_submit_simps demo_compile_message unit_server_def)
qed

lemma service_handler:
  assumes "service_reachable env sv rows S" and "s_handlers S = [h]" and "handler_step env ch h (s_loader S) = Some (Inr (h', ld'))"
    and "fresh_id [h] h'"
  shows "service_reachable env sv rows (S\<lparr>s_handlers := [h'], s_loader := ld'\<rparr>)"
  using service_reachable.step [OF assms(1) service_step.handler [of 0 S env ch h' ld' sv rows]] assms(2-4)
  by (simp del: handler_step.simps)

definition submitted_service :: "(unit, unit, string \<rightharpoonup> Execution) service" where
  "submitted_service =
     demo_service\<lparr>s_queue := [json_Marshal (encode_message demo_message)], s_calls := [Submitted ''r1'' demo_direct]\<rparr>"

lemma demo_delivered:
  "service_reachable demo_env unit_server (\<lambda>t. t)
     (submitted_service\<lparr>s_handlers := [HStart (json_Marshal (encode_message demo_message))]\<rparr>)"
proof -
  let ?data = "json_Marshal (encode_message demo_message)" and ?R = "service_reachable demo_env unit_server (\<lambda>t. t)"
  have start: "?R demo_service" using initial_machine_ok
    by (intro service_reachable.init) (simp add: service_start_def demo_service_def demo_loader_def)
  have strings: "request_strings_ok ''r1'' demo_direct"
    using demo_message_ok unfolding request_strings_ok_def demo_compile_message by (simp add: demo_message_def)
  have "service_step demo_env unit_server (\<lambda>t. t) demo_service submitted_service"
    using service_step.submit [OF demo_direct_valid strings _ _ demo_submit, of demo_service "\<lambda>t. t" demo_env]
    by (simp add: submitted_service_def demo_service_def demo_loader_def after_api_def api_view_def)
  from service_reachable.step [OF start this] have "?R submitted_service" .
  moreover have "service_step demo_env unit_server (\<lambda>t. t) submitted_service (submitted_service\<lparr>s_handlers := [HStart ?data]\<rparr>)"
    using service_step.deliver [of ?data submitted_service "[?data]" demo_env unit_server "\<lambda>t. t"]
    by (simp add: submitted_service_def demo_service_def)
  ultimately show ?thesis by (rule service_reachable.step)
qed

text \<open>The handler of a submitted request has already failed when the row is inserted.\<close>

lemma demo_late:
  obtains err S where "service_reachable demo_env unit_server (\<lambda>t. t) S" "s_calls S = [Submitted ''r1'' demo_direct]"
    "s_handlers S = [HFailed err]"
proof -
  let ?data = "json_Marshal (encode_message demo_message)" and ?R = "service_reachable demo_env unit_server (\<lambda>t. t)"
  note r2 = demo_delivered
  have "machine_ok ''linux'' (l_machine (s_loader submitted_service))" "l_world (s_loader submitted_service) = demo_world"
    using initial_machine_ok by (simp_all add: submitted_service_def demo_service_def demo_loader_def)
  then obtain rq es ld1 where 1: "handler_step demo_env TakeComplete (HStart ?data) (s_loader submitted_service) = Some (Inr (HAcquire demo_message rq, ld1))"
    "request_ok rq es" "l_manager ld1 = l_manager (s_loader submitted_service)"
    by (rule demo_begin)
  have r3: "?R (submitted_service\<lparr>s_handlers := [HAcquire demo_message rq], s_loader := ld1\<rparr>)"
    using service_handler [OF r2, of "HStart ?data" TakeComplete "HAcquire demo_message rq" ld1] 1(1)
    by (simp add: fresh_id_def del: handler_step.simps)
  define ld2 where "ld2 = ld1\<lparr>l_manager := (l_manager ld1)\<lparr>limiter := [rq_ID rq]\<rparr>\<rparr>"
  have "handler_step demo_env TakeComplete (HAcquire demo_message rq) ld1 = Some (Inr (HRun demo_message rq, ld2))"
    using 1(3) by (simp add: ld2_def submitted_service_def demo_service_def demo_loader_def limiter_send_def)
  then have r4: "?R (submitted_service\<lparr>s_handlers := [HRun demo_message rq], s_loader := ld2\<rparr>)"
    using service_handler [OF r3, of "HAcquire demo_message rq" TakeComplete "HRun demo_message rq" ld2]
    by (simp add: fresh_id_def del: handler_step.simps)
  have "create_refused (e_docker demo_env)" by (simp add: create_refused_def refusing_client_def demo_env_def)
  then obtain err d w where "Run (e_docker demo_env) (NewSandboxContainer rq) (l_world ld2) = Inr (Inl err, d, w)"
    by (rule Run_refused [OF _ 1(2)])
  then obtain e ld3 where "handler_step demo_env TakeComplete (HRun demo_message rq) ld2 = Some (Inr (HFailed e, ld3))"
    by simp
  then have "?R (submitted_service\<lparr>s_handlers := [HFailed e], s_loader := ld3\<rparr>)"
    using service_handler [OF r4, of "HRun demo_message rq" TakeComplete "HFailed e" ld3]
    by (simp add: fresh_id_def del: handler_step.simps)
  then show ?thesis using that by (simp add: submitted_service_def)
qed

subsection \<open>The local store for the witnesses\<close>

definition local_cfg :: LocalConfig where
  "local_cfg = \<lparr>LocalRootPath = ''/tmp/executions''\<rparr>"

definition local_sched :: "nat list" where
  "local_sched = [0, 1, 1, 0, 0, 1, 1, 0]"

definition local_env :: "(unit, fs, string \<rightharpoonup> Execution) env" where
  "local_env =
     \<lparr>e_docker = refusing_client, e_files = local_iface local_cfg local_sched, e_repo = table_gorm, e_goos = ''linux'',
      e_getenv = [], e_tempdir = ''/tmp''\<rparr>"

definition local_loader :: "fs \<Rightarrow> (unit, fs, string \<rightharpoonup> Execution) loader" where
  "local_loader f =
     \<lparr>l_manager = \<lparr>containers = Map.empty, limiter = [], limiter_cap = 1, stopFlag = 0\<rparr>,
      l_world = demo_world, l_files = f, l_db = [''r1'' \<mapsto> new_execution ''r1'' demo_direct], l_machine = initial_machine\<rparr>"

lemma local_env_ok: "env_ok local_env" "root_ok local_cfg"
  by (simp_all add: env_ok_def root_ok_def local_env_def local_cfg_def path_elems_def strings_Split_def abs_path_def plain_def)

lemma python_compiler:
  obtains c where "Compilers_lookup ''python'' = Some c" "lc_SourceFile c = ''solution.py''" "lc_OutputFile c = ''output''"
    "lc_OutputErrFile c = ''output_error''" "lc_Interpreter c"
  by (simp add: Compilers_lookup_def Compilers_def)

lemma local_write_succeeds:
  assumes "plain name"
  shows "fst (LocalFiles_WriteFile local_cfg \<lparr>f_ID = ''r1'', f_Name = name, f_Data = data\<rparr> demo_fs) = None"
proof -
  have v: "local_valid local_cfg ''r1'' name" using assms local_env_ok by (simp add: local_valid_def plain_def)
  show ?thesis
    using local_key_valid [OF v]
    by (auto simp: LocalFiles_WriteFile_def or_wrap_def os_MkdirAll_def os_Create_def file_Write_def Let_def demo_fs_def
        local_cfg_def path_elems_def strings_Split_def)
qed

lemma local_uploads:
  obtains ts f' where
   "LocalFiles_WriteFiles local_cfg local_sched
      [\<lparr>f_ID = ''r1'', f_Name = ''output'', f_Data = a\<rparr>, \<lparr>f_ID = ''r1'', f_Name = ''output_error'', f_Data = b\<rparr>] demo_fs = (ts, [], f')"
   "finished (ts, [], f')" "readable f'"
proof -
  have v: "local_valid local_cfg ''r1'' ''output''" "local_valid local_cfg ''r1'' ''output_error''"
    using local_env_ok by (simp_all add: local_valid_def plain_def)
  have k: "path_elems (LocalRootPath local_cfg) = [''tmp'', ''executions'']"
    by (simp add: local_cfg_def path_elems_def strings_Split_def)
  show ?thesis
    by (rule that) (simp add: LocalFiles_WriteFiles_def local_sched_def group_step_def or_stop_def os_MkdirAll_def os_Create_def
        file_Write_def Let_def demo_fs_def local_key_valid [OF v(1)] local_key_valid [OF v(2)] k,
      simp_all add: finished_def is_done_def readable_def)
qed

subsection \<open>Properties\<close>



text \<open>
  C7. No message of the API crashes or is rejected by the loader: in every reachable state of the
  service no handler step panics and no handler has rejected its message, as long as the Docker
  configuration file of the machine is not the JSON value null.
\<close>

theorem service_handlers_never_panic:
  assumes "env_ok env" and "queue_law sv" and "gorm_laws (sv_Repo sv) rows" and "gorm_laws (e_repo env) rows"
    and "service_reachable env sv rows S" and "i < length (s_handlers S)"
    and "daemonOnce (l_machine (s_loader S)) \<or> \<not> null_daemon_file (w_fs (l_world (s_loader S)))"
  shows "handler_step env ch (s_handlers S ! i) (s_loader S) \<noteq> Some (Inl p) \<and> s_handlers S ! i \<noteq> HRejected err"
proof -
  have inv: "service_inv env rows S" by (rule service_reachable_inv [OF assms(2-5)])
  then have api: "handler_api (s_handlers S ! i)" and m: "machine_ok (e_goos env) (l_machine (s_loader S))"
    using assms(6) by (simp_all add: service_inv_def list_all_length)
  show ?thesis
  proof (cases "\<exists>data. s_handlers S ! i = HStart data")
    case True
    then obtain data where data: "s_handlers S ! i = HStart data" by blast
    with api obtain msg c where msg: "api_message msg" "Compilers_lookup (cm_Language msg) = Some c" "data = json_Marshal (encode_message msg)"
      using api_data_unmarshal by (metis handler_api.simps(1))
    then obtain h ld where "handler_begin env data (s_loader S) = Inr (h, ld)"
      using handler_begin_starts [OF api_message_facts(1) msg(2) m assms(7)] by blast
    with data show ?thesis by simp
  next
    case False
    moreover have "reachable env (s_handlers S, s_loader S)" by (rule service_reachable_loader [OF assms(2-5)])
    ultimately have "handler_step env ch (s_handlers S ! i) (s_loader S) \<noteq> Some (Inl p)"
      using handler_enabled [OF assms(1) _ assms(6)] by blast
    with api show ?thesis by auto
  qed
qed

theorem service_handlers_never_panic_witness:
  "\<not> (\<exists>p. handler_step demo_env TakeComplete (HStart (json_Marshal (encode_message demo_message))) (s_loader submitted_service) = Some (Inl p))"
proof -
  let ?S = "submitted_service\<lparr>s_handlers := [HStart (json_Marshal (encode_message demo_message))]\<rparr>"
  have "\<not> null_daemon_file (w_fs (l_world (s_loader ?S)))"
    using demo_daemon by (simp add: submitted_service_def demo_service_def)
  with service_handlers_never_panic [OF demo_env_ok unit_server_laws demo_delivered, of 0 TakeComplete]
  show ?thesis by (simp del: handler_step.simps)
qed

text \<open>
  C27. The row is inserted after the message was submitted. In every reachable state in which a call
  stands between the two, whatever its handler has done meanwhile, even when it has ended, the
  insertion leaves the row in state NotRan: the statuses the handler wrote are lost, and this is
  what a client asking for the result is told.
\<close>

theorem late_insert_loses_result:
  assumes "queue_law sv" and "gorm_laws (sv_Repo sv) rows" and "gorm_laws (e_repo env) rows"
    and "service_reachable env sv rows S" and "Submitted rid direct \<in> set (s_calls S)"
    and "create_insert sv rid direct (api_view S) = (Inr resp, st)"
  shows "rows (l_db (s_loader S)) rid = None \<and> rows (a_db st) rid = Some (new_execution rid direct)
         \<and> (\<forall>uuid_Parse result st'. uuid_Parse rid = Inr rid \<longrightarrow> snd (GetExecution (sv_Repo sv) rid (a_db st)) = None
              \<longrightarrow> Server_GetCompileResultRequest sv uuid_Parse \<lparr>gr_Id = rid\<rparr> st = Inr (Inr result, st')
              \<longrightarrow> gr_Status result = ''NotRan'' \<and> gr_TestStatus result = ''TestNotRan'')"
proof (intro conjI allI impI)
  have "service_inv env rows S" by (rule service_reachable_inv [OF assms(1-4)])
  then show "rows (l_db (s_loader S)) rid = None" using assms(5) by (auto simp: service_inv_def)
  show row: "rows (a_db st) rid = Some (new_execution rid direct)" using create_insert_rows [OF assms(2,6)] by simp
  fix uuid_Parse :: "string \<Rightarrow> error + string" and result st'
  assume u: "uuid_Parse rid = Inr rid" and n: "snd (GetExecution (sv_Repo sv) rid (a_db st)) = None"
    and g: "Server_GetCompileResultRequest sv uuid_Parse \<lparr>gr_Id = rid\<rparr> st = Inr (Inr result, st')"
  obtain e where e: "GetExecution (sv_Repo sv) rid (a_db st) = (e, None)"
    using n by (cases "GetExecution (sv_Repo sv) rid (a_db st)") auto
  with row have "e = new_execution rid direct" using GetExecution_effect(1) [OF assms(2) e] by simp
  moreover have "gr_Status result = ex_Status e \<and> gr_TestStatus result = ex_TestStatus e"
    using g u e by (auto simp: Server_GetCompileResultRequest_def split: option.splits)
  moreover have "ContainerStatus_String NotRan = ''NotRan''" "ContainerTestStatus_String TestNotRan = ''TestNotRan''" by code_simp+
  ultimately show "gr_Status result = ''NotRan''" "gr_TestStatus result = ''TestNotRan''" by (simp_all add: new_execution_def)
qed

theorem late_insert_loses_result_witness:
  "\<exists>err S st. service_reachable demo_env unit_server (\<lambda>t. t) S \<and> s_handlers S = [HFailed err]
     \<and> create_insert unit_server ''r1'' demo_direct (api_view S) = (Inr \<lparr>cc_Id = ''r1''\<rparr>, st)
     \<and> a_db st ''r1'' = Some (new_execution ''r1'' demo_direct)"
proof -
  obtain err S where S: "service_reachable demo_env unit_server (\<lambda>t. t) S" "s_calls S = [Submitted ''r1'' demo_direct]"
    "s_handlers S = [HFailed err]" by (rule demo_late)
  have "service_inv demo_env (\<lambda>t. t) S" by (rule service_reachable_inv [OF unit_server_laws S(1)])
  then have "l_db (s_loader S) ''r1'' = None" using S(2) by (auto simp: service_inv_def)
  then obtain st where i: "create_insert unit_server ''r1'' demo_direct (api_view S) = (Inr \<lparr>cc_Id = ''r1''\<rparr>, st)"
    by (simp add: create_insert_def InsertExecution_def unit_server_def table_gorm_def new_execution_def)
  with late_insert_loses_result [OF unit_server_laws S(1) _ i] S show ?thesis by auto
qed

text \<open>
  C3. From the client to the sandbox: when both programs use the local store, as they are started,
  a validated request whose source was written reaches the loader unchanged: the handler of the
  submitted message goes on with a sandbox request that carries the submitted source, the compiler
  of the language and the test data exactly as the client sent them.
\<close>

theorem compile_request_reaches_sandbox:
  assumes "CreateCompileRequest_Validate (Some direct) = None" and "request_strings_ok rid direct" and "env_ok env"
    and "root_ok cfg" and "sv_WriteFile sv = LocalFiles_WriteFile cfg" and "if_GetFile (e_files env) = LocalFiles_GetFile cfg"
    and "readable (a_files st)" and "create_submit sv rid direct st = Inr (err, st')" and "l_files ld = a_files st'"
    and "\<forall>c. Compilers_lookup (cc_Language direct) = Some c \<longrightarrow>
           fst (LocalFiles_WriteFile cfg \<lparr>f_ID = rid, f_Name = lc_SourceFile c, f_Data = cc_Source direct\<rparr> (a_files st)) = None"
    and "machine_ok (e_goos env) (l_machine ld)" and "daemonOnce (l_machine ld) \<or> \<not> null_daemon_file (w_fs (l_world ld))"
  shows "\<exists>data rq ld'. (err, a_queue st') = sv_SubmitMessageToQueue sv data (a_queue st)
           \<and> handler_begin env data ld = Inr (HAcquire (compile_message rid direct) rq, ld')
           \<and> request_ok rq (path_elems (e_tempdir env) @ [''executions'', ''raw'', rid])
           \<and> rq_ID rq = rid \<and> rq_SourceCode rq = cc_Source direct \<and> Compilers_lookup (cc_Language direct) = Some (rq_Compiler rq)
           \<and> rq_Test rq = (if elems (cc_StandardInData direct) = [] \<and> elems (cc_ExpectedStandardOutData direct) = [] then None
                else Some \<lparr>t_ID = rid, t_StdinData = cc_StandardInData direct, t_ExpectedStdoutData = cc_ExpectedStandardOutData direct\<rparr>)"
proof -
  let ?msg = "compile_message rid direct"
  obtain c where c: "Compilers_lookup (cc_Language direct) = Some c" "compiler_ok c"
    using assms(1) compile_request_lookup by (auto simp: CreateCompileRequest_Validate_iff)
  have ids: "cm_ID ?msg = rid" "cm_Language ?msg = cc_Language direct" "plain rid" "message_ok ?msg"
    using assms(2) by (simp_all add: compile_message_def request_strings_ok_def)
  have v: "local_valid cfg rid (lc_SourceFile c)" using assms(4) ids(3) c(2) by (simp add: local_valid_def compiler_ok_def)
  have w: "fst (LocalFiles_WriteFile cfg \<lparr>f_ID = rid, f_Name = lc_SourceFile c, f_Data = cc_Source direct\<rparr> (a_files st)) = None"
    using assms(10) c(1) by simp
  have src: "LocalFiles_GetFile cfg rid (lc_SourceFile c) (a_files st') = (cc_Source direct, None)"
    by (rule local_store.submitted_source [OF assms(7) v c(1) assms(5,8) w])
  have c': "Compilers_lookup (cm_Language ?msg) = Some c" using c(1) ids(2) by simp
  obtain p m1 where b: "handler_begin env (json_Marshal (encode_message ?msg)) ld =
       Inr (HAcquire ?msg (sandbox_request (e_tempdir env) ?msg c p (fst (if_GetFile (e_files env) (cm_ID ?msg) (lc_SourceFile c) (l_files ld)))),
            set_status env (cm_ID ?msg) Created (ld\<lparr>l_machine := m1\<rparr>))"
    by (rule handler_begin_starts [OF ids(4) c' assms(11,12)])
  have "fst (if_GetFile (e_files env) (cm_ID ?msg) (lc_SourceFile c) (l_files ld)) = cc_Source direct"
    using src assms(6,9) ids(1) by simp
  moreover have "(err, a_queue st') = sv_SubmitMessageToQueue sv (json_Marshal (encode_message ?msg)) (a_queue st)"
    using assms(8) by (auto simp: create_submit_simps [OF c(1)] split: prod.splits)
  ultimately show ?thesis
    using b sandbox_request_ok [OF assms(3), of ?msg "cc_Language direct" c p "cc_Source direct"] ids(1,3) c(1)
    by (intro exI [of _ "json_Marshal (encode_message ?msg)"]
        exI [of _ "sandbox_request (e_tempdir env) ?msg c p (cc_Source direct)"])
      (auto simp: sandbox_request_def compile_message_def simp del: filepath_Join.simps)
qed

theorem compile_request_reaches_sandbox_witness:
  "\<exists>st' data rq ld'. create_submit demo_server ''r1'' demo_direct demo_api = Inr (None, st') \<and> a_queue st' = [data]
     \<and> handler_begin local_env data (local_loader (a_files st')) = Inr (HAcquire demo_message rq, ld')
     \<and> rq_SourceCode rq = ''print(1)'' \<and> rq_Test rq = Some \<lparr>t_ID = ''r1'', t_StdinData = None, t_ExpectedStdoutData = Some [''1'']\<rparr>"
proof -
  obtain c where c: "Compilers_lookup (cc_Language demo_direct) = Some c"
    using demo_direct_valid by (auto simp: CreateCompileRequest_Validate_iff compile_request_ok_def)
  then obtain st' where st': "create_submit demo_server ''r1'' demo_direct demo_api = Inr (None, st')"
    by (simp add: create_submit_simps demo_server_def)
  have strings: "request_strings_ok ''r1'' demo_direct"
    using demo_message_ok unfolding request_strings_ok_def demo_compile_message by (simp add: demo_message_def)
  have cfg: "sv_WriteFile demo_server = LocalFiles_WriteFile local_cfg" "if_GetFile (e_files local_env) = LocalFiles_GetFile local_cfg"
    by (simp_all add: demo_server_def local_env_def local_iface_def local_cfg_def)
  have fs: "readable (a_files demo_api)" "a_files demo_api = demo_fs" by (simp_all add: demo_api_def demo_fs_def readable_def)
  have w: "\<forall>c. Compilers_lookup (cc_Language demo_direct) = Some c \<longrightarrow>
      fst (LocalFiles_WriteFile local_cfg \<lparr>f_ID = ''r1'', f_Name = lc_SourceFile c, f_Data = cc_Source demo_direct\<rparr> (a_files demo_api)) = None"
    using Compilers_ok local_write_succeeds by (auto simp: fs compiler_ok_def)
  have m: "machine_ok (e_goos local_env) (l_machine (local_loader f))" "\<not> null_daemon_file (w_fs (l_world (local_loader f)))" for f
    using initial_machine_ok demo_daemon by (simp_all add: local_loader_def demo_loader_def)
  have l: "l_files (local_loader (a_files st')) = a_files st'" by (simp add: local_loader_def)
  obtain data rq ld' where d: "(None, a_queue st') = sv_SubmitMessageToQueue demo_server data (a_queue demo_api)"
    "handler_begin local_env data (local_loader (a_files st')) = Inr (HAcquire (compile_message ''r1'' demo_direct) rq, ld')"
    "rq_SourceCode rq = cc_Source demo_direct"
    "rq_Test rq = (if elems (cc_StandardInData demo_direct) = [] \<and> elems (cc_ExpectedStandardOutData demo_direct) = [] then None
       else Some \<lparr>t_ID = ''r1'', t_StdinData = cc_StandardInData demo_direct, t_ExpectedStdoutData = cc_ExpectedStandardOutData demo_direct\<rparr>)"
    using compile_request_reaches_sandbox [OF demo_direct_valid strings local_env_ok cfg fs(1) st' l w m(1) disjI2 [OF m(2)]]
    by blast
  have "a_queue st' = [data]" using d(1) by (simp add: demo_server_def demo_api_def)
  moreover have "rq_SourceCode rq = ''print(1)''" using d(3) by (simp add: demo_direct_def)
  moreover have "rq_Test rq = Some \<lparr>t_ID = ''r1'', t_StdinData = None, t_ExpectedStdoutData = Some [''1'']\<rparr>"
    using d(4) by (simp add: demo_direct_def)
  ultimately show ?thesis using st' d(2) unfolding demo_compile_message by blast
qed

text \<open>What a client is told once the handler of its request has returned.\<close>

lemma result_told:
  assumes "getContainer cid (l_manager ld) = Some d" and "c_complete d = ClosedChan" and "GetResponse d = Inr (resp, d')"
    and "limiter (l_manager ld) \<noteq> []" and "gorm_laws (e_repo env) rows" and "sv_Repo sv = e_repo env"
    and "e_files env = local_iface cfg sched" and "sv_GetFile sv = LocalFiles_GetFile cfg" and "root_ok cfg" and "plain (cm_ID msg)"
    and "rq_ID rq = cm_ID msg" and "Compilers_lookup (cm_Language msg) = Some (rq_Compiler rq)"
    and "rows (l_db ld) (cm_ID msg) = Some e" and "ex_Language e = cm_Language msg"
    and "finished (LocalFiles_WriteFiles cfg sched (upload_files rq resp) (l_files ld))"
    and "fst (snd (LocalFiles_WriteFiles cfg sched (upload_files rq resp) (l_files ld))) = []"
    and "snd (fst (UpdateExecution (e_repo env) (cm_ID msg) (execution_columns resp) (l_db ld))) = None"
    and "handler_steps env 5 (HWait msg rq cid) ld = Some (Inr (HDone, ld'))" and "readable (l_files ld')"
    and "uuid_Parse ident = Inr (cm_ID msg)" and "snd (GetExecution (e_repo env) (cm_ID msg) (l_db ld')) = None"
  shows "\<exists>result. Server_GetCompileResultRequest sv uuid_Parse \<lparr>gr_Id = ident\<rparr>
             \<lparr>a_files = l_files ld', a_queue = q, a_db = l_db ld'\<rparr> = Inr (Inr result, \<lparr>a_files = l_files ld', a_queue = q, a_db = l_db ld'\<rparr>)
           \<and> gr_Status result = ContainerStatus_String (rs_Status resp)
           \<and> gr_TestStatus result = ContainerTestStatus_String (rs_TestStatus resp)
           \<and> gr_Language result = cm_Language msg
           \<and> gr_Output result = strings_Join (elems (rs_Output resp)) newline
           \<and> gr_OutputError result = strings_Join (elems (rs_OutputError resp)) newline
           \<and> (\<not> lc_Interpreter (rq_Compiler rq) \<longrightarrow> gr_CompilerOutput result = strings_Join (elems (rs_CompilerOutput resp)) newline)"
proof -
  obtain x xs where "limiter (l_manager ld) = x # xs" using assms(4) by (cases "limiter (l_manager ld)") auto
  from handler_finishes [OF assms(1-3) this, of env msg rq] assms(18)
  have ld': "l_files ld' = snd (if_WriteFiles (e_files env) (upload_files rq resp) (l_files ld))"
    "l_db ld' = snd (UpdateExecution (e_repo env) (cm_ID msg) (execution_columns resp) (l_db ld))" by auto
  have w: "snd (LocalFiles_WriteFiles cfg sched (upload_files rq resp) (l_files ld)) = ([], l_files ld')"
    using ld'(1) assms(7,16) by (simp add: local_iface_def prod_eq_iff)
  note get = uploaded_files [OF assms(9) _ Compilers_ok [OF assms(12)] w assms(15,19)]
  have read: "x \<in> set (upload_files rq resp) \<Longrightarrow> f_ID x = cm_ID msg \<Longrightarrow>
      read_or_empty sv (cm_ID msg) (f_Name x) \<lparr>a_files = l_files ld', a_queue = q, a_db = l_db ld'\<rparr> = f_Data x" for x
    using get [of x] assms(8,10,11) by (simp add: read_or_empty_def)
  obtain found where u: "UpdateExecution (e_repo env) (cm_ID msg) (execution_columns resp) (l_db ld) = ((found, None), l_db ld')"
    using assms(17) ld'(2) by (cases "UpdateExecution (e_repo env) (cm_ID msg) (execution_columns resp) (l_db ld)") (auto simp: prod_eq_iff)
  obtain e' where e': "GetExecution (e_repo env) (cm_ID msg) (l_db ld') = (e', None)"
    using assms(21) by (cases "GetExecution (e_repo env) (cm_ID msg) (l_db ld')") auto
  note row = merged_row [OF assms(5,13) u e']
  show ?thesis
    using read [OF upload_names(1)] read [OF upload_names(2)] read [OF upload_names(3)] row assms(6,11,12,14,20) e'
    by (simp add: Server_GetCompileResultRequest_def)
qed

text \<open>
  C2. From the sandbox to the client: when the container of a request has completed and the handler
  has stored its files and updated its row without errors, a client that asks for the result is told
  the status and the test verdict of the response and gets the output, the error output and, for a
  compiled language, the output of the compiler, line by line as the runner reported them.
\<close>

theorem result_reaches_client:
  assumes "getContainer cid (l_manager ld) = Some d" and "c_complete d = ClosedChan" and "GetResponse d = Inr (resp, d')"
    and "limiter (l_manager ld) \<noteq> []" and "gorm_laws (e_repo env) rows" and "sv_Repo sv = e_repo env"
    and "e_files env = local_iface cfg sched" and "sv_GetFile sv = LocalFiles_GetFile cfg" and "root_ok cfg" and "plain (cm_ID msg)"
    and "rq_ID rq = cm_ID msg" and "Compilers_lookup (cm_Language msg) = Some (rq_Compiler rq)"
    and "rows (l_db ld) (cm_ID msg) = Some e" and "ex_Language e = cm_Language msg"
    and "finished (LocalFiles_WriteFiles cfg sched (upload_files rq resp) (l_files ld))"
    and "fst (snd (LocalFiles_WriteFiles cfg sched (upload_files rq resp) (l_files ld))) = []"
    and "snd (fst (UpdateExecution (e_repo env) (cm_ID msg) (execution_columns resp) (l_db ld))) = None"
    and "handler_steps env 5 (HWait msg rq cid) ld = Some (Inr (HDone, ld'))" and "readable (l_files ld')"
    and "uuid_Parse ident = Inr (cm_ID msg)" and "snd (GetExecution (e_repo env) (cm_ID msg) (l_db ld')) = None"
  shows "\<exists>result. Server_GetCompileResultRequest sv uuid_Parse \<lparr>gr_Id = ident\<rparr>
             \<lparr>a_files = l_files ld', a_queue = q, a_db = l_db ld'\<rparr> = Inr (Inr result, \<lparr>a_files = l_files ld', a_queue = q, a_db = l_db ld'\<rparr>)
           \<and> gr_Status result = ContainerStatus_String (rs_Status resp)
           \<and> gr_TestStatus result = ContainerTestStatus_String (rs_TestStatus resp)
           \<and> gr_Language result = cm_Language msg
           \<and> gr_Output result = strings_Join (elems (rs_Output resp)) newline
           \<and> gr_OutputError result = strings_Join (elems (rs_OutputError resp)) newline
           \<and> (\<not> lc_Interpreter (rq_Compiler rq) \<longrightarrow> gr_CompilerOutput result = strings_Join (elems (rs_CompilerOutput resp)) newline)"
  by (rule result_told [where uuid_Parse = uuid_Parse and ident = ident and rows = rows, OF assms])

theorem result_reaches_client_witness:
  "\<exists>d rq ld' result st. handler_steps local_env 5 (HWait demo_message rq ''c1'')
       ((local_loader demo_fs)\<lparr>l_manager := \<lparr>containers = [''c1'' \<mapsto> d], limiter = [''r1''], limiter_cap = 1, stopFlag = 0\<rparr>\<rparr>)
       = Some (Inr (HDone, ld'))
     \<and> st = \<lparr>a_files = l_files ld', a_queue = [], a_db = l_db ld'\<rparr>
     \<and> Server_GetCompileResultRequest demo_server Inr \<lparr>gr_Id = ''r1''\<rparr> st = Inr (Inr result, st) \<and> gr_Language result = ''python''"
proof -
  obtain c where c: "Compilers_lookup ''python'' = Some c" "lc_OutputFile c = ''output''" "lc_OutputErrFile c = ''output_error''"
    "lc_Interpreter c" by (rule python_compiler)
  obtain d where d: "live d" "c_complete d = ClosedChan" by (rule demo_closed)
  obtain resp d' where r: "GetResponse d = Inr (resp, d')"
    using test_result_live [OF d(1)] by (simp add: GetResponse_def Let_def)
  define rq where "rq = demo_request\<lparr>rq_ID := ''r1'', rq_Compiler := c\<rparr>"
  let ?m = "\<lparr>containers = [''c1'' \<mapsto> d], limiter = [''r1''], limiter_cap = 1, stopFlag = 0\<rparr>"
  define ld where "ld = (local_loader demo_fs)\<lparr>l_manager := ?m\<rparr>"
  have up: "upload_files rq resp = [\<lparr>f_ID = ''r1'', f_Name = ''output'', f_Data = strings_Join (elems (rs_Output resp)) newline\<rparr>,
      \<lparr>f_ID = ''r1'', f_Name = ''output_error'', f_Data = strings_Join (elems (rs_OutputError resp)) newline\<rparr>]"
    using c by (simp add: upload_files_def rq_def)
  obtain ts f' where w: "LocalFiles_WriteFiles local_cfg local_sched (upload_files rq resp) demo_fs = (ts, [], f')"
    "finished (ts, [] :: error list, f')" "readable f'" unfolding up by (rule local_uploads)
  have ld: "getContainer ''c1'' (l_manager ld) = Some d" "limiter (l_manager ld) = [''r1'']" "l_files ld = demo_fs"
    "l_db ld = [''r1'' \<mapsto> new_execution ''r1'' demo_direct]"
    by (simp_all add: ld_def getContainer_def local_loader_def)
  obtain ld' where s: "handler_steps local_env 5 (HWait demo_message rq ''c1'') ld = Some (Inr (HDone, ld'))"
    "l_files ld' = snd (if_WriteFiles (e_files local_env) (upload_files rq resp) (l_files ld))"
    "l_db ld' = snd (UpdateExecution (e_repo local_env) (cm_ID demo_message) (execution_columns resp) (l_db ld))"
    using handler_finishes [OF ld(1) d(2) r ld(2)] by blast
  have "l_files ld' = f'" using s(2) ld(3) w(1) by (simp add: local_env_def local_iface_def)
  moreover have env: "e_files local_env = local_iface local_cfg local_sched" "e_repo local_env = table_gorm" "sv_Repo demo_server = table_gorm"
    "sv_GetFile demo_server = LocalFiles_GetFile local_cfg" by (simp_all add: local_env_def demo_server_def local_cfg_def)
  moreover have msg: "cm_ID demo_message = ''r1''" "cm_Language demo_message = ''python''" by (simp_all add: demo_message_def)
  moreover have "snd (GetExecution table_gorm ''r1'' (l_db ld')) = None" "snd (fst (UpdateExecution table_gorm ''r1'' (execution_columns resp) (l_db ld))) = None"
    using s(3) by (simp_all add: env msg ld(4) table_gorm_def GetExecution_def UpdateExecution_def update_row_def)
  moreover have "ex_Language (new_execution ''r1'' demo_direct) = ''python''" by (simp add: new_execution_def demo_direct_def)
  ultimately obtain result where
    "Server_GetCompileResultRequest demo_server Inr \<lparr>gr_Id = ''r1''\<rparr> \<lparr>a_files = l_files ld', a_queue = [], a_db = l_db ld'\<rparr>
       = Inr (Inr result, \<lparr>a_files = l_files ld', a_queue = [], a_db = l_db ld'\<rparr>)" "gr_Language result = ''python''"
    using result_reaches_client [OF ld(1) d(2) r _ _ _ env(1,4) local_env_ok(2) _ _ _ _ _ _ _ _ s(1),
        where rows = "\<lambda>t. t" and uuid_Parse = Inr and ident = "''r1''" and q = "[]" and e = "new_execution ''r1'' demo_direct"]
      table_gorm_laws w ld c demo_message_ok(2)
    by (auto simp: rq_def)
  with s(1) show ?thesis unfolding ld_def by blast
qed

end
