(* ===== verification/Proc_Stat.thy ===== *)
theory Proc_Stat
  imports Go_Filesystem Memory_Units
begin

text \<open>
  \<open>internal/pid/pid.go\<close>: reading the memory of a process from \<open>/proc\<close>. The package variables are the record
  \<open>pid_vars\<close>; the output of \<open>getconf\<close>, a program of the system, is an argument. Indexing a slice out of
  range panics, so the fields of a short line are a panic. \<open>StreamPid\<close> is a loop over what its
  successive reads and selects find.
\<close>

definition statTypePS :: string where "statTypePS = ''ps''"
definition statTypeProc :: string where "statTypeProc = ''proc''"

record SysInfo =
  si_CPU :: int
  si_Memory :: Memory

record ProcPidStatistics =
  pp_Pid :: int
  pp_Comm :: string
  pp_State :: string
  pp_Ppid :: int
  pp_Pgrp :: int
  pp_Session :: int
  pp_TtyNr :: int
  pp_Tpgid :: int
  pp_Flags :: int
  pp_Minflt :: int
  pp_Cminflt :: int
  pp_Majflt :: int
  pp_Cmajflt :: int
  pp_Utime :: int
  pp_Stime :: int
  pp_Cutime :: int
  pp_Cstime :: int
  pp_Priority :: int
  pp_Nice :: int
  pp_NumThreads :: int
  pp_Itrealvalue :: int
  pp_Starttime :: int
  pp_Vsize :: int
  pp_Rss :: int
  pp_Rsslim :: int
  pp_Startcode :: int
  pp_Endcode :: int
  pp_Startstack :: int
  pp_Kstkesp :: int
  pp_Kstkeip :: int
  pp_Signal :: int
  pp_Blocked :: int
  pp_Sigignore :: int
  pp_Sigcatch :: int
  pp_Wchan :: int
  pp_Nswap :: int
  pp_Cnswap :: int
  pp_ExitSignal :: int
  pp_Processor :: int
  pp_RtPriority :: int
  pp_Policy :: int
  pp_DelayacctBlkioTicks :: int
  pp_GuestTime :: int
  pp_CguestTime :: int
  pp_StartData :: int
  pp_EndData :: int
  pp_StartBrk :: int
  pp_ArgStart :: int
  pp_ArgEnd :: int
  pp_EnvStart :: int
  pp_EnvEnd :: int
  pp_ExitCode :: int

record pid_vars =
  pv_eol :: string
  pv_clkTck :: int
  pv_PageSize :: int

definition default_vars :: pid_vars where
  "default_vars = \<lparr>pv_eol = [CHR 0x0A], pv_clkTck = 100, pv_PageSize = 4096\<rparr>"

definition fnMapping :: "string \<Rightarrow> string" where
  "fnMapping platform =
     (case map_of
        [(''aix'', statTypePS), (''darwin'', statTypePS), (''freebsd'', statTypePS), (''sunos'', statTypePS),
         (''linux'', statTypeProc), (''netbsd'', statTypeProc), (''openbsd'', statTypeProc),
         (''windows'', ''windows'')] platform of
        None \<Rightarrow> []
      | Some s \<Rightarrow> s)"

subsection \<open>Start-up\<close>

definition parseInt64 :: "string \<Rightarrow> int" where
  "parseInt64 val = fst (strconv_ParseInt val)"

definition formatStdOut :: "string \<Rightarrow> bytes \<Rightarrow> nat \<Rightarrow> panic + string list" where
  "formatStdOut eol stdout splitIndex =
     (let lines = strings_Split stdout eol
      in if splitIndex < length lines then Inr (strings_Fields (lines ! splitIndex)) else Inl IndexOutOfRange)"

text \<open>\<open>parseInt64(formatStdOut(out, 0)[0])\<close> on the output of a command that succeeded; otherwise the old value.\<close>

definition getconf_value :: "string \<Rightarrow> error + bytes \<Rightarrow> int \<Rightarrow> panic + int" where
  "getconf_value eol out old =
     (case out of
        Inl err \<Rightarrow> Inr old
      | Inr stdout \<Rightarrow>
          (case formatStdOut eol stdout 0 of
             Inl p \<Rightarrow> Inl p
           | Inr [] \<Rightarrow> Inl IndexOutOfRange
           | Inr (w # ws) \<Rightarrow> Inr (parseInt64 w)))"

definition initProc :: "error + bytes \<Rightarrow> error + bytes \<Rightarrow> pid_vars \<Rightarrow> panic + pid_vars" where
  "initProc clk page v =
     (case getconf_value (pv_eol v) clk (pv_clkTck v) of
        Inl p \<Rightarrow> Inl p
      | Inr c \<Rightarrow>
          (case getconf_value (pv_eol v) page (pv_PageSize v) of
             Inl p \<Rightarrow> Inl p
           | Inr s \<Rightarrow> Inr (v\<lparr>pv_clkTck := c, pv_PageSize := s\<rparr>)))"

definition pid_init :: "string \<Rightarrow> error + bytes \<Rightarrow> error + bytes \<Rightarrow> pid_vars \<Rightarrow> panic + pid_vars" where
  "pid_init platform clk page v =
     (let v1 = (if platform = ''windows'' then v\<lparr>pv_eol := [CHR 0x0D, CHR 0x0A]\<rparr> else v)
      in if fnMapping platform = statTypeProc then initProc clk page v1 else Inr v1)"

subsection \<open>One read\<close>

definition parse_statistics :: "string list \<Rightarrow> panic + ProcPidStatistics" where
  "parse_statistics infos =
     (if length infos < 52 then Inl IndexOutOfRange
      else Inr \<lparr>pp_Pid = parseInt64 (infos ! 0),
            pp_Comm = infos ! 1,
            pp_State = infos ! 2,
            pp_Ppid = parseInt64 (infos ! 3),
            pp_Pgrp = parseInt64 (infos ! 4),
            pp_Session = parseInt64 (infos ! 5),
            pp_TtyNr = parseInt64 (infos ! 6),
            pp_Tpgid = parseInt64 (infos ! 7),
            pp_Flags = parseInt64 (infos ! 8),
            pp_Minflt = parseInt64 (infos ! 9),
            pp_Cminflt = parseInt64 (infos ! 10),
            pp_Majflt = parseInt64 (infos ! 11),
            pp_Cmajflt = parseInt64 (infos ! 12),
            pp_Utime = parseInt64 (infos ! 13),
            pp_Stime = parseInt64 (infos ! 14),
            pp_Cutime = parseInt64 (infos ! 15),
            pp_Cstime = parseInt64 (infos ! 16),
            pp_Priority = parseInt64 (infos ! 17),
            pp_Nice = parseInt64 (infos ! 18),
            pp_NumThreads = parseInt64 (infos ! 19),
            pp_Itrealvalue = parseInt64 (infos ! 20),
            pp_Starttime = parseInt64 (infos ! 21),
            pp_Vsize = parseInt64 (infos ! 22),
            pp_Rss = parseInt64 (infos ! 23),
            pp_Rsslim = parseInt64 (infos ! 24),
            pp_Startcode = parseInt64 (infos ! 25),
            pp_Endcode = parseInt64 (infos ! 26),
            pp_Startstack = parseInt64 (infos ! 27),
            pp_Kstkesp = parseInt64 (infos ! 28),
            pp_Kstkeip = parseInt64 (infos ! 29),
            pp_Signal = parseInt64 (infos ! 30),
            pp_Blocked = parseInt64 (infos ! 31),
            pp_Sigignore = parseInt64 (infos ! 32),
            pp_Sigcatch = parseInt64 (infos ! 33),
            pp_Wchan = parseInt64 (infos ! 34),
            pp_Nswap = parseInt64 (infos ! 35),
            pp_Cnswap = parseInt64 (infos ! 36),
            pp_ExitSignal = parseInt64 (infos ! 37),
            pp_Processor = parseInt64 (infos ! 38),
            pp_RtPriority = parseInt64 (infos ! 39),
            pp_Policy = parseInt64 (infos ! 40),
            pp_DelayacctBlkioTicks = parseInt64 (infos ! 41),
            pp_GuestTime = parseInt64 (infos ! 42),
            pp_CguestTime = parseInt64 (infos ! 43),
            pp_StartData = parseInt64 (infos ! 44),
            pp_EndData = parseInt64 (infos ! 45),
            pp_StartBrk = parseInt64 (infos ! 46),
            pp_ArgStart = parseInt64 (infos ! 47),
            pp_ArgEnd = parseInt64 (infos ! 48),
            pp_EnvStart = parseInt64 (infos ! 49),
            pp_EnvEnd = parseInt64 (infos ! 50),
            pp_ExitCode = parseInt64 (infos ! 51)\<rparr>)"

definition statFromProc :: "pid_vars \<Rightarrow> int \<Rightarrow> fs \<Rightarrow> panic + (error + SysInfo)" where
  "statFromProc v pid f =
     (case os_ReadFile (filepath_Join [''/proc'', strconv_Itoa pid, ''stat'']) f of
        Inl err \<Rightarrow> Inr (Inl err)
      | Inr procStatFileBytes \<Rightarrow>
          (case parse_statistics (strings_Split procStatFileBytes '' '') of
             Inl p \<Rightarrow> Inl p
           | Inr pidStatistics \<Rightarrow>
               Inr (Inr \<lparr>si_CPU = 0, si_Memory = wrap64 (pp_Rss pidStatistics * pv_PageSize v)\<rparr>)))"

definition stat :: "string \<Rightarrow> pid_vars \<Rightarrow> int \<Rightarrow> string \<Rightarrow> fs \<Rightarrow> panic + (error + SysInfo)" where
  "stat platform v pid statType f =
     (if statType = statTypeProc then statFromProc v pid f
      else Inr (Inl (Errorf (''unsupported OS '' @ platform))))"

definition GetStat :: "string \<Rightarrow> pid_vars \<Rightarrow> int \<Rightarrow> fs \<Rightarrow> panic + (error + SysInfo)" where
  "GetStat platform v pid f = stat platform v pid (fnMapping platform) f"

subsection \<open>The stream of reads\<close>

text \<open>
  Each iteration sees a file system and a select, which either takes the closed \<open>done\<close> channel or
  not. The result is what was sent on the unbuffered channel and whether it was closed.
\<close>

fun StreamPid :: "string \<Rightarrow> pid_vars \<Rightarrow> int \<Rightarrow> (fs \<times> bool) list \<Rightarrow> panic + (SysInfo list \<times> bool)" where
  "StreamPid platform v pid [] = Inr ([], False)"
| "StreamPid platform v pid ((f, takes_done) # its) =
     (case GetStat platform v pid f of
        Inl p \<Rightarrow> Inl p
      | Inr (Inl err) \<Rightarrow> if takes_done then Inr ([], True) else StreamPid platform v pid its
      | Inr (Inr state) \<Rightarrow>
          if takes_done then Inr ([], True)
          else (case StreamPid platform v pid its of
                  Inl p \<Rightarrow> Inl p
                | Inr (sent, fin) \<Rightarrow> Inr (state # sent, fin)))"

subsection \<open>Reading a line of the kernel\<close>

lemma proc_path:
  "path_elems (filepath_Join [''/proc'', strconv_Itoa pid, ''stat'']) = [''proc'', strconv_Itoa pid, ''stat'']"
proof -
  have "CHR ''/'' \<notin> set (strconv_Itoa pid)" "CHR ''.'' \<notin> set (strconv_Itoa pid)"
    using strconv_Itoa_chars [of "CHR ''/''" pid] strconv_Itoa_chars [of "CHR ''.''" pid] by (auto simp: is_digit_def)
  moreover have "strconv_Itoa pid \<noteq> []" by (simp add: strconv_Itoa_def)
  ultimately have "plain (strconv_Itoa pid)" by (auto simp: plain_def)
  then have p: "list_all plain [''proc'', strconv_Itoa pid, ''stat'']" by (simp add: plain_def)
  have "filepath_Join [''/proc'', strconv_Itoa pid, ''stat''] = filepath_Clean (abs_path [''proc'', strconv_Itoa pid, ''stat''])"
    by (simp add: abs_path_def)
  with p show ?thesis by (simp add: clean_abs_path path_elems_abs_path del: filepath_Join.simps)
qed

text \<open>
  The line the kernel writes: the process id, the name of the program in parentheses, which may
  hold spaces, and the remaining fields from the state on.
\<close>

definition stat_line :: "int \<Rightarrow> string \<Rightarrow> string list \<Rightarrow> bytes" where
  "stat_line pid comm rest = strconv_Itoa pid @ '' '' @ comm @ '' '' @ strings_Join rest '' ''"

lemma split_stat_line:
  assumes "list_all (\<lambda>w. CHR '' '' \<notin> set w) rest" and "rest \<noteq> []"
  shows "strings_Split (stat_line pid comm rest) '' '' = strconv_Itoa pid # strings_Split comm '' '' @ rest"
proof -
  have "CHR '' '' \<notin> set (strconv_Itoa pid)"
    using strconv_Itoa_chars [of "CHR '' ''" pid] by (auto simp: is_digit_def)
  then have "strings_Split (stat_line pid comm rest) '' '' = strconv_Itoa pid # strings_Split (comm @ CHR '' '' # strings_Join rest '' '') '' ''"
    using split_sep_Cons [of "CHR '' ''" "strconv_Itoa pid"] by (simp add: stat_line_def)
  moreover have "strings_Split (strings_Join rest '' '') '' '' = rest"
    using assms by (intro split_join) (auto simp: list_all_iff)
  ultimately show ?thesis by (simp add: split_append)
qed

lemma statFromProc_line:
  assumes "\<not> fault f OpRead [''proc'', strconv_Itoa pid, ''stat'']"
    and "files f [''proc'', strconv_Itoa pid, ''stat''] = Some content"
  shows "statFromProc v pid f =
           (let infos = strings_Split content '' ''
            in if length infos < 52 then Inl IndexOutOfRange
               else Inr (Inr \<lparr>si_CPU = 0, si_Memory = wrap64 (parseInt64 (infos ! 23) * pv_PageSize v)\<rparr>))"
  using assms proc_path [of pid]
  by (simp add: statFromProc_def os_ReadFile_def parse_statistics_def Let_def del: filepath_Join.simps)

lemma StreamPid_closed:
  "StreamPid platform v pid its = Inr (sent, fin) \<Longrightarrow> fin \<longleftrightarrow> (\<exists>it\<in>set its. snd it)"
proof (induction its arbitrary: sent fin)
  case (Cons it its)
  obtain f b where it: "it = (f, b)" by fastforce
  with Cons show ?case by (cases b) (fastforce split: sum.splits)+
qed simp

subsection \<open>Properties\<close>

text \<open>Which field of the line is taken as the number of resident pages.\<close>

lemma GetStat_field:
  assumes "\<not> fault f OpRead [''proc'', strconv_Itoa pid, ''stat'']"
    and "files f [''proc'', strconv_Itoa pid, ''stat''] = Some (stat_line pid comm rest)"
    and "list_all (\<lambda>w. CHR '' '' \<notin> set w) rest" and "length rest \<ge> 50"
    and "length (strings_Split comm '' '') \<le> 22"
  shows "GetStat ''linux'' v pid f =
           Inr (Inr \<lparr>si_CPU = 0,
             si_Memory = wrap64 (parseInt64 (rest ! (22 - length (strings_Split comm '' ''))) * pv_PageSize v)\<rparr>)"
proof -
  let ?n = "length (strings_Split comm '' '')"
  have n: "0 < ?n" by (simp only: length_greater_0_conv) simp
  have infos: "strings_Split (stat_line pid comm rest) '' '' = strconv_Itoa pid # strings_Split comm '' '' @ rest"
    using assms(3,4) by (intro split_stat_line) auto
  have "(strconv_Itoa pid # strings_Split comm '' '' @ rest) ! 23 = (strings_Split comm '' '' @ rest) ! 22" by simp
  also have "\<dots> = rest ! (22 - ?n)" using assms(5) by (simp add: nth_append)
  finally have field: "(strconv_Itoa pid # strings_Split comm '' '' @ rest) ! 23 = rest ! (22 - ?n)" .
  have "\<not> length (strconv_Itoa pid # strings_Split comm '' '' @ rest) < 52" using assms(4) n by (simp only: length_Cons length_append)
  moreover have "fnMapping ''linux'' = statTypeProc" by (simp add: fnMapping_def)
  ultimately show ?thesis
    using field by (simp only: GetStat_def stat_def statFromProc_line [OF assms(1,2)] infos Let_def if_True if_False simp_thms)
qed

text \<open>
  C26. What is read as the memory of a process is the number of resident pages times the page size
  exactly when the program's name holds no space: with \<open>n\<close> words in the name, the field \<open>n - 1\<close> places
  before the resident pages is taken instead. The product wraps around at 64 bits.
\<close>

theorem GetStat_memory_field:
  assumes "\<not> fault f OpRead [''proc'', strconv_Itoa pid, ''stat'']"
    and "files f [''proc'', strconv_Itoa pid, ''stat''] = Some (stat_line pid comm rest)"
    and "list_all (\<lambda>w. CHR '' '' \<notin> set w) rest" and "length rest \<ge> 50"
    and "length (strings_Split comm '' '') \<le> 22"
  shows "GetStat ''linux'' v pid f =
           Inr (Inr \<lparr>si_CPU = 0,
             si_Memory = wrap64 (parseInt64 (rest ! (22 - length (strings_Split comm '' ''))) * pv_PageSize v)\<rparr>)"
  by (rule GetStat_field [OF assms])

theorem GetStat_memory_field_witness:
  "GetStat ''linux'' default_vars 7
     (\<lparr>files = [[''proc'', strconv_Itoa 7, ''stat''] \<mapsto> stat_line 7 ''(sh)'' (replicate 21 ''0'' @ ''25'' # replicate 28 ''0'')],
       dirs = {}, fault = (\<lambda>op k. False)\<rparr>) = Inr (Inr \<lparr>si_CPU = 0, si_Memory = 102400\<rparr>)
   \<and> GetStat ''linux'' default_vars 7
     (\<lparr>files = [[''proc'', strconv_Itoa 7, ''stat''] \<mapsto> stat_line 7 ''(my sh)'' (replicate 21 ''0'' @ ''25'' # replicate 28 ''0'')],
       dirs = {}, fault = (\<lambda>op k. False)\<rparr>) = Inr (Inr \<lparr>si_CPU = 0, si_Memory = 0\<rparr>)"
proof -
  let ?rest = "replicate 21 ''0'' @ ''25'' # replicate 28 ''0''"
  have nospace: "list_all (\<lambda>w. CHR '' '' \<notin> set w) ?rest" by (simp add: list_all_iff)
  have split: "strings_Split ''(sh)'' '' '' = [''(sh)'']" "strings_Split ''(my sh)'' '' '' = [''(my'', ''sh)'']"
    by (simp_all add: strings_Split_def)
  have field: "?rest ! 21 = ''25''" "?rest ! 20 = ''0''" by (simp_all add: nth_append)
  have num: "parseInt64 ''25'' = 25" "parseInt64 ''0'' = 0"
    by (simp_all add: parseInt64_def strconv_ParseInt_def ParseUint_digits_def is_digit_def digits_val_def digit_val_def)
  have "GetStat ''linux'' default_vars 7
     (\<lparr>files = [[''proc'', strconv_Itoa 7, ''stat''] \<mapsto> stat_line 7 c ?rest], dirs = {}, fault = (\<lambda>op k. False)\<rparr>) =
     Inr (Inr \<lparr>si_CPU = 0, si_Memory = wrap64 (parseInt64 (?rest ! (22 - length (strings_Split c '' ''))) * 4096)\<rparr>)"
    if "length (strings_Split c '' '') \<le> 22" for c
    using GetStat_memory_field [OF _ _ nospace _ that, of _ 7 default_vars]
    by (simp add: default_vars_def)
  from this [of "''(sh)''"] this [of "''(my sh)''"] show ?thesis
    by (simp add: split field num in_int64_def)
qed

text \<open>
  C38. Reading the statistics panics exactly when the file can be read and its content has fewer than
  52 words.
\<close>

theorem GetStat_panics_iff:
  "(\<exists>p. GetStat ''linux'' v pid f = Inl p) \<longleftrightarrow>
     \<not> fault f OpRead [''proc'', strconv_Itoa pid, ''stat'']
     \<and> (\<exists>content. files f [''proc'', strconv_Itoa pid, ''stat''] = Some content \<and> length (strings_Split content '' '') < 52)"
proof -
  have linux: "GetStat ''linux'' v pid f = statFromProc v pid f" by (simp add: GetStat_def stat_def fnMapping_def)
  show ?thesis
  proof (cases "fault f OpRead [''proc'', strconv_Itoa pid, ''stat''] \<or> files f [''proc'', strconv_Itoa pid, ''stat''] = None")
    case True
    then have "\<exists>e. os_ReadFile (filepath_Join [''/proc'', strconv_Itoa pid, ''stat'']) f = Inl e"
      using proc_path [of pid] by (auto simp: os_ReadFile_def Let_def simp del: filepath_Join.simps)
    then have "\<exists>e. statFromProc v pid f = Inr (Inl e)"
      by (auto simp: statFromProc_def simp del: filepath_Join.simps)
    with True linux show ?thesis by auto
  next
    case False
    then obtain content where "files f [''proc'', strconv_Itoa pid, ''stat''] = Some content" by auto
    with False linux statFromProc_line [of f pid content v] show ?thesis by (simp add: Let_def)
  qed
qed

end
