(* ===== verification/Runner.thy ===== *)
theory Runner
  imports Sandbox_Container Proc_Stat
begin

text \<open>
  \<open>cmd/services/cars-runner/main.go\<close>: the program inside the container that compiles and runs the
  submitted code and writes \<open>runner-out.json\<close>. The commands it starts are programs of the container:
  what they do is the record \<open>runner_env\<close>, arbitrary functions on the container's file system, as are
  the measured times. Of \<open>html/template\<close> the actions \<open>{{.Field}}\<close> on the string fields of the parameters
  are modelled, with the escaping of HTML text; other actions are errors here.
\<close>

subsection \<open>Classifying errors\<close>

text \<open>The argument may be the nil error.\<close>

definition determineExecutionError :: "error option \<Rightarrow> ContainerStatus" where
  "determineExecutionError err =
     (case err of
        None \<Rightarrow> RunTimeError
      | Some e \<Rightarrow>
          if errors_Is e (\<lambda>x. x = MemoryLimitExceeded) then MemoryConstraintExceeded
          else if errors_Is e (\<lambda>x. x = DeadlineExceeded) then TimeLimitExceeded
          else RunTimeError)"

subsection \<open>Templates\<close>

datatype segment = Text string | Field string

definition is_letter :: "char \<Rightarrow> bool" where
  "is_letter c \<longleftrightarrow> (let n = of_char c :: nat in (65 \<le> n \<and> n \<le> 90) \<or> (97 \<le> n \<and> n \<le> 122))"

fun template_action :: "string \<Rightarrow> error + segment" where
  "template_action a =
     (case strings_TrimSpace a of
        [] \<Rightarrow> Inl (Errorf ''missing value for command'')
      | c # name \<Rightarrow>
          if c = CHR ''.'' \<and> name \<noteq> [] \<and> list_all is_letter name then Inr (Field name)
          else Inl (Errorf ''unexpected in command''))"

text \<open>The pieces after each opening \<open>{{\<close>: an action up to the first \<open>}}\<close>, then text.\<close>

fun template_pieces :: "string list \<Rightarrow> error + segment list" where
  "template_pieces [] = Inr []"
| "template_pieces (p # ps) =
     (case strings_Split p ''}}'' of
        a # b # bs \<Rightarrow>
          (case template_action a of
             Inl e \<Rightarrow> Inl e
           | Inr act \<Rightarrow>
               (case template_pieces ps of
                  Inl e \<Rightarrow> Inl e
                | Inr segs \<Rightarrow> Inr (act # Text (strings_Join (b # bs) ''}}'') # segs)))
      | _ \<Rightarrow> Inl (Errorf ''unclosed action''))"

definition template_Parse :: "string \<Rightarrow> error + segment list" where
  "template_Parse value =
     (case strings_Split value ''{{'' of
        [] \<Rightarrow> Inr []
      | t # ps \<Rightarrow> (case template_pieces ps of Inl e \<Rightarrow> Inl e | Inr segs \<Rightarrow> Inr (Text t # segs)))"

definition html_char :: "char \<Rightarrow> string" where
  "html_char c =
     (if c = CHR 0x00 then [CHR 0xEF, CHR 0xBF, CHR 0xBD]
      else if c = CHR 0x22 then ''&#34;''
      else if c = CHR ''&'' then ''&amp;''
      else if c = CHR 0x27 then ''&#39;''
      else if c = CHR ''+'' then ''&#43;''
      else if c = CHR ''<'' then ''&lt;''
      else if c = CHR ''>'' then ''&gt;''
      else [c])"

definition html_escape :: "string \<Rightarrow> string" where
  "html_escape s = concat (map html_char s)"

definition template_field :: "ExecutionParameters \<Rightarrow> string \<Rightarrow> error + string" where
  "template_field params name =
     (if name = ''ID'' then Inr (ep_ID params)
      else if name = ''Language'' then Inr (ep_Language params)
      else if name = ''Run'' then Inr (ep_Run params)
      else if name = ''StandardInput'' then Inr (ep_StandardInput params)
      else Inl (Errorf ''can't evaluate field''))"

fun template_Execute :: "ExecutionParameters \<Rightarrow> segment list \<Rightarrow> error + string" where
  "template_Execute params [] = Inr []"
| "template_Execute params (Text t # segs) =
     (case template_Execute params segs of Inl e \<Rightarrow> Inl e | Inr r \<Rightarrow> Inr (t @ r))"
| "template_Execute params (Field name # segs) =
     (case template_field params name of
        Inl e \<Rightarrow> Inl e
      | Inr v \<Rightarrow> (case template_Execute params segs of Inl e \<Rightarrow> Inl e | Inr r \<Rightarrow> Inr (html_escape v @ r)))"

definition parseTemplateString :: "string \<Rightarrow> ExecutionParameters \<Rightarrow> error + string" where
  "parseTemplateString value params =
     (case template_Parse value of
        Inl err \<Rightarrow> Inl err
      | Inr tmpl \<Rightarrow> template_Execute params tmpl)"

subsection \<open>The environment\<close>

text \<open>
  A compile command: its combined output, its error, and whether the context's deadline has passed
  when it ends. The run: the error of starting it, the memory samples delivered while it runs, the
  error of waiting for it, its peak resident set in kilobytes where the system reports one, and
  whether the deadline has passed.
\<close>

record run_facts =
  rf_start :: "error option"
  rf_samples :: "SysInfo list"
  rf_wait :: "error option"
  rf_maxrss :: "int option"
  rf_deadline :: bool

record runner_env =
  re_compile :: "string list \<Rightarrow> fs \<Rightarrow> (bytes \<times> error option \<times> bool) \<times> fs"
  re_compile_nanos :: int
  re_run :: "string list \<Rightarrow> error + bytes \<Rightarrow> fs \<Rightarrow> run_facts \<times> fs"
  re_run_nanos :: int

subsection \<open>Compiling\<close>

fun compile_loop ::
  "runner_env \<Rightarrow> ExecutionParameters \<Rightarrow> string list \<Rightarrow> string slice \<Rightarrow> error option \<Rightarrow> fs \<Rightarrow> (string slice \<times> error option) \<times> fs" where
  "compile_loop env params [] compilerOutput err f = ((compilerOutput, err), f)"
| "compile_loop env params (step # steps) compilerOutput err f =
     (case parseTemplateString step params of
        Inl parseErr \<Rightarrow> ((compilerOutput, Some parseErr), f)
      | Inr commandString \<Rightarrow>
          (case re_compile env (strings_Split commandString '' '') f of
             ((output, cmdErr, deadline), f1) \<Rightarrow>
               let compilerOutput1 = (if length output \<noteq> 0 then Some (strings_Split output newline) else compilerOutput)
               in if deadline then ((compilerOutput1, Some DeadlineExceeded), f1)
                  else compile_loop env params steps compilerOutput1 cmdErr f1))"

definition compileProject :: "runner_env \<Rightarrow> ExecutionParameters \<Rightarrow> fs \<Rightarrow> (string slice \<times> int \<times> error option) \<times> fs" where
  "compileProject env params f =
     (if length (elems (ep_CompileSteps params)) > 0
      then (case compile_loop env params (elems (ep_CompileSteps params)) None None f of
              ((compilerOutput, err), f1) \<Rightarrow> ((compilerOutput, re_compile_nanos env, err), f1))
      else ((None, 0, None), f))"

subsection \<open>Running\<close>

record RunExecution =
  rx_standardOutput :: "string slice"
  rx_errorOutput :: "string slice"
  rx_runtimeNano :: int
  rx_memoryConsumption :: Memory

definition zero_execution_result :: RunExecution where
  "zero_execution_result = \<lparr>rx_standardOutput = None, rx_errorOutput = None, rx_runtimeNano = 0, rx_memoryConsumption = 0\<rparr>"

text \<open>The loop over the memory samples: whether the limit was passed, and the highest value.\<close>

fun watch_memory :: "Memory \<Rightarrow> Memory \<Rightarrow> SysInfo list \<Rightarrow> bool \<times> Memory" where
  "watch_memory limit cur [] = (False, cur)"
| "watch_memory limit cur (s # ss) =
     (if si_Memory s > cur
      then (if si_Memory s > limit then (True, si_Memory s) else watch_memory limit (si_Memory s) ss)
      else watch_memory limit cur ss)"

text \<open>
  \<open>bufio.ScanLines\<close> on a scanner with its default buffer: a line of 65536 bytes or more ends the
  scan, a trailing carriage return is dropped, an empty last line is not reported.
\<close>

definition MaxScanTokenSize :: nat where "MaxScanTokenSize = 65536"

definition raw_lines :: "bytes \<Rightarrow> string list" where
  "raw_lines data = (let ls = strings_Split data newline in if last ls = [] then butlast ls else ls)"

definition dropCR :: "string \<Rightarrow> string" where
  "dropCR l = (if l \<noteq> [] \<and> last l = CHR 0x0D then butlast l else l)"

fun scan_loop :: "string list \<Rightarrow> nat \<Rightarrow> string list \<Rightarrow> string list" where
  "scan_loop outputLines outputLinesCount [] = outputLines"
| "scan_loop outputLines outputLinesCount (l # ls) =
     (if length l \<ge> MaxScanTokenSize then outputLines
      else if outputLinesCount + 1 \<ge> 1000 then outputLines @ [dropCR l]
      else scan_loop (outputLines @ [dropCR l]) (outputLinesCount + 1) ls)"

definition scan_file :: "string \<Rightarrow> fs \<Rightarrow> string list" where
  "scan_file path f = (case os_ReadFile path f of Inl err \<Rightarrow> [] | Inr data \<Rightarrow> scan_loop [] 0 (raw_lines data))"

definition final_memory :: "run_facts \<Rightarrow> Memory" where
  "final_memory r = (case rf_maxrss r of None \<Rightarrow> Byte | Some maxrss \<Rightarrow> wrap64 (maxrss * 1024))"

text \<open>The files are opened, the output files truncated, and the command is started and waited for.\<close>

definition run_command :: "runner_env \<Rightarrow> ExecutionParameters \<Rightarrow> string \<Rightarrow> fs \<Rightarrow> run_facts \<times> fs" where
  "run_command env params cmd f =
     (let stdin = os_ReadFile (''/input/'' @ ep_StandardInput params) f;
          f1 = snd (os_Create ''/input/run-standard-output'' f);
          f2 = snd (os_Create ''/input/run-error-output'' f1)
      in re_run env (strings_Split cmd '' '') stdin f2)"

definition run_report :: "runner_env \<Rightarrow> ExecutionParameters \<Rightarrow> run_facts \<Rightarrow> fs \<Rightarrow> RunExecution \<times> error option" where
  "run_report env params r f =
     (let resp = zero_execution_result\<lparr>rx_memoryConsumption := Byte, rx_runtimeNano := re_run_nanos env\<rparr>
      in case rf_start r of
           Some cmdErr \<Rightarrow> (resp, Some cmdErr)
         | None \<Rightarrow>
             (case watch_memory (ep_ExecutionMemory params) Byte (rf_samples r) of
                (True, mem) \<Rightarrow> (resp\<lparr>rx_memoryConsumption := mem\<rparr>, Some MemoryLimitExceeded)
              | (False, mem) \<Rightarrow>
                  let mem1 = (if final_memory r > mem then final_memory r else mem);
                      resp1 = resp\<lparr>rx_memoryConsumption := mem1\<rparr>
                  in if mem1 > ep_ExecutionMemory params then (resp1, Some MemoryLimitExceeded)
                     else let resp2 = resp1\<lparr>rx_standardOutput := Some (scan_file ''/input/run-standard-output'' f),
                                            rx_errorOutput := Some (scan_file ''/input/run-error-output'' f)\<rparr>
                          in if rf_deadline r then (resp2, Some DeadlineExceeded)
                             else (resp2, None)))"

definition runProject :: "runner_env \<Rightarrow> ExecutionParameters \<Rightarrow> fs \<Rightarrow> (RunExecution option \<times> error option) \<times> fs" where
  "runProject env params f =
     (case parseTemplateString (ep_Run params) params of
        Inl err \<Rightarrow> ((None, Some err), f)
      | Inr parsedCommand \<Rightarrow>
          (case run_command env params parsedCommand f of
             (r, f1) \<Rightarrow> (case run_report env params r f1 of (resp, err) \<Rightarrow> ((Some resp, err), f1))))"

subsection \<open>The program\<close>

definition os_WriteFile :: "string \<Rightarrow> bytes \<Rightarrow> fs \<Rightarrow> error option \<times> fs" where
  "os_WriteFile p data f =
     (case os_Create p f of
        (Some e, f1) \<Rightarrow> (Some e, f1)
      | (None, f1) \<Rightarrow> file_Write p data f1)"

text \<open>The response of a run with given parameters; reading a field of the nil result panics.\<close>

definition runner_response :: "runner_env \<Rightarrow> ExecutionParameters \<Rightarrow> fs \<Rightarrow> panic + (ExecutionResponse \<times> fs)" where
  "runner_response env params f =
     (case compileProject env params f of
        ((compilerOutput, compileTime, compileErr), f1) \<Rightarrow>
          let responseCode = (if compileErr \<noteq> None then determineExecutionError None else Finished);
              (runExecution, responseCode1, f2) =
                (if responseCode = Finished
                 then (case runProject env params f1 of
                         ((x, runtimeErr), f2) \<Rightarrow>
                           (x, if runtimeErr \<noteq> None then determineExecutionError runtimeErr else responseCode, f2))
                 else (Some zero_execution_result, responseCode, f1))
          in case runExecution of
               None \<Rightarrow> Inl NilDereference
             | Some x \<Rightarrow>
                 Inr (\<lparr>er_CompileTime = compileTime, er_CompilerOutput = compilerOutput,
                       er_Output = rx_standardOutput x, er_OutputErr = rx_errorOutput x,
                       er_Runtime = rx_runtimeNano x, er_RuntimeMemoryBytes = Bytes (rx_memoryConsumption x),
                       er_Status = responseCode1\<rparr>, f2))"

datatype runner_outcome = Fatal string | Crashed panic | Exited fs

definition runner_main :: "runner_env \<Rightarrow> fs \<Rightarrow> runner_outcome" where
  "runner_main env f =
     (case os_Stat ''/input/runner.json'' f of
        Some (ErrNotExist p) \<Rightarrow> Fatal ''runner.json configuration file does not exist and container cannot be executed.''
      | _ \<Rightarrow>
          (case os_ReadFile ''/input/runner.json'' f of
             Inl err \<Rightarrow> Fatal ''runner.json failed to be read''
           | Inr fileBytes \<Rightarrow>
               let params = snd (json_Unmarshal store_parameter fileBytes zero_parameters)
               in case runner_response env params f of
                    Inl p \<Rightarrow> Crashed p
                  | Inr (executionResponse, f1) \<Rightarrow>
                      Exited (snd (os_WriteFile ''/input/runner-out.json'' (json_MarshalIndent (encode_response executionResponse)) f1))))"

subsection \<open>Output lines\<close>

lemma scan_loop_take:
  "n < 1000 \<Longrightarrow> scan_loop out n ls = out @ map dropCR (take (1000 - n) (takeWhile (\<lambda>l. length l < MaxScanTokenSize) ls))"
proof (induction out n ls rule: scan_loop.induct)
  case (1 out n)
  then show ?case by simp
next
  case (2 out n l ls)
  show ?case
  proof (cases "length l \<ge> MaxScanTokenSize \<or> n + 1 \<ge> 1000")
    case True
    with "2.prems" show ?thesis by (cases "1000 - n") auto
  next
    case False
    then have "1000 - n = Suc (1000 - (n + 1))" using "2.prems" by auto
    moreover have "scan_loop (out @ [dropCR l]) (n + 1) ls =
        (out @ [dropCR l]) @ map dropCR (take (1000 - (n + 1)) (takeWhile (\<lambda>l. length l < MaxScanTokenSize) ls))"
      using "2.IH" False by auto
    ultimately show ?thesis using False by simp
  qed
qed

lemma raw_lines_text:
  assumes "list_all (\<lambda>l. CHR 0x0A \<notin> set l) ls"
  shows "raw_lines (concat (map (\<lambda>l. l @ newline) ls)) = ls"
proof -
  have "strings_Split (concat (map (\<lambda>l. l @ newline) ls)) newline = ls @ [[]]"
    using assms
  proof (induction ls)
    case Nil
    show ?case by (simp add: strings_Split_def)
  next
    case (Cons l ls)
    then show ?case
      using split_sep_Cons [of "CHR 0x0A" l "concat (map (\<lambda>l. l @ newline) ls)"] by simp
  qed
  then show ?thesis by (simp add: raw_lines_def Let_def)
qed

text \<open>A line that survives the scan unchanged.\<close>

definition plain_line :: "string \<Rightarrow> bool" where
  "plain_line l \<longleftrightarrow> CHR 0x0A \<notin> set l \<and> length l < MaxScanTokenSize \<and> (l = [] \<or> last l \<noteq> CHR 0x0D)"

lemma scan_text:
  assumes "list_all plain_line ls"
  shows "scan_loop [] 0 (raw_lines (concat (map (\<lambda>l. l @ newline) ls))) = take 1000 ls"
proof -
  have short: "\<forall>l\<in>set ls. length l < MaxScanTokenSize" and nl: "list_all (\<lambda>l. CHR 0x0A \<notin> set l) ls"
    and cr: "\<forall>l\<in>set ls. dropCR l = l"
    using assms by (auto simp: list_all_iff plain_line_def dropCR_def)
  have "takeWhile (\<lambda>l. length l < MaxScanTokenSize) ls = ls"
    using short by (simp only: takeWhile_eq_all_conv)
  moreover have "map dropCR (take 1000 ls) = take 1000 ls"
    using cr by (intro map_idI) (auto dest: in_set_takeD)
  ultimately show ?thesis unfolding raw_lines_text [OF nl] using scan_loop_take [of 0 "[]" ls] by (simp only:) simp
qed

subsection \<open>Memory\<close>

definition peak :: "Memory \<Rightarrow> SysInfo list \<Rightarrow> Memory" where
  "peak cur ss = foldl max cur (map si_Memory ss)"

lemma peak_simps [simp]: "peak cur [] = cur" "peak cur (s # ss) = peak (max cur (si_Memory s)) ss"
  by (simp_all add: peak_def)

lemma peak_ge: "cur \<le> peak cur ss"
  by (induction ss arbitrary: cur) (auto intro: order_trans [OF max.cobounded1])

lemma peak_max: "peak (max a b) ss = max a (peak b ss)"
  by (induction ss arbitrary: b) (simp_all add: max.assoc)

text \<open>As long as the limit has not been passed, the loop computes the maximum.\<close>

lemma watch_memory_peak:
  "cur \<le> limit \<Longrightarrow> (case watch_memory limit cur ss of
     (True, mem) \<Rightarrow> limit < mem \<and> mem \<le> peak cur ss
   | (False, mem) \<Rightarrow> mem = peak cur ss \<and> mem \<le> limit)"
proof (induction ss arbitrary: cur)
  case Nil
  then show ?case by simp
next
  case (Cons s ss)
  show ?case
  proof (cases "cur < si_Memory s")
    case True
    then have m: "max cur (si_Memory s) = si_Memory s" by simp
    show ?thesis
    proof (cases "limit < si_Memory s")
      case True
      with \<open>cur < si_Memory s\<close> m peak_ge [of "si_Memory s" ss] show ?thesis by simp
    next
      case False
      with \<open>cur < si_Memory s\<close> have w: "watch_memory limit cur (s # ss) = watch_memory limit (si_Memory s) ss" by simp
      from False have "si_Memory s \<le> limit" by simp
      from Cons.IH [OF this] show ?thesis unfolding w peak_simps m .
    qed
  next
    case False
    then have m: "max cur (si_Memory s) = cur" and w: "watch_memory limit cur (s # ss) = watch_memory limit cur ss" by simp_all
    from Cons.IH [OF Cons.prems] show ?thesis unfolding w peak_simps m .
  qed
qed

lemma watch_memory_over: "limit < cur \<Longrightarrow> limit < snd (watch_memory limit cur ss)"
  by (induction ss arbitrary: cur) auto

definition peak_memory :: "run_facts \<Rightarrow> Memory" where
  "peak_memory r = max (final_memory r) (peak Byte (rf_samples r))"

text \<open>What the program reports of a run.\<close>

definition run_status :: "ExecutionParameters \<Rightarrow> run_facts \<Rightarrow> ContainerStatus" where
  "run_status params r =
     (case rf_start r of
        Some e \<Rightarrow> determineExecutionError (Some e)
      | None \<Rightarrow>
          if peak_memory r > ep_ExecutionMemory params then MemoryConstraintExceeded
          else if rf_deadline r then TimeLimitExceeded
          else Finished)"

lemma watch_memory_spec:
  assumes "watch_memory limit Byte ss = (b, mem)"
  shows "b \<Longrightarrow> limit < mem \<and> limit < peak Byte ss" and "\<not> b \<Longrightarrow> Byte \<le> limit \<Longrightarrow> mem = peak Byte ss \<and> mem \<le> limit"
    and "limit < Byte \<Longrightarrow> limit < mem \<and> limit < peak Byte ss"
proof -
  show over: "limit < Byte \<Longrightarrow> limit < mem \<and> limit < peak Byte ss"
    using watch_memory_over [of limit Byte ss] peak_ge [of Byte ss] assms by simp
  show "\<not> b \<Longrightarrow> Byte \<le> limit \<Longrightarrow> mem = peak Byte ss \<and> mem \<le> limit"
    using watch_memory_peak [of Byte limit ss] assms by simp
  show "b \<Longrightarrow> limit < mem \<and> limit < peak Byte ss"
    using over watch_memory_peak [of Byte limit ss] assms by (cases "Byte \<le> limit") simp_all
qed

lemma run_report_memory:
  assumes "rf_start r = None" and "run_report env params r f = (x, err)"
  shows "peak_memory r \<le> ep_ExecutionMemory params \<Longrightarrow>
           rx_memoryConsumption x = peak_memory r
           \<and> rx_standardOutput x = Some (scan_file ''/input/run-standard-output'' f)
           \<and> rx_errorOutput x = Some (scan_file ''/input/run-error-output'' f)
           \<and> err = (if rf_deadline r then Some DeadlineExceeded else None)"
    and "ep_ExecutionMemory params < peak_memory r \<Longrightarrow>
           ep_ExecutionMemory params < rx_memoryConsumption x \<and> err = Some MemoryLimitExceeded"
proof -
  let ?lim = "ep_ExecutionMemory params"
  obtain b mem where w: "watch_memory ?lim Byte (rf_samples r) = (b, mem)" by fastforce
  note spec = watch_memory_spec [OF w]
  have pk: "peak Byte (rf_samples r) \<le> peak_memory r" "final_memory r \<le> peak_memory r" by (simp_all add: peak_memory_def)
  {
    assume le: "peak_memory r \<le> ?lim"
    then have nb: "\<not> b" "Byte \<le> ?lim" using spec(1,3) pk by fastforce+
    then have "(if mem < final_memory r then final_memory r else mem) = peak_memory r"
      using spec(2) by (simp add: peak_memory_def max_def)
    with le nb(1) assms w
    show "rx_memoryConsumption x = peak_memory r
           \<and> rx_standardOutput x = Some (scan_file ''/input/run-standard-output'' f)
           \<and> rx_errorOutput x = Some (scan_file ''/input/run-error-output'' f)
           \<and> err = (if rf_deadline r then Some DeadlineExceeded else None)"
      by (auto simp: run_report_def Let_def split: if_splits)
  }
  assume gt: "?lim < peak_memory r"
  show "?lim < rx_memoryConsumption x \<and> err = Some MemoryLimitExceeded"
  proof (cases b)
    case True
    with spec(1) assms w show ?thesis by (auto simp: run_report_def Let_def)
  next
    case False
    have "?lim < (if mem < final_memory r then final_memory r else mem)"
      using spec(2) [OF False] spec(3) gt by (cases "Byte \<le> ?lim") (auto simp: peak_memory_def)
    with False assms w show ?thesis by (auto simp: run_report_def Let_def split: if_splits)
  qed
qed

lemma determineExecutionError_simps [simp]:
  "determineExecutionError None = RunTimeError"
  "determineExecutionError (Some MemoryLimitExceeded) = MemoryConstraintExceeded"
  "determineExecutionError (Some DeadlineExceeded) = TimeLimitExceeded"
  by (simp_all add: determineExecutionError_def)

lemma run_report_status:
  assumes "run_report env params r f = (x, err)"
  shows "(if err = None then Finished else determineExecutionError err) = run_status params r"
proof (cases "rf_start r")
  case (Some e)
  with assms show ?thesis by (auto simp: run_report_def run_status_def Let_def)
next
  case None
  with run_report_memory [OF None assms] show ?thesis
    by (cases "peak_memory r \<le> ep_ExecutionMemory params") (auto simp: run_status_def)
qed

subsection \<open>Compiling\<close>

text \<open>The compile commands, when the deadline is never passed: the error is the one of the last command.\<close>

lemma compile_loop_last:
  assumes "list_all (\<lambda>s. \<exists>c. parseTemplateString s params = Inr c) (ss @ [s])" and "parseTemplateString s params = Inr c"
    and "\<And>cmd g. snd (snd (fst (re_compile env cmd g))) = False"
  shows "\<exists>g out. fst (compile_loop env params (ss @ [s]) out0 err0 f) = (out, fst (snd (fst (re_compile env (strings_Split c '' '') g))))"
  using assms(1)
proof (induction ss arbitrary: out0 err0 f)
  case Nil
  obtain outp cmdErr late f1 where r: "re_compile env (strings_Split c '' '') f = ((outp, cmdErr, late), f1)"
    by (metis prod.exhaust)
  with assms(3) [of "strings_Split c '' ''" f] assms(2) show ?case
    by (auto simp: Let_def intro!: exI [of _ f])
next
  case (Cons s' ss)
  then obtain c' where c': "parseTemplateString s' params = Inr c'" by auto
  obtain outp cmdErr late f1 where r: "re_compile env (strings_Split c' '' '') f = ((outp, cmdErr, late), f1)"
    by (metis prod.exhaust)
  with assms(3) [of "strings_Split c' '' ''" f] c' Cons show ?case by (simp add: Let_def)
qed

subsection \<open>Templates of the language table\<close>

fun id_segments :: "string list \<Rightarrow> segment list" where
  "id_segments [] = []"
| "id_segments [t] = [Text t]"
| "id_segments (t # ts) = Text t # Field ''ID'' # id_segments ts"

lemma template_Execute_id:
  "ts \<noteq> [] \<Longrightarrow> template_Execute params (id_segments ts) = Inr (strings_Join ts (html_escape (ep_ID params)))"
  by (induction ts rule: id_segments.induct) (auto simp: template_field_def)

definition template_steps :: "LanguageCompiler \<Rightarrow> string list" where
  "template_steps c = lc_runSteps c # elems (lc_compileSteps c)"

lemma table_templates:
  "list_all (\<lambda>(k, c). list_all (\<lambda>s. template_Parse s = Inr (id_segments (strings_Split s ''{{.ID}}''))) (template_steps c)) Compilers"
  by code_simp

lemma template_of_table:
  assumes "Compilers_lookup k = Some c" and "s \<in> set (template_steps c)"
  shows "parseTemplateString s params = Inr (strings_Join (strings_Split s ''{{.ID}}'') (html_escape (ep_ID params)))"
proof -
  have "list_all (\<lambda>s. template_Parse s = Inr (id_segments (strings_Split s ''{{.ID}}''))) (template_steps c)"
    using Compilers_all [OF assms(1) table_templates] .
  with assms(2) show ?thesis by (simp add: list_all_iff parseTemplateString_def template_Execute_id)
qed

subsection \<open>The response\<close>

lemma runner_response_outcome:
  assumes "parseTemplateString (ep_Run params) params = Inr cmd"
    and "compileProject env params f = ((co, ct, cerr), f1)"
  shows "runner_response env params f =
     (if cerr \<noteq> None
      then Inr (\<lparr>er_CompileTime = ct, er_CompilerOutput = co, er_Output = None, er_OutputErr = None,
                 er_Runtime = 0, er_RuntimeMemoryBytes = 0, er_Status = RunTimeError\<rparr>, f1)
      else let (r, f2) = run_command env params cmd f1; (x, err) = run_report env params r f2
           in Inr (\<lparr>er_CompileTime = ct, er_CompilerOutput = co, er_Output = rx_standardOutput x, er_OutputErr = rx_errorOutput x,
                    er_Runtime = rx_runtimeNano x, er_RuntimeMemoryBytes = rx_memoryConsumption x, er_Status = run_status params r\<rparr>, f2))"
proof (cases cerr)
  case (Some e)
  with assms show ?thesis
    by (simp add: runner_response_def zero_execution_result_def Bytes_def status_defs)
next
  case None
  obtain r f2 where r: "run_command env params cmd f1 = (r, f2)" by fastforce
  obtain x err where x: "run_report env params r f2 = (x, err)" by fastforce
  have "(if err \<noteq> None then determineExecutionError err else Finished) = run_status params r"
    using run_report_status [OF x] by (cases err) simp_all
  with None assms r x show ?thesis
    by (simp add: runner_response_def runProject_def Bytes_def)
qed

lemma html_special_unsafe:
  "list_all (\<lambda>c. \<not> (is_digit c \<or> is_letter c \<or> c = CHR ''-'')) [CHR 0x00, CHR 0x22, CHR ''&'', CHR 0x27, CHR ''+'', CHR ''<'', CHR ''>'']"
  by code_simp

lemma html_char_safe:
  assumes "is_digit c \<or> is_letter c \<or> c = CHR ''-''"
  shows "html_char c = [c]"
proof -
  have "c \<notin> set [CHR 0x00, CHR 0x22, CHR ''&'', CHR 0x27, CHR ''+'', CHR ''<'', CHR ''>'']"
    using assms html_special_unsafe unfolding list_all_iff by blast
  then show ?thesis by (simp add: html_char_def)
qed

lemma html_escape_safe: "list_all (\<lambda>c. is_digit c \<or> is_letter c \<or> c = CHR ''-'') s \<Longrightarrow> html_escape s = s"
  by (induction s) (simp_all add: html_escape_def html_char_safe)

subsection \<open>Concrete data for the witnesses\<close>

definition demo_params :: ExecutionParameters where
  "demo_params = zero_parameters\<lparr>ep_ID := ''a1-b2'', ep_Run := ''/{{.ID}}-output/template-f'', ep_ExecutionMemory := 4096\<rparr>"

definition demo_run :: run_facts where
  "demo_run = \<lparr>rf_start = None, rf_samples = [\<lparr>si_CPU = 0, si_Memory = 2048\<rparr>, \<lparr>si_CPU = 0, si_Memory = 8192\<rparr>],
     rf_wait = None, rf_maxrss = Some 1, rf_deadline = False\<rparr>"

definition demo_runner :: runner_env where
  "demo_runner = \<lparr>re_compile = (\<lambda>c f. (([], None, False), f)), re_compile_nanos = 0,
     re_run = (\<lambda>c i f. (demo_run, f)), re_run_nanos = 17\<rparr>"

lemma demo_template: "parseTemplateString (ep_Run demo_params) demo_params = Inr ''/a1-b2-output/template-f''"
  by code_simp

subsection \<open>Properties\<close>

text \<open>
  C15. The status the runner reports: a failed compilation is always a run-time error, never a failed
  compilation or a time limit; otherwise a failed start is classified by its error, memory beyond
  the limit comes before the deadline, and in all other cases, whatever the exit status of the
  program, the run is reported as finished.
\<close>

theorem runner_classifies:
  assumes "parseTemplateString (ep_Run params) params = Inr cmd" and "compileProject env params f = ((co, ct, cerr), f1)"
    and "run_command env params cmd f1 = (r, f2)"
  shows "\<exists>resp f'. runner_response env params f = Inr (resp, f')
           \<and> er_Status resp =
               (if cerr \<noteq> None then RunTimeError
                else case rf_start r of
                       Some e \<Rightarrow> determineExecutionError (Some e)
                     | None \<Rightarrow>
                         if peak_memory r > ep_ExecutionMemory params then MemoryConstraintExceeded
                         else if rf_deadline r then TimeLimitExceeded
                         else Finished)
           \<and> er_Status resp \<in> {Finished, MemoryConstraintExceeded, TimeLimitExceeded, RunTimeError}"
proof -
  obtain x err where x: "run_report env params r f2 = (x, err)" by fastforce
  have range: "determineExecutionError e \<in> {MemoryConstraintExceeded, TimeLimitExceeded, RunTimeError}" for e
    by (cases e) (auto simp: determineExecutionError_def)
  show ?thesis
    using runner_response_outcome [OF assms(1,2)] assms(3) x range
    by (cases "cerr = None") (auto simp: run_status_def split: option.split)
qed

theorem runner_classifies_witness:
  "\<exists>resp f'. runner_response demo_runner demo_params \<lparr>files = Map.empty, dirs = {}, fault = (\<lambda>op k. False)\<rparr> = Inr (resp, f')
     \<and> er_Status resp = MemoryConstraintExceeded"
proof -
  let ?f = "\<lparr>files = Map.empty, dirs = {}, fault = (\<lambda>op k. False)\<rparr>"
  have c: "compileProject demo_runner demo_params ?f = ((None, 0, None), ?f)"
    by (simp add: compileProject_def demo_params_def zero_parameters_def)
  obtain f2 where r: "run_command demo_runner demo_params ''/a1-b2-output/template-f'' ?f = (demo_run, f2)"
    by (simp add: run_command_def demo_runner_def Let_def)
  have "peak_memory demo_run = 8192"
    by (simp add: peak_memory_def demo_run_def final_memory_def Byte_def in_int64_def)
  with runner_classifies [OF demo_template c r] show ?thesis
    by (auto simp: demo_run_def demo_params_def)
qed

text \<open>
  Memory accounting of a started run: the limit is reported as exceeded exactly when the largest of
  the samples, the peak the system reports and one byte is above it; below the limit the reported
  consumption is that maximum, above it some value beyond the limit.
\<close>

theorem run_memory_accounting:
  assumes "rf_start r = None" and "run_report env params r f = (x, err)"
  shows "(err = Some MemoryLimitExceeded \<longleftrightarrow> ep_ExecutionMemory params < peak_memory r)
         \<and> (err \<noteq> Some MemoryLimitExceeded \<longrightarrow> rx_memoryConsumption x = peak_memory r)
         \<and> (err = Some MemoryLimitExceeded \<longrightarrow> ep_ExecutionMemory params < rx_memoryConsumption x)"
  using run_report_memory [OF assms] by (cases "peak_memory r \<le> ep_ExecutionMemory params") auto

theorem run_memory_accounting_witness:
  "snd (run_report demo_runner demo_params demo_run \<lparr>files = Map.empty, dirs = {}, fault = (\<lambda>op k. False)\<rparr>) = Some MemoryLimitExceeded"
proof -
  obtain x err where x: "run_report demo_runner demo_params demo_run \<lparr>files = Map.empty, dirs = {}, fault = (\<lambda>op k. False)\<rparr> = (x, err)"
    by fastforce
  have "peak_memory demo_run = 8192"
    by (simp add: peak_memory_def demo_run_def final_memory_def Byte_def in_int64_def)
  with run_memory_accounting [OF _ x] x show ?thesis by (simp add: demo_run_def demo_params_def)
qed

text \<open>
  C24. The scan loop is the plain specification: the lines before the first one of 65536 bytes, at most
  the first 1000 of them, without trailing carriage returns.
\<close>

theorem scan_loop_equals_take:
  "scan_loop [] 0 (raw_lines data) = map dropCR (take 1000 (takeWhile (\<lambda>l. length l < MaxScanTokenSize) (raw_lines data)))
     \<and> length (scan_loop [] 0 (raw_lines data)) \<le> 1000"
  by (simp add: scan_loop_take)

text \<open>
  C25. Lines printed by the program come back as they are: if its output is a sequence of at most 1000
  lines, each ended by a newline, shorter than 65536 bytes and not ending in a carriage return,
  the scan returns exactly these lines.
\<close>

theorem scan_file_roundtrip:
  assumes "list_all plain_line ls" and "length ls \<le> 1000"
    and "\<not> fault f OpRead (path_elems path)" and "files f (path_elems path) = Some (concat (map (\<lambda>l. l @ newline) ls))"
  shows "scan_file path f = ls"
  using scan_text [OF assms(1)] assms(2-4) by (simp add: scan_file_def os_ReadFile_def Let_def)

theorem scan_file_roundtrip_witness:
  "scan_file ''/input/run-standard-output''
     \<lparr>files = [path_elems ''/input/run-standard-output'' \<mapsto> ''a'' @ newline @ newline @ ''bc'' @ newline], dirs = {}, fault = (\<lambda>op k. False)\<rparr>
   = [''a'', [], ''bc'']"
  by (rule scan_file_roundtrip) (simp_all add: plain_line_def MaxScanTokenSize_def)

text \<open>
  Every command of the language table is a valid template, and for an id made of letters, digits and
  hyphens the command that is run is the table's text with the id filled in for \<open>{{.ID}}\<close>.
\<close>

theorem table_commands_filled_in:
  assumes "Compilers_lookup k = Some c" and "s \<in> set (template_steps c)"
    and "list_all (\<lambda>c. is_digit c \<or> is_letter c \<or> c = CHR ''-'') (ep_ID params)"
  shows "parseTemplateString s params = Inr (strings_Join (strings_Split s ''{{.ID}}'') (ep_ID params))"
  using template_of_table [OF assms(1,2)] html_escape_safe [OF assms(3)] by simp

theorem table_commands_filled_in_witness:
  "parseTemplateString ''/{{.ID}}-output/template-f'' demo_params = Inr ''/a1-b2-output/template-f''"
proof -
  have c: "Compilers_lookup ''fsharp'' = Some (snd (Compilers ! 8))" by (simp add: Compilers_lookup_def Compilers_def)
  have s: "''/{{.ID}}-output/template-f'' \<in> set (template_steps (snd (Compilers ! 8)))"
    by (simp add: template_steps_def Compilers_def)
  have i: "list_all (\<lambda>c. is_digit c \<or> is_letter c \<or> c = CHR ''-'') (ep_ID demo_params)" by code_simp
  have "strings_Join (strings_Split ''/{{.ID}}-output/template-f'' ''{{.ID}}'') (ep_ID demo_params) = ''/a1-b2-output/template-f''"
    by code_simp
  with table_commands_filled_in [OF c s i] show ?thesis by (simp only:)
qed

text \<open>
  C37. Of several compile commands only the last one decides: as long as the deadline is not passed, the
  error \<open>compileProject\<close> returns is the one of the last command, so a failing earlier command goes
  unnoticed and the following ones are run anyway.
\<close>

theorem compile_error_is_last:
  assumes "elems (ep_CompileSteps params) = ss @ [s]"
    and "list_all (\<lambda>s. \<exists>c. parseTemplateString s params = Inr c) (ss @ [s])" and "parseTemplateString s params = Inr c"
    and "\<forall>cmd g. \<not> snd (snd (fst (re_compile env cmd g)))"
  shows "\<exists>g. snd (snd (fst (compileProject env params f))) = fst (snd (fst (re_compile env (strings_Split c '' '') g)))"
proof -
  have no_deadline: "snd (snd (fst (re_compile env cmd g))) = False" for cmd g using assms(4) by simp
  obtain g co where "fst (compile_loop env params (ss @ [s]) None None f) = (co, fst (snd (fst (re_compile env (strings_Split c '' '') g))))"
    using compile_loop_last [OF assms(2,3) no_deadline] by blast
  then show ?thesis using assms(1) by (auto simp: compileProject_def split: prod.splits)
qed

definition failing_first :: runner_env where
  "failing_first = demo_runner\<lparr>re_compile := (\<lambda>c f. (([], if c = [''false''] then Some (OsError ''exit status 1'') else None, False), f))\<rparr>"

theorem compile_error_is_last_witness:
  "snd (snd (fst (compileProject failing_first (demo_params\<lparr>ep_CompileSteps := Some [''false'', ''true'']\<rparr>)
     \<lparr>files = Map.empty, dirs = {}, fault = (\<lambda>op k. False)\<rparr>))) = None"
proof -
  let ?p = "demo_params\<lparr>ep_CompileSteps := Some [''false'', ''true'']\<rparr>"
  have t: "parseTemplateString ''true'' ?p = Inr ''true''" "parseTemplateString ''false'' ?p = Inr ''false''" by code_simp+
  have "strings_Split ''true'' '' '' = [''true'']" by code_simp
  with compile_error_is_last [of ?p "[''false'']" "''true''" "''true''" failing_first "\<lparr>files = Map.empty, dirs = {}, fault = (\<lambda>op k. False)\<rparr>"] t
  show ?thesis by (auto simp: failing_first_def)
qed

end
