(* ===== verification/Sandbox_Protocol.thy ===== *)
theory Sandbox_Protocol
  imports Runner
begin

text \<open>
  The two halves of a sandbox execution put together: the loader prepares the working directory
  (\<open>internal/sandbox/sandbox.go\<close>), the runner reads it inside the container as \<open>/input\<close>, runs the code and
  leaves its result there (\<open>cmd/services/cars-runner/main.go\<close>), and the loader reads the result back.
  \<open>mounted\<close> relates the two views of the directory.
\<close>

definition mounted :: "string list \<Rightarrow> fs \<Rightarrow> fs \<Rightarrow> bool" where
  "mounted es host guest \<longleftrightarrow> (\<forall>rest. files guest (''input'' # rest) = files host (es @ rest))"

definition guest_ok :: "fs \<Rightarrow> bool" where
  "guest_ok g \<longleftrightarrow> (\<forall>op k. \<not> fault g op k) \<and> [''input''] \<in> dirs g \<and> [''input'', ''runner-out.json''] \<notin> dirs g"

text \<open>The programs that are run leave the directory \<open>/input\<close> usable.\<close>

definition well_behaved :: "runner_env \<Rightarrow> bool" where
  "well_behaved env \<longleftrightarrow>
     (\<forall>cmd g. guest_ok g \<longrightarrow> guest_ok (snd (re_compile env cmd g)))
     \<and> (\<forall>cmd i g. guest_ok g \<longrightarrow> guest_ok (snd (re_run env cmd i g)))"

lemma guest_ok_Create: "guest_ok g \<Longrightarrow> guest_ok (snd (os_Create p g))"
  by (simp add: os_Create_def guest_ok_def Let_def)

lemma guest_ok_compile_loop:
  "well_behaved env \<Longrightarrow> guest_ok g \<Longrightarrow> guest_ok (snd (compile_loop env params steps co err g))"
proof (induction steps arbitrary: co err g)
  case (Cons step steps)
  have "guest_ok (snd (re_compile env cmd g))" for cmd
    using Cons.prems by (simp add: well_behaved_def)
  note g1 = this
  show ?case
  proof (cases "parseTemplateString step params")
    case (Inl e)
    with Cons.prems show ?thesis by simp
  next
    case (Inr c)
    obtain outp cmdErr late f1 where r: "re_compile env (strings_Split c '' '') g = ((outp, cmdErr, late), f1)"
      by (metis prod.exhaust)
    have "guest_ok f1" using g1 [of "strings_Split c '' ''"] r by simp
    with Inr r Cons show ?thesis by (simp add: Let_def)
  qed
qed simp

lemma guest_ok_compile: "well_behaved env \<Longrightarrow> guest_ok g \<Longrightarrow> guest_ok (snd (compileProject env params g))"
  using guest_ok_compile_loop [of env g params "elems (ep_CompileSteps params)" None None]
  by (auto simp: compileProject_def split: prod.splits)

lemma guest_ok_run_command: "well_behaved env \<Longrightarrow> guest_ok g \<Longrightarrow> guest_ok (snd (run_command env params cmd g))"
  by (simp add: run_command_def Let_def well_behaved_def guest_ok_Create)

lemma runner_response_total:
  assumes env: "well_behaved env" and g: "guest_ok g" and cmd: "parseTemplateString (ep_Run params) params = Inr cmd"
  obtains resp g1 where "runner_response env params g = Inr (resp, g1)" "guest_ok g1"
proof -
  obtain co ct cerr f1 where c: "compileProject env params g = ((co, ct, cerr), f1)" by (metis prod.exhaust)
  have f1: "guest_ok f1" using guest_ok_compile [OF env g, of params] c by simp
  have f2: "guest_ok (snd (run_command env params cmd f1))" by (rule guest_ok_run_command [OF env f1])
  show ?thesis
  proof (cases "cerr = None")
    case True
    obtain r f2 where r: "run_command env params cmd f1 = (r, f2)" by fastforce
    obtain x err where x: "run_report env params r f2 = (x, err)" by fastforce
    show ?thesis
      using that runner_response_outcome [OF cmd c] True r x f2 by simp
  next
    case False
    then show ?thesis using that runner_response_outcome [OF cmd c] f1 by simp
  qed
qed

lemma input_paths:
  "path_elems ''/input/runner.json'' = [''input'', ''runner.json'']"
  "path_elems ''/input/runner-out.json'' = [''input'', ''runner-out.json'']"
  by code_simp+

lemma runner_main_reads:
  assumes g: "guest_ok g" and params: "parameters_ok p"
    and json: "files g [''input'', ''runner.json''] = Some (json_Marshal (encode_parameters p))"
  shows "runner_main env g =
     (case runner_response env p g of
        Inl e \<Rightarrow> Crashed e
      | Inr (resp, g1) \<Rightarrow> Exited (snd (os_WriteFile ''/input/runner-out.json'' (json_MarshalIndent (encode_response resp)) g1)))"
proof -
  have "os_Stat ''/input/runner.json'' g = None" "os_ReadFile ''/input/runner.json'' g = Inr (json_Marshal (encode_parameters p))"
    using g json by (simp_all add: os_Stat_def os_ReadFile_def input_paths guest_ok_def)
  with unmarshal_parameters [OF params, of zero_parameters] show ?thesis
    by (simp add: runner_main_def)
qed

lemma os_WriteFile_out:
  assumes "guest_ok g"
  shows "files (snd (os_WriteFile ''/input/runner-out.json'' data g)) [''input'', ''runner-out.json''] = Some data"
  using assms by (simp add: os_WriteFile_def os_Create_def file_Write_def input_paths guest_ok_def)

lemma runner_answers:
  assumes rq: "request_ok rq es" and c: "Compilers_lookup k = Some (rq_Compiler rq)" and params: "parameters_ok (runner_parameters rq)"
    and prep: "prepare rq f = (None, f')" and mnt: "mounted es f' g" and g: "guest_ok g" and env: "well_behaved env"
  obtains resp g1 g' where "runner_response env (runner_parameters rq) g = Inr (resp, g1)" "runner_main env g = Exited g'"
    "files g' [''input'', ''runner-out.json''] = Some (json_MarshalIndent (encode_response resp))"
proof -
  let ?p = "runner_parameters rq"
  have "files f' (es @ [''runner.json'']) = Some (json_Marshal (encode_parameters ?p))"
    using prepare_ok(1) [OF rq prep] by simp
  then have "files g [''input'', ''runner.json''] = Some (json_Marshal (encode_parameters ?p))"
    using mnt by (simp add: mounted_def)
  note main = runner_main_reads [OF g params this]
  have "lc_runSteps (rq_Compiler rq) \<in> set (template_steps (rq_Compiler rq))" by (simp add: template_steps_def)
  then obtain cmd where "parseTemplateString (ep_Run ?p) ?p = Inr cmd"
    using template_of_table [OF c] by (simp add: runner_parameters_def)
  then obtain resp g1 where r: "runner_response env ?p g = Inr (resp, g1)" "guest_ok g1"
    by (rule runner_response_total [OF env g])
  show ?thesis
    by (rule that [OF r(1) _ os_WriteFile_out [OF r(2)]]) (simp add: main r(1))
qed

subsection \<open>Concrete data for the witness\<close>

definition guest_of :: "string list \<Rightarrow> fs \<Rightarrow> fs" where
  "guest_of es f = \<lparr>files = (\<lambda>k. if k \<noteq> [] \<and> hd k = ''input'' then files f (es @ tl k) else None),
     dirs = {[], [''input'']}, fault = (\<lambda>op k. False)\<rparr>"

definition host_of :: "string list \<Rightarrow> fs \<Rightarrow> fs" where
  "host_of es g = \<lparr>files = (\<lambda>k. if prefix es k then files g (''input'' # drop (length es) k) else None),
     dirs = {}, fault = (\<lambda>op k. False)\<rparr>"

text \<open>A program that prints the line 1 and nothing else.\<close>

definition printing_runner :: runner_env where
  "printing_runner = demo_runner\<lparr>re_run := (\<lambda>c i g.
     (demo_run\<lparr>rf_samples := []\<rparr>,
      g\<lparr>files := (files g)([''input'', ''run-standard-output''] \<mapsto> ''1'' @ newline, [''input'', ''run-error-output''] \<mapsto> [])\<rparr>))\<rparr>"

lemma guest_host:
  "mounted es f (guest_of es f)" "mounted es (host_of es g) g" "guest_ok (guest_of es f)" "well_behaved printing_runner"
  "\<not> fault (host_of es g) op k"
  by (simp_all add: mounted_def guest_of_def host_of_def guest_ok_def well_behaved_def printing_runner_def demo_runner_def)

lemma demo_request_table: "Compilers_lookup ''python2'' = Some (rq_Compiler demo_request)"
  by (simp add: demo_request_def Compilers_lookup_def Compilers_def)

lemma demo_parameters_ok: "parameters_ok (runner_parameters demo_request)"
  by (simp add: parameters_ok_def runner_parameters_def demo_request_def demo_profile_def Compilers_def in_int64_def
      Second_def memory_units)

lemma output_paths:
  "path_elems ''/input/run-standard-output'' = [''input'', ''run-standard-output'']"
  "path_elems ''/input/run-error-output'' = [''input'', ''run-error-output'']"
  by code_simp+

lemma scanned_lines: "scan_loop [] 0 (raw_lines (''1'' @ newline)) = [''1'']" "scan_loop [] 0 (raw_lines []) = []"
  using scan_text [of "[''1'']"] scan_text [of "[]"] by (simp_all add: plain_line_def MaxScanTokenSize_def)

lemma printing_response:
  assumes "runner_response printing_runner (runner_parameters rq) g = Inr (resp, g1)" and g: "guest_ok g"
    and table: "Compilers_lookup k = Some (rq_Compiler rq)" and steps: "lc_compileSteps (rq_Compiler rq) = None"
    and mem: "p_ExecutionMemory (rq_ExecutionProfile rq) = Gigabyte"
  shows "response_ok resp" "er_Status resp = Finished" "er_Output resp = Some [''1'']"
proof -
  let ?p = "runner_parameters rq" and ?r = "demo_run\<lparr>rf_samples := []\<rparr>"
  have "lc_runSteps (rq_Compiler rq) \<in> set (template_steps (rq_Compiler rq))" by (simp add: template_steps_def)
  then obtain cmd where cmd: "parseTemplateString (ep_Run ?p) ?p = Inr cmd"
    using template_of_table [OF table] by (simp add: runner_parameters_def)
  have c: "compileProject printing_runner ?p g = ((None, 0, None), g)"
    by (simp add: compileProject_def runner_parameters_def steps)
  obtain f2 where r: "run_command printing_runner ?p cmd g = (?r, f2)"
    and f2: "files f2 [''input'', ''run-standard-output''] = Some (''1'' @ newline)" "files f2 [''input'', ''run-error-output''] = Some []"
    by (simp add: run_command_def printing_runner_def Let_def)
  have "guest_ok f2" using guest_ok_run_command [OF guest_host(4) g, of ?p cmd] r by simp
  then have scans: "scan_file ''/input/run-standard-output'' f2 = [''1'']" "scan_file ''/input/run-error-output'' f2 = []"
    using f2 scanned_lines by (simp_all add: scan_file_def os_ReadFile_def output_paths guest_ok_def)
  obtain x err where x: "run_report printing_runner ?p ?r f2 = (x, err)" by fastforce
  have peak: "peak_memory ?r = 1024" by (simp add: peak_memory_def demo_run_def final_memory_def Byte_def in_int64_def)
  have lim: "ep_ExecutionMemory ?p = 1073741824"
    by (simp add: runner_parameters_def mem memory_units)
  have start: "rf_start ?r = None" by (simp add: demo_run_def)
  have le: "peak_memory ?r \<le> ep_ExecutionMemory ?p" by (simp add: peak lim)
  note rep = run_report_memory(1) [OF start x le]
  have nano: "rx_runtimeNano x = 17"
    using x by (auto simp: run_report_def demo_run_def printing_runner_def demo_runner_def Let_def lim Byte_def final_memory_def in_int64_def)
  have st: "run_status ?p ?r = Finished" using le by (simp add: run_status_def demo_run_def)
  have resp: "resp = \<lparr>er_CompileTime = 0, er_CompilerOutput = None, er_Output = Some [''1''], er_OutputErr = Some [],
      er_Runtime = 17, er_RuntimeMemoryBytes = 1024, er_Status = Finished\<rparr>"
    using assms(1) runner_response_outcome [OF cmd c] r x rep nano st peak scans by simp
  show "response_ok resp" "er_Status resp = Finished" "er_Output resp = Some [''1'']"
    by (simp_all add: resp response_ok_def in_int64_def status_defs)
qed

subsection \<open>Property\<close>

text \<open>The runner on what the loader prepared, and the loader on what the runner left.\<close>

lemma response_delivered:
  assumes "request_ok rq es" and "Compilers_lookup k = Some (rq_Compiler rq)" and "parameters_ok (runner_parameters rq)"
    and "prepare rq f = (None, f')" and "mounted es f' g" and "guest_ok g" and "well_behaved env"
    and "c_request d = rq" and "c_complete d = OpenChan" and "10 \<le> length (c_ID d)" and "m_Status ev = ''destroy''"
  shows "\<exists>resp g1 g'. runner_response env (runner_parameters rq) g = Inr (resp, g1) \<and> runner_main env g = Exited g'
           \<and> (\<forall>h. response_ok resp \<and> mounted es h g' \<and> \<not> fault h OpRead (es @ [''runner-out.json'']) \<longrightarrow>
                (\<exists>d' h' rs. AddDockerEventMessage ev d h = Inr (d', h') \<and> GetResponse d' = Inr (rs, d')
                   \<and> rs_Status rs = er_Status resp \<and> rs_Output rs = er_Output resp \<and> rs_OutputError rs = er_OutputErr resp
                   \<and> rs_CompilerOutput rs = er_CompilerOutput resp \<and> rs_RuntimeMemory rs = er_RuntimeMemoryBytes resp
                   \<and> rs_Runtime rs = er_Runtime resp \<and> rs_CompileTime rs = er_CompileTime resp
                   \<and> rs_TestStatus rs = expected_test_status (rq_Test rq) (er_Status resp) (Some resp)))"
proof -
  obtain resp g1 g' where r: "runner_response env (runner_parameters rq) g = Inr (resp, g1)" "runner_main env g = Exited g'"
    "files g' [''input'', ''runner-out.json''] = Some (json_MarshalIndent (encode_response resp))"
    by (rule runner_answers [OF assms(1-7)])
  have "\<exists>d' h' rs. AddDockerEventMessage ev d h = Inr (d', h') \<and> GetResponse d' = Inr (rs, d')
                   \<and> rs_Status rs = er_Status resp \<and> rs_Output rs = er_Output resp \<and> rs_OutputError rs = er_OutputErr resp
                   \<and> rs_CompilerOutput rs = er_CompilerOutput resp \<and> rs_RuntimeMemory rs = er_RuntimeMemoryBytes resp
                   \<and> rs_Runtime rs = er_Runtime resp \<and> rs_CompileTime rs = er_CompileTime resp
                   \<and> rs_TestStatus rs = expected_test_status (rq_Test rq) (er_Status resp) (Some resp)"
    if h: "response_ok resp" "mounted es h g'" "\<not> fault h OpRead (es @ [''runner-out.json''])" for h
  proof -
    have out: "files h (es @ [''runner-out.json'']) = Some (json_MarshalIndent (encode_response resp))"
      using h(2) r(3) by (simp add: mounted_def)
    have rq: "request_ok (c_request d) es" using assms(1,8) by simp
    obtain h' where hr: "handleContainerRemoved d h =
        Inr (d\<lparr>c_complete := ClosedChan, c_executionResponse := Some resp, c_status := er_Status resp\<rparr>, h')"
      by (rule handleContainerRemoved_reads [OF assms(9) rq h(1,3) out])
    let ?d = "d\<lparr>c_complete := ClosedChan, c_executionResponse := Some resp, c_status := er_Status resp, c_events := c_events d @ [ev]\<rparr>"
    have "AddDockerEventMessage ev d h = Inr (?d, h')"
      using hr assms(10,11) by (simp add: AddDockerEventMessage_def updateStatusFromDockerEvent_def)
    then show ?thesis
      using h(1) assms(8) closed_response [of resp "?d"] by auto
  qed
  with r show ?thesis by blast
qed

text \<open>
  C4. From request to response. When the loader has prepared a request for a language of the table, the
  runner started in a container that sees the working directory as \<open>/input\<close> neither aborts nor
  crashes, works with exactly the parameters of the request, and leaves a result file; when Docker
  then announces the removal of the container, the response the loader gives is the result of the
  runner, field by field, with the verdict on the test.
\<close>

theorem request_to_response:
  assumes "request_ok rq es" and "Compilers_lookup k = Some (rq_Compiler rq)" and "parameters_ok (runner_parameters rq)"
    and "prepare rq f = (None, f')" and "mounted es f' g" and "guest_ok g" and "well_behaved env"
    and "c_request d = rq" and "c_complete d = OpenChan" and "10 \<le> length (c_ID d)" and "m_Status ev = ''destroy''"
  shows "\<exists>resp g1 g'. runner_response env (runner_parameters rq) g = Inr (resp, g1) \<and> runner_main env g = Exited g'
           \<and> (\<forall>h. response_ok resp \<and> mounted es h g' \<and> \<not> fault h OpRead (es @ [''runner-out.json'']) \<longrightarrow>
                (\<exists>d' h' rs. AddDockerEventMessage ev d h = Inr (d', h') \<and> GetResponse d' = Inr (rs, d')
                   \<and> rs_Status rs = er_Status resp \<and> rs_Output rs = er_Output resp \<and> rs_OutputError rs = er_OutputErr resp
                   \<and> rs_CompilerOutput rs = er_CompilerOutput resp \<and> rs_RuntimeMemory rs = er_RuntimeMemoryBytes resp
                   \<and> rs_Runtime rs = er_Runtime resp \<and> rs_CompileTime rs = er_CompileTime resp
                   \<and> rs_TestStatus rs = expected_test_status (rq_Test rq) (er_Status resp) (Some resp)))"
  by (rule response_delivered [OF assms])

theorem request_to_response_witness:
  "\<exists>f' g' d' h' rs. prepare demo_request empty_fs = (None, f')
     \<and> runner_main printing_runner (guest_of [''tmp'', ''Job-r1''] f') = Exited g'
     \<and> AddDockerEventMessage destroy_event demo_container (host_of [''tmp'', ''Job-r1''] g') = Inr (d', h')
     \<and> GetResponse d' = Inr (rs, d') \<and> rs_Status rs = Finished \<and> rs_TestStatus rs = TestPassed"
proof -
  let ?es = "[''tmp'', ''Job-r1'']"
  obtain f' where p: "prepare demo_request empty_fs = (None, f')"
    using prepare_total [OF demo_request_ok empty_fs_room] by blast
  have d: "c_request demo_container = demo_request" "c_complete demo_container = OpenChan" "10 \<le> length (c_ID demo_container)"
    "m_Status destroy_event = ''destroy''"
    by (simp_all add: demo_container_def destroy_event_def)
  obtain resp g1 g' where r: "runner_response printing_runner (runner_parameters demo_request) (guest_of ?es f') = Inr (resp, g1)"
    "runner_main printing_runner (guest_of ?es f') = Exited g'"
    and bk: "\<forall>h. response_ok resp \<and> mounted ?es h g' \<and> \<not> fault h OpRead (?es @ [''runner-out.json'']) \<longrightarrow>
                (\<exists>d' h' rs. AddDockerEventMessage destroy_event demo_container h = Inr (d', h') \<and> GetResponse d' = Inr (rs, d')
                   \<and> rs_Status rs = er_Status resp \<and> rs_Output rs = er_Output resp \<and> rs_OutputError rs = er_OutputErr resp
                   \<and> rs_CompilerOutput rs = er_CompilerOutput resp \<and> rs_RuntimeMemory rs = er_RuntimeMemoryBytes resp
                   \<and> rs_Runtime rs = er_Runtime resp \<and> rs_CompileTime rs = er_CompileTime resp
                   \<and> rs_TestStatus rs = expected_test_status (rq_Test demo_request) (er_Status resp) (Some resp))"
    using request_to_response [OF demo_request_ok demo_request_table demo_parameters_ok p guest_host(1,3,4) d] by blast
  have "lc_compileSteps (rq_Compiler demo_request) = None" "p_ExecutionMemory (rq_ExecutionProfile demo_request) = Gigabyte"
    by (simp_all add: demo_request_def demo_profile_def Compilers_def)
  note resp = printing_response [OF r(1) guest_host(3) demo_request_table this]
  obtain d' h' rs where "AddDockerEventMessage destroy_event demo_container (host_of ?es g') = Inr (d', h')" "GetResponse d' = Inr (rs, d')"
    "rs_Status rs = Finished" "rs_TestStatus rs = expected_test_status (rq_Test demo_request) Finished (Some resp)"
    using bk resp guest_host(2,5) by metis
  moreover have "expected_test_status (rq_Test demo_request) Finished (Some resp) = TestPassed"
    using resp(3) by (simp add: expected_test_status_def demo_request_def)
  ultimately show ?thesis using p r(2) by auto
qed

end
