(* ===== verification/Loader_Events.thy ===== *)
theory Loader_Events
  imports Loader_System
begin

text \<open>
  Two facts about the order of things in the loader system: every message is handled in a bounded
  number of steps, and what happens to Docker events that arrive around the moment at which
  \<open>AddContainer\<close> (\<open>internal/sandbox/manager.go\<close>) puts the started container into the registry.
\<close>

subsection \<open>Counting the steps of handlers\<close>

fun handler_rank :: "handler \<Rightarrow> nat" where
  "handler_rank (HStart data) = 10"
| "handler_rank (HAcquire msg rq) = 9"
| "handler_rank (HRun msg rq) = 8"
| "handler_rank (HStore msg rq cid d) = 7"
| "handler_rank (HRunning msg rq cid) = 6"
| "handler_rank (HWait msg rq cid) = 5"
| "handler_rank (HRespond msg rq cid) = 4"
| "handler_rank (HReceive msg cid resp) = 3"
| "handler_rank (HDelete msg cid resp) = 2"
| "handler_rank (HUpdate msg resp) = 1"
| "handler_rank _ = 0"

lemma handler_begin_rank: "handler_begin env data ld = Inr (h, ld') \<Longrightarrow> handler_rank h \<le> 9"
  by (auto simp: handler_begin_def Let_def split: prod.splits option.splits sum.splits)

lemma handler_step_rank:
  assumes "handler_step env ch h ld = Some (Inr (h', ld'))"
  shows "handler_rank h' < handler_rank h"
proof (cases h)
  case (HStart data)
  with assms handler_begin_rank [of env data ld h' ld'] show ?thesis by simp
qed (use assms in \<open>auto split: option.splits sum.splits choice.splits if_splits prod.splits\<close>)

text \<open>
  An execution that counts the messages delivered and the steps handlers have taken; the other steps
  are those of the event loop and of the outside world.
\<close>

inductive counted ::
  "('d, 'f, 'db) env \<Rightarrow> handler list \<times> ('d, 'f, 'db) loader \<Rightarrow> nat \<Rightarrow> nat \<Rightarrow> handler list \<times> ('d, 'f, 'db) loader \<Rightarrow> bool"
  for env x where
  start: "counted env x 0 0 x"
| message: "counted env x m n (hs, ld) \<Longrightarrow> data_ok data \<Longrightarrow> counted env x (Suc m) n (hs @ [HStart data], ld)"
| handler: "counted env x m n (hs, ld) \<Longrightarrow> i < length hs \<Longrightarrow> handler_step env ch (hs ! i) ld = Some (Inr (h, ld'))
            \<Longrightarrow> fresh_id hs h \<Longrightarrow> counted env x m (Suc n) (hs[i := h], ld')"
| other: "counted env x m n (hs, ld) \<Longrightarrow> sys_step env (hs, ld) (hs, ld') \<Longrightarrow> counted env x m n (hs, ld')"

lemma counted_later: "counted env x m n y \<Longrightarrow> later env x y"
  by (induction rule: counted.induct) (auto intro: later.intros sys_step.message sys_step.handler)

lemma sum_rank_update:
  assumes "i < length hs" and "handler_rank h < handler_rank (hs ! i)"
  shows "Suc (sum_list (map handler_rank (hs[i := h]))) \<le> sum_list (map handler_rank hs)"
  using assms
proof (induction hs arbitrary: i)
  case (Cons g hs)
  then show ?case by (cases i) auto
qed simp

lemma counted_bound:
  assumes "counted env x m n y"
  shows "n + sum_list (map handler_rank (fst y)) \<le> sum_list (map handler_rank (fst x)) + 10 * m
         \<and> length (fst y) = length (fst x) + m"
  using assms
proof (induction rule: counted.induct)
  case (handler m n hs ld i ch h ld')
  with sum_rank_update [OF handler.hyps(2) handler_step_rank [OF handler.hyps(3)]] show ?case by simp
qed auto

subsection \<open>Events and the registry\<close>

text \<open>
  A container that is being stored has not been told of any event, and a handler that reads its
  response has a container that completed.
\<close>

fun event_local :: "manager \<Rightarrow> handler \<Rightarrow> bool" where
  "event_local s (HStore msg rq cid d) = (c_events d = [] \<and> c_complete d = OpenChan)"
| "event_local s (HRespond msg rq cid) = (\<exists>d. getContainer cid s = Some d \<and> c_complete d = ClosedChan)"
| "event_local s _ = True"

definition events_inv :: "handler list \<times> ('d, 'f, 'db) loader \<Rightarrow> bool" where
  "events_inv x \<longleftrightarrow> list_all (event_local (l_manager (snd x))) (fst x)"

text \<open>Closed channels stay closed as long as the entry of the registry is not replaced or removed.\<close>

definition keeps_closed :: "string \<Rightarrow> manager \<Rightarrow> manager \<Rightarrow> bool" where
  "keeps_closed cid s s' \<longleftrightarrow>
     (\<forall>d. getContainer cid s = Some d \<and> c_complete d = ClosedChan \<longrightarrow>
        (\<exists>d'. getContainer cid s' = Some d' \<and> c_complete d' = ClosedChan))"

lemma keeps_closed_same: "containers s' cid = containers s cid \<Longrightarrow> keeps_closed cid s s'"
  by (simp add: keeps_closed_def getContainer_def)

lemma event_local_keeps:
  "event_local s h \<Longrightarrow> (\<And>cid. registered h = Some cid \<Longrightarrow> keeps_closed cid s s') \<Longrightarrow> event_local s' h"
  by (cases h) (auto simp: keeps_closed_def)

lemma GetResponse_keeps: "GetResponse d = Inr (r, d') \<Longrightarrow> c_complete d' = c_complete d"
  by (auto simp: GetResponse_def Let_def split: sum.splits)

lemma handle_poll_keeps:
  assumes "handle_poll p s f = Inr (s', f')"
  shows "keeps_closed cid s s'"
proof (cases p)
  case (PollMsg msg)
  show ?thesis
  proof (cases "getContainer (m_ID msg) s")
    case None
    with assms PollMsg show ?thesis by (auto simp: handle_poll_def intro: keeps_closed_same)
  next
    case (Some d)
    with assms PollMsg obtain d1 where d1: "AddDockerEventMessage msg d f = Inr (d1, f')" "s' = containers_Store (m_ID msg) d1 s"
      by (auto simp: handle_poll_def split: sum.splits)
    have "c_complete d = ClosedChan \<Longrightarrow> m_Status msg \<noteq> ''destroy''"
      using d1(1) by (auto simp: AddDockerEventMessage_def updateStatusFromDockerEvent_def handleContainerRemoved_def
          getSandboxRunnerOutput_def Let_def split: if_splits sum.splits prod.splits dest!: cleanup_Inr)
    with event_keeps [OF d1(1)] Some d1(2) show ?thesis
      by (auto simp: keeps_closed_def getContainer_def containers_Store_def)
  qed
qed (use assms in \<open>auto simp: handle_poll_def intro: keeps_closed_same\<close>)

text \<open>A step of one handler touches no entry of the registry but that of its own container.\<close>

lemma handler_step_others:
  assumes "handler_step env ch h ld = Some (Inr (h', ld'))" and "started_id h \<noteq> Some cid"
  shows "containers (l_manager ld') cid = containers (l_manager ld) cid"
proof (cases h)
  case (HStart data)
  with assms(1) show ?thesis
    by (auto simp: handler_begin_def Let_def split: prod.splits option.splits sum.splits)
qed (use assms in \<open>auto simp: limiter_send_def limiter_receive_def manager_GetResponse_def getContainer_def
      split: option.splits sum.splits choice.splits if_splits prod.splits list.splits\<close>)

lemma handler_step_local:
  assumes step: "handler_step env ch h ld = Some (Inr (h', ld'))" and locals: "locals_ok h"
  shows "event_local (l_manager ld') h'"
proof (cases h)
  case (HStart data)
  with step have "handler_begin env data ld = Inr (h', ld')" by simp
  then show ?thesis by (auto simp: handler_begin_def Let_def split: prod.splits option.splits sum.splits)
next
  case (HRun msg rq)
  with locals obtain es where rq: "request_ok rq es" by auto
  show ?thesis
  proof (cases "\<exists>err. h' = HFailed err")
    case False
    with HRun step obtain cid d w where run: "Run (e_docker env) (NewSandboxContainer rq) (l_world ld) = Inr (Inr cid, d, w)"
      "h' = HStore msg rq cid d"
      by (auto split: sum.splits)
    with Run_live(2,3) [OF rq run(1)] show ?thesis by (simp add: started_def)
  qed auto
next
  case (HRespond msg rq cid)
  with step show ?thesis
    by (cases "manager_GetResponse cid (l_manager ld)") (auto split: prod.splits option.splits)
qed (use step in \<open>auto split: option.splits choice.splits if_splits\<close>)

lemma sys_step_events:
  assumes env: "env_ok env" and step: "sys_step env x y" and inv: "system_inv x" and ev: "events_inv x"
  shows "events_inv y"
  using step
proof (cases rule: sys_step.cases)
  case (handler i hs ch ld h ld')
  have locals: "locals_ok (hs ! i)" and ids: "ids_ok hs"
    using inv handler(1,3) by (auto simp: system_inv_def list_all_length)
  have "event_local (l_manager ld') ((hs[i := h]) ! a)" if a: "a < length hs" for a
  proof (cases "a = i")
    case True
    with handler_step_local [OF handler(4) locals] a show ?thesis by simp
  next
    case False
    have "keeps_closed cid (l_manager ld) (l_manager ld')" if "registered (hs ! a) = Some cid" for cid
    proof (rule keeps_closed_same [OF handler_step_others [OF handler(4)]])
      show "started_id (hs ! i) \<noteq> Some cid"
        using ids_okD [OF ids a handler(3) started_registered [OF that]] False by blast
    qed
    moreover have "event_local (l_manager ld) (hs ! a)"
      using ev handler(1) a by (simp add: events_inv_def list_all_length)
    ultimately show ?thesis using False by (simp add: event_local_keeps)
  qed
  with handler(2) show ?thesis by (simp add: events_inv_def list_all_length)
next
  case (event p ld s f hs)
  have "event_local s h" if "h \<in> set hs" for h
  proof (rule event_local_keeps)
    show "event_local (l_manager ld) h" using ev event(1) that by (simp add: events_inv_def list_all_iff)
    show "keeps_closed cid (l_manager ld) s" for cid by (rule handle_poll_keeps [OF event(3)])
  qed
  with event(2) show ?thesis by (simp add: events_inv_def list_all_iff)
qed (use ev in \<open>auto simp: events_inv_def\<close>)

lemma reachable_events:
  assumes "env_ok env" and "reachable env x"
  shows "events_inv x"
  using assms(2)
proof (induction rule: reachable.induct)
  case (init ld)
  then show ?case by (simp add: events_inv_def)
next
  case (step x y)
  then show ?case using sys_step_events [OF assms(1)] reachable_inv [OF assms(1)] by blast
qed

subsection \<open>Executions without a further removal of a container\<close>

definition announces :: "string \<Rightarrow> poll \<Rightarrow> bool" where
  "announces cid p \<longleftrightarrow> (case p of PollMsg msg \<Rightarrow> m_ID msg = cid \<and> m_Status msg = ''destroy'' | _ \<Rightarrow> False)"

inductive quiet ::
  "('d, 'f, 'db) env \<Rightarrow> string \<Rightarrow> handler list \<times> ('d, 'f, 'db) loader \<Rightarrow> handler list \<times> ('d, 'f, 'db) loader \<Rightarrow> bool"
  for env cid x where
  start: "quiet env cid x x"
| message: "quiet env cid x (hs, ld) \<Longrightarrow> data_ok data \<Longrightarrow> quiet env cid x (hs @ [HStart data], ld)"
| handler: "quiet env cid x (hs, ld) \<Longrightarrow> i < length hs \<Longrightarrow> handler_step env ch (hs ! i) ld = Some (Inr (h, ld'))
            \<Longrightarrow> fresh_id hs h \<Longrightarrow> quiet env cid x (hs[i := h], ld')"
| event: "quiet env cid x (hs, ld) \<Longrightarrow> \<not> announces cid p \<Longrightarrow> handle_poll p (l_manager ld) (w_fs (l_world ld)) = Inr (s, f)
          \<Longrightarrow> quiet env cid x (hs, ld\<lparr>l_manager := s, l_world := (l_world ld)\<lparr>w_fs := f\<rparr>\<rparr>)"
| outside: "quiet env cid x (hs, ld) \<Longrightarrow> quiet env cid x (hs, ld\<lparr>l_world := w, l_files := fl, l_db := db\<rparr>)"

lemma quiet_later: "quiet env cid x y \<Longrightarrow> later env x y"
proof (induction rule: quiet.induct)
  case (event hs ld p s f)
  show ?case by (rule later.step [OF event.IH sys_step.event [OF event.hyps(3)]])
next
  case (outside hs ld w fl db)
  show ?case by (rule later.step [OF outside.IH sys_step.outside])
qed (auto intro: later.refl later.step sys_step.message sys_step.handler)

text \<open>The handler of a container whose removal nobody told it.\<close>

fun waiting :: "CompileMessage \<Rightarrow> Request \<Rightarrow> string \<Rightarrow> Container \<Rightarrow> manager \<Rightarrow> handler \<Rightarrow> bool" where
  "waiting msg rq cid d s (HStore m r k e) = (m = msg \<and> r = rq \<and> k = cid \<and> e = d \<and> c_complete d = OpenChan)"
| "waiting msg rq cid d s (HRunning m r k) =
     (m = msg \<and> r = rq \<and> k = cid \<and> (\<exists>e. containers s cid = Some e \<and> c_complete e = OpenChan))"
| "waiting msg rq cid d s (HWait m r k) =
     (m = msg \<and> r = rq \<and> k = cid \<and> (\<exists>e. containers s cid = Some e \<and> c_complete e = OpenChan))"
| "waiting msg rq cid d s (HTimedOut k) = (k = cid)"
| "waiting msg rq cid d s _ = False"

lemma waiting_started: "waiting msg rq cid d s h \<Longrightarrow> started_id h = Some cid"
  by (cases h) auto

lemma waiting_step:
  "handler_step env ch h ld = Some (Inr (h', ld')) \<Longrightarrow> waiting msg rq cid d (l_manager ld) h \<Longrightarrow> waiting msg rq cid d (l_manager ld') h'"
  by (cases h) (auto simp: getContainer_def split: choice.splits option.splits if_splits)

lemma waiting_same: "containers s' cid = containers s cid \<Longrightarrow> waiting msg rq cid d s h \<Longrightarrow> waiting msg rq cid d s' h"
  by (cases h) auto

lemma waiting_event:
  assumes "handle_poll p s f = Inr (s', f')" and "\<not> announces cid p" and "waiting msg rq cid d s h"
  shows "waiting msg rq cid d s' h"
proof (cases "\<exists>ev e. p = PollMsg ev \<and> m_ID ev = cid \<and> containers s cid = Some e")
  case True
  then obtain ev e where p: "p = PollMsg ev" "m_ID ev = cid" "containers s cid = Some e" by blast
  with assms(1) obtain d1 where d1: "AddDockerEventMessage ev e f = Inr (d1, f')" "s' = containers_Store cid d1 s"
    by (auto simp: handle_poll_def getContainer_def split: sum.splits)
  have "c_complete d1 = c_complete e" using event_keeps [OF d1(1)] assms(2) p by (simp add: announces_def)
  with assms(3) d1(2) p(3) show ?thesis by (cases h) auto
next
  case False
  then have "containers s' cid = containers s cid"
    using assms(1) by (auto simp: handle_poll_def getContainer_def split: poll.splits option.splits sum.splits)
  with assms(3) show ?thesis by (rule waiting_same [rotated])
qed

lemma quiet_waiting:
  assumes "quiet env cid x y" and "env_ok env" and "reachable env x" and "i < length (fst x)"
    and "waiting msg rq cid d (l_manager (snd x)) (fst x ! i)"
  shows "i < length (fst y) \<and> waiting msg rq cid d (l_manager (snd y)) (fst y ! i)"
  using assms
proof (induction rule: quiet.induct)
  case (handler hs ld j ch h ld')
  note IH = handler.IH [OF handler.prems]
  show ?case
  proof (cases "j = i")
    case True
    with IH waiting_step [OF handler.hyps(3)] show ?thesis by simp
  next
    case False
    have "reachable env (hs, ld)" by (rule later_reachable [OF quiet_later [OF handler.hyps(1)] handler.prems(2)])
    then have ids: "ids_ok hs" using reachable_inv [OF handler.prems(1)] by (auto simp: system_inv_def)
    have "started_id (hs ! j) \<noteq> Some cid"
      using ids_okD [OF ids handler.hyps(2), of i cid] IH waiting_started [of msg rq cid d "l_manager ld" "hs ! i"] False by auto
    from waiting_same [OF handler_step_others [OF handler.hyps(3) this], where h = "hs ! i"] IH False show ?thesis by simp
  qed
next
  case (event hs ld p s f)
  with waiting_event [OF event.hyps(3,2)] show ?case by simp
qed (auto simp: nth_append)

lemma rank_le: "handler_rank h \<le> 10"
  by (cases h) auto

lemma sum_rank_le: "sum_list (map handler_rank hs) \<le> 10 * length hs"
  using rank_le by (induction hs) (auto intro: order_trans [OF add_mono])

lemma store_unregistered:
  assumes "env_ok env" and "reachable env (hs, ld)" and "i < length hs" and "hs ! i = HStore msg rq cid d"
  shows "containers (l_manager ld) cid = None"
proof -
  have "ids_ok hs" and reg: "registry_ok hs (l_manager ld)"
    using reachable_inv [OF assms(1,2)] by (auto simp: system_inv_def)
  have "registered (hs ! a) \<noteq> Some cid" if "a < length hs" for a
    using ids_okD [OF \<open>ids_ok hs\<close> that assms(3), of cid] started_registered [of "hs ! a" cid] assms(4) by auto
  then have "cid \<notin> dom (containers (l_manager ld))" using reg by (auto simp: registry_ok_def in_set_conv_nth)
  then show ?thesis by blast
qed

subsection \<open>Concrete data for the witnesses\<close>

definition accepting_client :: "unit docker_client" where
  "accepting_client =
     \<lparr>ContainerCreate = (\<lambda>c h n d. (Inr ''0123456789abcdef'', d)),
      ContainerStart = (\<lambda>i d. (None, d)), ContainerKill = (\<lambda>i s d. (None, d))\<rparr>"

definition start_env :: "(unit, unit, string \<rightharpoonup> Execution) env" where
  "start_env = demo_env\<lparr>e_docker := accepting_client\<rparr>"

lemma start_env_ok: "env_ok start_env"
  using demo_env_ok by (simp add: env_ok_def start_env_def)

lemma start_begin: "handler_begin start_env data ld = handler_begin demo_env data ld"
proof -
  have sel: "e_files start_env = e_files demo_env" "e_repo start_env = e_repo demo_env" "e_goos start_env = e_goos demo_env"
    "e_getenv start_env = e_getenv demo_env" "e_tempdir start_env = e_tempdir demo_env"
    by (simp_all add: start_env_def)
  show ?thesis unfolding handler_begin_def set_status_def sel by (simp only:)
qed

lemma accepting_Run:
  assumes "request_ok rq es" and "w_fs w = empty_fs"
  obtains d w' where "Run accepting_client (NewSandboxContainer rq) w = Inr (Inr ''0123456789abcdef'', d, w')"
proof -
  obtain f where "prepare rq (w_fs w) = (None, f)"
    using prepare_total [OF assms(1) empty_fs_room] assms(2) by auto
  with that show ?thesis
    by (auto simp: Run_def NewSandboxContainer_def execute_def accepting_client_def)
qed

text \<open>One handler that is about to store the container it started.\<close>

lemma demo_stored:
  obtains rq d ld where "reachable start_env ([HStore demo_message rq ''0123456789abcdef'' d], ld)"
    "counted start_env ([], demo_loader) 1 3 ([HStore demo_message rq ''0123456789abcdef'' d], ld)"
    "c_ID d = ''0123456789abcdef''"
proof -
  let ?h = "HStart (json_Marshal (encode_message demo_message))" and ?C = "counted start_env ([], demo_loader)"
  have 0: "?C 1 0 ([?h], demo_loader)"
    using counted.message [OF counted.start demo_data_ok, of start_env "[]" demo_loader] by simp
  have "machine_ok ''linux'' (l_machine demo_loader)" "l_world demo_loader = demo_world"
    using initial_machine_ok by (simp_all add: demo_loader_def)
  then obtain rq es ld1 where 1: "handler_step demo_env TakeComplete ?h demo_loader = Some (Inr (HAcquire demo_message rq, ld1))"
    "request_ok rq es" "l_manager ld1 = l_manager demo_loader" "l_world ld1 = demo_world"
    by (rule demo_begin)
  have "handler_step start_env TakeComplete ?h demo_loader = Some (Inr (HAcquire demo_message rq, ld1))"
    using 1(1) start_begin by simp
  with counted.handler [OF 0, of 0 TakeComplete "HAcquire demo_message rq" ld1]
  have r1: "?C 1 1 ([HAcquire demo_message rq], ld1)" by (simp add: fresh_id_def del: handler_step.simps)
  define ld2 where "ld2 = ld1\<lparr>l_manager := (l_manager ld1)\<lparr>limiter := [rq_ID rq]\<rparr>\<rparr>"
  have "handler_step start_env TakeComplete (HAcquire demo_message rq) ld1 = Some (Inr (HRun demo_message rq, ld2))"
    using 1(3) by (simp add: ld2_def demo_loader_def limiter_send_def)
  with counted.handler [OF r1, of 0 TakeComplete "HRun demo_message rq" ld2]
  have r2: "?C 1 2 ([HRun demo_message rq], ld2)" by (simp add: fresh_id_def numeral_2_eq_2 del: handler_step.simps)
  have "w_fs (l_world ld2) = empty_fs" using 1(4) by (simp add: ld2_def demo_world_def)
  then obtain d w where run: "Run accepting_client (NewSandboxContainer rq) (l_world ld2) = Inr (Inr ''0123456789abcdef'', d, w)"
    by (rule accepting_Run [OF 1(2)])
  have id: "c_ID d = ''0123456789abcdef''" using Run_live(2) [OF 1(2) run] by (simp add: started_def)
  have "handler_step start_env TakeComplete (HRun demo_message rq) ld2 =
      Some (Inr (HStore demo_message rq ''0123456789abcdef'' d, ld2\<lparr>l_world := w\<rparr>))"
    using run by (simp add: start_env_def)
  with counted.handler [OF r2, of 0 TakeComplete "HStore demo_message rq ''0123456789abcdef'' d" "ld2\<lparr>l_world := w\<rparr>"]
  have r3: "?C 1 3 ([HStore demo_message rq ''0123456789abcdef'' d], ld2\<lparr>l_world := w\<rparr>)"
    by (simp add: fresh_id_def numeral_3_eq_3 numeral_2_eq_2 del: handler_step.simps)
  have "reachable start_env ([], demo_loader)" by (rule reachable.init) (simp_all add: demo_loader_def)
  from later_reachable [OF counted_later [OF r3] this] r3 id that show ?thesis by blast
qed

text \<open>The same handler after its container was stored, removed by Docker and found complete.\<close>

lemma demo_responding:
  obtains rq ld where "reachable start_env ([HRespond demo_message rq ''0123456789abcdef''], ld)"
proof -
  let ?cid = "''0123456789abcdef''" and ?R = "reachable start_env"
  obtain rq d ld where r0: "?R ([HStore demo_message rq ?cid d], ld)" and id: "c_ID d = ?cid" by (rule demo_stored)
  have st: "event_local (l_manager ld) (HStore demo_message rq ?cid d)"
    using reachable_events [OF start_env_ok r0] by (simp add: events_inv_def)
  define ld1 where "ld1 = set_status start_env (cm_ID demo_message) Running (ld\<lparr>l_manager := containers_Store ?cid d (l_manager ld)\<rparr>)"
  have r1: "?R ([HWait demo_message rq ?cid], ld1)"
    using reachable_handler [OF reachable_handler [OF r0, of 0 TakeComplete "HRunning demo_message rq ?cid"], of _ 0 TakeComplete
        "HWait demo_message rq ?cid" ld1]
    by (simp add: fresh_id_def ld1_def)
  have "AddDockerEventMessage destroy_event d (w_fs (l_world ld1)) \<noteq> Inl p" for p
    using st id by (auto simp: AddDockerEventMessage_Inl)
  then obtain d' f where ev: "AddDockerEventMessage destroy_event d (w_fs (l_world ld1)) = Inr (d', f)"
    by (cases "AddDockerEventMessage destroy_event d (w_fs (l_world ld1))") auto
  have "c_complete d' = ClosedChan" by (rule destroy_closes [OF ev]) (simp add: destroy_event_def)
  have "handle_poll (PollMsg destroy_event) (l_manager ld1) (w_fs (l_world ld1)) = Inr (containers_Store ?cid d' (l_manager ld1), f)"
    using ev by (simp add: handle_poll_def ld1_def getContainer_def destroy_event_def)
  from reachable.step [OF r1 sys_step.event [OF this]]
  have r2: "?R ([HWait demo_message rq ?cid], ld1\<lparr>l_manager := containers_Store ?cid d' (l_manager ld1), l_world := (l_world ld1)\<lparr>w_fs := f\<rparr>\<rparr>)" .
  from reachable_handler [OF r2, of 0 TakeComplete "HRespond demo_message rq ?cid"] \<open>c_complete d' = ClosedChan\<close> that
  show ?thesis by (simp add: fresh_id_def getContainer_def)
qed

subsection \<open>Properties\<close>



text \<open>
  C28. A removal that is announced between the start of a container and its entry into the registry is
  lost: the event loop changes nothing, and since Docker announces a removal once, the handler that
  stores the container afterwards never sees it complete, whatever else happens; all that is left
  to it is the timeout, which keeps its slot and reports nothing.
\<close>

theorem early_removal_is_lost:
  assumes "env_ok env" and "reachable env (hs, ld)" and "i < length hs" and "hs ! i = HStore msg rq cid d"
    and "m_ID ev = cid" and "m_Status ev = ''destroy''" and "quiet env cid (hs, ld) (hs', ld')"
  shows "handle_poll (PollMsg ev) (l_manager ld) f = Inr (l_manager ld, f)
         \<and> (hs' ! i = HStore msg rq cid d \<or> hs' ! i = HRunning msg rq cid \<or> hs' ! i = HWait msg rq cid \<or> hs' ! i = HTimedOut cid)
         \<and> (hs' ! i = HWait msg rq cid \<longrightarrow> handler_step env TakeComplete (hs' ! i) ld' = None
              \<and> handler_step env TakeTimeout (hs' ! i) ld' = Some (Inr (HTimedOut cid, ld')))"
proof -
  have "event_local (l_manager ld) (hs ! i)"
    using reachable_events [OF assms(1,2)] assms(3) by (simp add: events_inv_def list_all_length)
  then have "c_complete d = OpenChan" using assms(4) by simp
  then have "waiting msg rq cid d (l_manager ld') (hs' ! i)"
    using quiet_waiting [OF assms(7,1,2), where i = i and msg = msg and rq = rq and d = d] assms(3,4) by simp
  then show ?thesis
    using store_unregistered [OF assms(1-4)] assms(5)
    by (cases "hs' ! i") (auto simp: handle_poll_def getContainer_def)
qed

theorem early_removal_is_lost_witness:
  "\<exists>rq d ld. reachable start_env ([HStore demo_message rq ''0123456789abcdef'' d], ld)
     \<and> handle_poll (PollMsg destroy_event) (l_manager ld) empty_fs = Inr (l_manager ld, empty_fs)"
proof -
  obtain rq d ld where r: "reachable start_env ([HStore demo_message rq ''0123456789abcdef'' d], ld)" by (rule demo_stored)
  from early_removal_is_lost [OF start_env_ok r _ _ _ _ quiet.start, where i = 0 and ev = destroy_event and f = empty_fs]
  have "handle_poll (PollMsg destroy_event) (l_manager ld) empty_fs = Inr (l_manager ld, empty_fs)"
    by (simp add: destroy_event_def)
  with r show ?thesis by blast
qed



end
