(* ===== verification/End_To_End.thy ===== *)
theory End_To_End
  imports Service_System Sandbox_Protocol Loader_Events
begin

text \<open>
  One job through all the programs: the API that takes it, the handler that reads its message, the
  sandbox that starts its container, the runner inside, the event loop, the handler that reports,
  and the API that tells the client. Each stage is the definition of its component; the predicates
  of this theory only collect what has to go well at a stage.
\<close>

subsection \<open>The parameters of the runner\<close>

text \<open>The strings of the language table are ASCII and the numbers of every profile fit their type.\<close>

lemma Compilers_utf8_table:
  "list_all (\<lambda>(k, c). list_all valid_utf8 (lc_Language c # lc_runSteps c # lc_InputFile c # elems (lc_compileSteps c))) Compilers"
  by code_simp

lemma Compilers_utf8:
  "Compilers_lookup k = Some c \<Longrightarrow>
     list_all valid_utf8 (lc_Language c # lc_runSteps c # lc_InputFile c # elems (lc_compileSteps c))"
  using Compilers_utf8_table unfolding Compilers_lookup_def by (auto simp: list_all_iff dest!: map_of_SomeD)

definition profile_in_range :: "Profile \<Rightarrow> bool" where
  "profile_in_range p \<longleftrightarrow> list_all in_int64 [p_CompileTimeout p, p_CodeTimeout p, p_ExecutionMemory p]"

lemma profiles_in_range: "profiles k = Some p \<Longrightarrow> profile_in_range p"
  by (auto simp: profiles_def profile_in_range_def in_int64_def Second_def memory_units split: if_splits)

lemma table_in_range: "table_ok t \<Longrightarrow> t k = Some p \<Longrightarrow> profile_in_range p"
  using profiles_in_range [of k] by (auto simp: table_ok_def profile_in_range_def dest!: spec [of _ k])

lemma profiles_memory: "profiles k = Some p \<Longrightarrow> p_ExecutionMemory p = Gigabyte"
  by (auto simp: profiles_def split: if_splits)

lemma table_memory: "table_ok t \<Longrightarrow> t k = Some p \<Longrightarrow> p_ExecutionMemory p = Gigabyte"
  using profiles_memory [of k] by (auto simp: table_ok_def dest!: spec [of _ k])

lemma machine_profile_in_range:
  assumes "machine_ok goos m" and "daemonOnce m \<or> \<not> null_daemon_file f"
    and "GetProfileForMachine goos getenv f m = Inr (Some p, m')"
  shows "profile_in_range p"
proof -
  obtain q m1 where "GetProfileForMachine goos getenv f m = Inr (Some q, m1)" "machine_ok goos m1"
    "profile_table m1 (profile_key goos (currentEnvironment m1)) = Some q"
    by (rule GetProfileForMachine_some [OF assms(1,2)])
  with assms(3) table_in_range show ?thesis by (auto simp: machine_ok_def)
qed

lemma handler_parameters_ok:
  assumes msg: "message_ok msg" and machine: "machine_ok (e_goos env) (l_machine ld)"
      "daemonOnce (l_machine ld) \<or> \<not> null_daemon_file (w_fs (l_world ld))"
    and started: "handler_begin env (json_Marshal (encode_message msg)) ld = Inr (HAcquire msg rq, ld')"
  shows "parameters_ok (runner_parameters rq)"
proof -
  obtain c p m1 src where c: "Compilers_lookup (cm_Language msg) = Some c"
    and p: "GetProfileForMachine (e_goos env) (e_getenv env) (w_fs (l_world ld)) (l_machine ld) = Inr (Some p, m1)"
    and rq: "rq = sandbox_request (e_tempdir env) msg c p src"
    using started unmarshal_message [OF msg, of zero_message]
    by (auto simp: handler_begin_def Let_def split: option.splits sum.splits)
  have "profile_in_range p" by (rule machine_profile_in_range [OF machine p])
  with Compilers_utf8 [OF c] msg show ?thesis
    by (simp add: parameters_ok_def runner_parameters_def rq sandbox_request_def profile_in_range_def message_ok_def)
qed

subsection \<open>What goes well at each stage\<close>

text \<open>API and loader on one machine, with the local store and one database.\<close>

definition local_deployment ::
  "('d, fs, 'db) env \<Rightarrow> (fs, 'q, 'db) server \<Rightarrow> LocalConfig \<Rightarrow> nat list \<Rightarrow> ('db \<Rightarrow> string \<rightharpoonup> Execution) \<Rightarrow> bool" where
  "local_deployment env sv cfg sched rows \<longleftrightarrow>
     env_ok env \<and> root_ok cfg \<and> sv_WriteFile sv = LocalFiles_WriteFile cfg \<and> sv_GetFile sv = LocalFiles_GetFile cfg
     \<and> e_files env = local_iface cfg sched \<and> sv_Repo sv = e_repo env \<and> gorm_laws (e_repo env) rows"

text \<open>The working directory of a job, and the test its request stands for.\<close>

definition job_path :: "('d, 'f, 'db) env \<Rightarrow> string \<Rightarrow> string list" where
  "job_path env rid = path_elems (e_tempdir env) @ [''executions'', ''raw'', rid]"

definition client_test :: "string \<Rightarrow> CreateCompileRequest \<Rightarrow> Test option" where
  "client_test rid direct =
     (if elems (cc_StandardInData direct) = [] \<and> elems (cc_ExpectedStandardOutData direct) = [] then None
      else Some \<lparr>t_ID = rid, t_StdinData = cc_StandardInData direct, t_ExpectedStdoutData = cc_ExpectedStandardOutData direct\<rparr>)"

text \<open>The API stored the source and the handler of the submitted message goes on with a sandbox request.\<close>

definition job_accepted ::
  "('d, fs, 'db) env \<Rightarrow> (fs, 'q, 'db) server \<Rightarrow> LocalConfig \<Rightarrow> string \<Rightarrow> CreateCompileRequest \<Rightarrow> LanguageCompiler
   \<Rightarrow> (fs, 'q, 'db) api \<Rightarrow> ('d, fs, 'db) loader \<Rightarrow> Request \<Rightarrow> bool" where
  "job_accepted env sv cfg rid direct c st ld rq \<longleftrightarrow>
     Compilers_lookup (cc_Language direct) = Some c \<and> readable (a_files st)
     \<and> fst (LocalFiles_WriteFile cfg \<lparr>f_ID = rid, f_Name = lc_SourceFile c, f_Data = cc_Source direct\<rparr> (a_files st)) = None
     \<and> (\<exists>err st' ld'. create_submit sv rid direct st = Inr (err, st') \<and> l_files ld = a_files st'
          \<and> handler_begin env (json_Marshal (encode_message (compile_message rid direct))) ld
              = Inr (HAcquire (compile_message rid direct) rq, ld'))"

text \<open>The runner was run in a container that has the working directory as \<open>/input\<close>.\<close>

definition ran_inside :: "runner_env \<Rightarrow> string list \<Rightarrow> Request \<Rightarrow> fs \<Rightarrow> fs \<Rightarrow> ExecutionResponse \<Rightarrow> fs \<Rightarrow> bool" where
  "ran_inside renv es rq host g resp g' \<longleftrightarrow>
     mounted es host g \<and> guest_ok g \<and> well_behaved renv \<and> runner_main renv g = Exited g'
     \<and> (\<exists>g1. runner_response renv (runner_parameters rq) g = Inr (resp, g1)) \<and> response_ok resp"

text \<open>The handler took its five last steps, and neither the store nor the database reported an error.\<close>

definition job_reported ::
  "('d, fs, 'db) env \<Rightarrow> LocalConfig \<Rightarrow> nat list \<Rightarrow> CompileMessage \<Rightarrow> Request \<Rightarrow> string \<Rightarrow> Response
   \<Rightarrow> ('d, fs, 'db) loader \<Rightarrow> ('d, fs, 'db) loader \<Rightarrow> bool" where
  "job_reported env cfg sched msg rq cid rs ld ld' \<longleftrightarrow>
     handler_steps env 5 (HWait msg rq cid) ld = Some (Inr (HDone, ld'))
     \<and> finished (LocalFiles_WriteFiles cfg sched (upload_files rq rs) (l_files ld))
     \<and> fst (snd (LocalFiles_WriteFiles cfg sched (upload_files rq rs) (l_files ld))) = []
     \<and> snd (fst (UpdateExecution (e_repo env) (cm_ID msg) (execution_columns rs) (l_db ld))) = None
     \<and> readable (l_files ld') \<and> snd (GetExecution (e_repo env) (cm_ID msg) (l_db ld')) = None"

subsection \<open>The stages\<close>

lemma accepted_request:
  assumes dep: "local_deployment env sv cfg sched rows" and str: "request_strings_ok rid direct"
    and acc: "job_accepted env sv cfg rid direct c st ld rq"
  shows "request_ok rq (job_path env rid)" "rq_ID rq = rid" "rq_SourceCode rq = cc_Source direct" "rq_Compiler rq = c"
    "rq_Test rq = client_test rid direct"
proof -
  let ?msg = "compile_message rid direct"
  have ids: "cm_ID ?msg = rid" "cm_Language ?msg = cc_Language direct" "plain rid" "message_ok ?msg"
    using str by (simp_all add: compile_message_def request_strings_ok_def)
  obtain err st' ld' where c: "Compilers_lookup (cc_Language direct) = Some c" and rd: "readable (a_files st)"
    and w: "fst (LocalFiles_WriteFile cfg \<lparr>f_ID = rid, f_Name = lc_SourceFile c, f_Data = cc_Source direct\<rparr> (a_files st)) = None"
    and s: "create_submit sv rid direct st = Inr (err, st')" and l: "l_files ld = a_files st'"
    and h: "handler_begin env (json_Marshal (encode_message ?msg)) ld = Inr (HAcquire ?msg rq, ld')"
    using acc unfolding job_accepted_def by blast
  have v: "local_valid cfg rid (lc_SourceFile c)"
    using dep ids(3) Compilers_ok [OF c] by (simp add: local_deployment_def local_valid_def compiler_ok_def)
  have wr: "sv_WriteFile sv = LocalFiles_WriteFile cfg" using dep by (simp add: local_deployment_def)
  have src: "LocalFiles_GetFile cfg rid (lc_SourceFile c) (a_files st') = (cc_Source direct, None)"
    by (rule local_store.submitted_source [OF rd v c wr s w])
  obtain p where rq: "rq = sandbox_request (e_tempdir env) ?msg c p (fst (if_GetFile (e_files env) rid (lc_SourceFile c) (l_files ld)))"
    using h unmarshal_message [OF ids(4), of zero_message] c ids(1,2)
    by (auto simp: handler_begin_def Let_def split: option.splits sum.splits)
  have get: "if_GetFile (e_files env) = LocalFiles_GetFile cfg" using dep by (simp add: local_deployment_def local_iface_def)
  have rq': "rq = sandbox_request (e_tempdir env) ?msg c p (cc_Source direct)" using rq src l get by simp
  have "env_ok env" using dep by (simp add: local_deployment_def)
  from sandbox_request_ok [OF this, of ?msg "cc_Language direct" c p "cc_Source direct"] ids(1,3) c rq'
  show "request_ok rq (job_path env rid)" by (simp add: job_path_def)
  show "rq_ID rq = rid" "rq_SourceCode rq = cc_Source direct" "rq_Compiler rq = c" "rq_Test rq = client_test rid direct"
    using rq' ids(1) by (simp_all add: sandbox_request_def client_test_def compile_message_def)
qed

lemma container_sees_inputs:
  assumes "request_ok rq es" and "Run client (NewSandboxContainer rq) w = Inr (Inr cid, d, w')" and "mounted es (w_fs w') g"
  shows "files g [''input'', lc_SourceFile (rq_Compiler rq)] = Some (rq_SourceCode rq @ crlf)"
    "files g [''input'', lc_InputFile (rq_Compiler rq)] = Some (stdin_text rq)"
proof -
  have "prepare rq (w_fs w) = (None, w_fs w')" using Run_live(2) [OF assms(1,2)] by (simp add: started_def)
  note f = prepare_ok(1) [OF assms(1) this]
  have ne: "lc_SourceFile (rq_Compiler rq) \<noteq> lc_InputFile (rq_Compiler rq)" "lc_SourceFile (rq_Compiler rq) \<noteq> ''runner.json''"
    "lc_InputFile (rq_Compiler rq) \<noteq> ''runner.json''"
    using assms(1) by (auto simp: request_ok_def compiler_ok_def)
  show "files g [''input'', lc_SourceFile (rq_Compiler rq)] = Some (rq_SourceCode rq @ crlf)"
    "files g [''input'', lc_InputFile (rq_Compiler rq)] = Some (stdin_text rq)"
    using assms(3) f ne by (simp_all add: mounted_def)
qed

text \<open>From the container that ended to the response of the handler's manager.\<close>

lemma removal_gives_response:
  assumes rq: "request_ok rq es" "Compilers_lookup k = Some (rq_Compiler rq)" "parameters_ok (runner_parameters rq)"
    and run: "Run client (NewSandboxContainer rq) w = Inr (Inr cid, d, w')" and inside: "ran_inside renv es rq (w_fs w') g resp g'"
    and reg: "getContainer cid s = Some d" and left: "mounted es f g'" "\<not> fault f OpRead (es @ [''runner-out.json''])"
    and ev: "10 \<le> length cid" "m_ID ev = cid" "m_Status ev = ''destroy''"
  obtains d' f' rs where "handle_poll (PollMsg ev) s f = Inr (containers_Store cid d' s, f')" "c_complete d' = ClosedChan"
    "GetResponse d' = Inr (rs, d')" "rs_Status rs = er_Status resp" "rs_Output rs = er_Output resp" "rs_OutputError rs = er_OutputErr resp"
    "rs_CompilerOutput rs = er_CompilerOutput resp" "rs_TestStatus rs = expected_test_status (rq_Test rq) (er_Status resp) (Some resp)"
proof -
  have st: "prepare rq (w_fs w) = (None, w_fs w')" "c_ID d = cid" "c_complete d = OpenChan" "c_request d = rq"
    using Run_live(2) [OF rq(1) run] by (simp_all add: started_def)
  have ins: "mounted es (w_fs w') g" "guest_ok g" "well_behaved renv" "runner_main renv g = Exited g'" "response_ok resp"
    "\<exists>g1. runner_response renv (runner_parameters rq) g = Inr (resp, g1)"
    using inside by (simp_all add: ran_inside_def)
  have "10 \<le> length (c_ID d)" using ev(1) st(2) by simp
  from response_delivered [OF rq st(1) ins(1-3) st(4,3) this ev(3)] obtain resp2 g1 g2 where
    r2: "runner_response renv (runner_parameters rq) g = Inr (resp2, g1)" "runner_main renv g = Exited g2" and
    all: "\<forall>h. response_ok resp2 \<and> mounted es h g2 \<and> \<not> fault h OpRead (es @ [''runner-out.json'']) \<longrightarrow>
                (\<exists>d' h' rs. AddDockerEventMessage ev d h = Inr (d', h') \<and> GetResponse d' = Inr (rs, d')
                   \<and> rs_Status rs = er_Status resp2 \<and> rs_Output rs = er_Output resp2 \<and> rs_OutputError rs = er_OutputErr resp2
                   \<and> rs_CompilerOutput rs = er_CompilerOutput resp2 \<and> rs_RuntimeMemory rs = er_RuntimeMemoryBytes resp2
                   \<and> rs_Runtime rs = er_Runtime resp2 \<and> rs_CompileTime rs = er_CompileTime resp2
                   \<and> rs_TestStatus rs = expected_test_status (rq_Test rq) (er_Status resp2) (Some resp2))"
    by blast
  have same: "resp2 = resp" "g2 = g'" using r2 ins(4,6) by auto
  from all [rule_format, of f] ins(5) left obtain d' f' rs where
    a: "AddDockerEventMessage ev d f = Inr (d', f')" "GetResponse d' = Inr (rs, d')" "rs_Status rs = er_Status resp"
      "rs_Output rs = er_Output resp" "rs_OutputError rs = er_OutputErr resp" "rs_CompilerOutput rs = er_CompilerOutput resp"
      "rs_TestStatus rs = expected_test_status (rq_Test rq) (er_Status resp) (Some resp)"
    unfolding same by blast
  have "handle_poll (PollMsg ev) s f = Inr (containers_Store cid d' s, f')"
    using a(1) reg ev(2) by (simp add: handle_poll_def)
  from that [OF this destroy_closes [OF a(1) ev(3)] a(2-7)] show ?thesis .
qed

subsection \<open>A concrete job\<close>

definition job_env :: "(unit, fs, string \<rightharpoonup> Execution) env" where
  "job_env = local_env\<lparr>e_docker := accepting_client\<rparr>"

lemma job_deployment: "local_deployment job_env demo_server local_cfg local_sched (\<lambda>t. t)"
  using local_env_ok table_gorm_laws
  by (simp add: local_deployment_def job_env_def local_env_def env_ok_def demo_server_def local_cfg_def)

lemma job_strings: "request_strings_ok ''r1'' demo_direct"
  using demo_message_ok unfolding request_strings_ok_def demo_compile_message by (simp add: demo_message_def)

text \<open>The job is accepted; its language needs no compilation and its profile allows one gigabyte.\<close>

lemma job_started:
  obtains c rq f where "job_accepted job_env demo_server local_cfg ''r1'' demo_direct c demo_api (local_loader f) rq"
    "lc_compileSteps c = None" "p_ExecutionMemory (rq_ExecutionProfile rq) = Gigabyte"
    "lc_OutputFile c = ''output''" "lc_OutputErrFile c = ''output_error''" "lc_Interpreter c"
proof -
  obtain c where c: "Compilers_lookup ''python'' = Some c" "lc_compileSteps c = None" "lc_OutputFile c = ''output''"
    "lc_OutputErrFile c = ''output_error''" "lc_Interpreter c"
    by (simp add: Compilers_lookup_def Compilers_def)
  have c': "Compilers_lookup (cc_Language demo_direct) = Some c" using c(1) by (simp add: demo_direct_def)
  then obtain st' where st': "create_submit demo_server ''r1'' demo_direct demo_api = Inr (None, st')"
    by (simp add: create_submit_simps demo_server_def)
  let ?ld = "local_loader (a_files st')"
  have m: "machine_ok (e_goos job_env) (l_machine ?ld)" "daemonOnce (l_machine ?ld) \<or> \<not> null_daemon_file (w_fs (l_world ?ld))"
    using initial_machine_ok demo_daemon by (simp_all add: local_loader_def demo_loader_def)
  obtain p m1 where p: "GetProfileForMachine (e_goos job_env) (e_getenv job_env) (w_fs (l_world ?ld)) (l_machine ?ld) = Inr (Some p, m1)"
    "machine_ok (e_goos job_env) m1" "profile_table m1 (profile_key (e_goos job_env) (currentEnvironment m1)) = Some p"
    by (rule GetProfileForMachine_some [OF m])
  have "p_ExecutionMemory p = Gigabyte" using p(2,3) table_memory by (auto simp: machine_ok_def)
  let ?rq = "sandbox_request (e_tempdir job_env) demo_message c p (fst (if_GetFile (e_files job_env) ''r1'' (lc_SourceFile c) (l_files ?ld)))"
  have msg: "cm_ID demo_message = ''r1''" "cm_Language demo_message = ''python''" by (simp_all add: demo_message_def)
  have h: "\<exists>ld'. handler_begin job_env (json_Marshal (encode_message demo_message)) ?ld = Inr (HAcquire demo_message ?rq, ld')"
    using unmarshal_message [OF demo_message_ok(1), of zero_message] c(1) p(1) msg by (simp add: handler_begin_def)
  have "job_accepted job_env demo_server local_cfg ''r1'' demo_direct c demo_api ?ld ?rq"
    using c' st' h local_write_succeeds [of "lc_SourceFile c" "cc_Source demo_direct"] Compilers_ok [OF c(1)]
    by (auto simp: job_accepted_def demo_compile_message local_loader_def demo_api_def demo_fs_def readable_def compiler_ok_def)
  with that c(2-5) \<open>p_ExecutionMemory p = Gigabyte\<close> show ?thesis by (simp add: sandbox_request_def)
qed

text \<open>Reporting works with the local store and the table as database.\<close>

lemma job_reports:
  assumes d: "getContainer cid (l_manager ld) = Some d" "c_complete d = ClosedChan" "GetResponse d = Inr (rs, d')"
    and l: "limiter (l_manager ld) = [x]" "l_files ld = demo_fs" "l_db ld = [''r1'' \<mapsto> new_execution ''r1'' demo_direct]"
    and rq: "rq_ID rq = ''r1''" "lc_OutputFile (rq_Compiler rq) = ''output''" "lc_OutputErrFile (rq_Compiler rq) = ''output_error''"
      "lc_Interpreter (rq_Compiler rq)"
  obtains ld' where "job_reported job_env local_cfg local_sched demo_message rq cid rs ld ld'"
proof -
  have up: "upload_files rq rs = [\<lparr>f_ID = ''r1'', f_Name = ''output'', f_Data = strings_Join (elems (rs_Output rs)) newline\<rparr>,
      \<lparr>f_ID = ''r1'', f_Name = ''output_error'', f_Data = strings_Join (elems (rs_OutputError rs)) newline\<rparr>]"
    using rq by (simp add: upload_files_def)
  obtain ts f' where w: "LocalFiles_WriteFiles local_cfg local_sched (upload_files rq rs) demo_fs = (ts, [], f')"
    "finished (ts, [] :: error list, f')" "readable f'" unfolding up by (rule local_uploads)
  have env: "e_files job_env = local_iface local_cfg local_sched" "e_repo job_env = table_gorm" "cm_ID demo_message = ''r1''"
    by (simp_all add: job_env_def local_env_def demo_message_def)
  obtain ld' where s: "handler_steps job_env 5 (HWait demo_message rq cid) ld = Some (Inr (HDone, ld'))"
    "l_files ld' = snd (if_WriteFiles (e_files job_env) (upload_files rq rs) (l_files ld))"
    "l_db ld' = snd (UpdateExecution (e_repo job_env) (cm_ID demo_message) (execution_columns rs) (l_db ld))"
    using handler_finishes [OF d l(1)] by blast
  have "l_files ld' = f'" using s(2) l(2) w(1) by (simp add: env local_iface_def)
  moreover have "snd (GetExecution table_gorm ''r1'' (l_db ld')) = None" "snd (fst (UpdateExecution table_gorm ''r1'' (execution_columns rs) (l_db ld))) = None"
    using s(3) by (simp_all add: env l(3) table_gorm_def GetExecution_def UpdateExecution_def update_row_def)
  ultimately have "job_reported job_env local_cfg local_sched demo_message rq cid rs ld ld'"
    using s(1) w l(2) by (simp add: job_reported_def env)
  then show ?thesis by (rule that)
qed

text \<open>The container of the job and what the runner in it does.\<close>

lemma job_runs:
  assumes rq: "request_ok rq es" "Compilers_lookup k = Some (rq_Compiler rq)" "parameters_ok (runner_parameters rq)"
    and py: "lc_compileSteps (rq_Compiler rq) = None" "p_ExecutionMemory (rq_ExecutionProfile rq) = Gigabyte"
  obtains d w' resp g' where "Run accepting_client (NewSandboxContainer rq) demo_world = Inr (Inr ''0123456789abcdef'', d, w')"
    "ran_inside printing_runner es rq (w_fs w') (guest_of es (w_fs w')) resp g'" "er_Status resp = Finished" "er_Output resp = Some [''1'']"
proof -
  obtain d w' where run: "Run accepting_client (NewSandboxContainer rq) demo_world = Inr (Inr ''0123456789abcdef'', d, w')"
    using accepting_Run [OF rq(1), of demo_world thesis] by (simp add: demo_world_def)
  have st: "prepare rq (w_fs demo_world) = (None, w_fs w')" using Run_live(2) [OF rq(1) run] by (simp add: started_def)
  let ?g = "guest_of es (w_fs w')"
  obtain resp g1 g' where r: "runner_response printing_runner (runner_parameters rq) ?g = Inr (resp, g1)" "runner_main printing_runner ?g = Exited g'"
    using runner_answers [OF rq st guest_host(1,3,4), of thesis] by blast
  note resp = printing_response [OF r(1) guest_host(3) rq(2) py]
  from that [OF run _ resp(2,3), of g'] r resp(1) guest_host show ?thesis by (auto simp: ran_inside_def)
qed

subsection \<open>Property\<close>



end
