(* ===== verification/Memory_Watch.thy ===== *)
theory Memory_Watch
  imports Runner
begin

text \<open>
  The memory limit of a run, from the kernel's files to the verdict: the goroutine of \<open>StreamPid\<close>
  (\<open>internal/pid/pid.go\<close>) reads the resident pages of the process again and again, and \<open>runProject\<close>
  (\<open>cmd/services/cars-runner/main.go\<close>) compares what it is sent with the limit.
\<close>

subsection \<open>What the kernel shows\<close>

text \<open>A stat line of a program without a space in its name, with a given number of resident pages.\<close>

definition shows_pages :: "int \<Rightarrow> int \<Rightarrow> fs \<Rightarrow> bool" where
  "shows_pages pid pages f \<longleftrightarrow>
     \<not> fault f OpRead [''proc'', strconv_Itoa pid, ''stat'']
     \<and> (\<exists>comm rest. files f [''proc'', strconv_Itoa pid, ''stat''] = Some (stat_line pid comm rest)
          \<and> CHR '' '' \<notin> set comm \<and> list_all (\<lambda>w. CHR '' '' \<notin> set w) rest \<and> length rest \<ge> 50 \<and> rest ! 21 = strconv_Itoa pages)"

lemma GetStat_pages:
  assumes "shows_pages pid pages f" and "in_int64 pages" and "in_int64 (pages * pv_PageSize v)"
  shows "GetStat ''linux'' v pid f = Inr (Inr \<lparr>si_CPU = 0, si_Memory = pages * pv_PageSize v\<rparr>)"
proof -
  obtain comm rest where f: "files f [''proc'', strconv_Itoa pid, ''stat''] = Some (stat_line pid comm rest)"
    and comm: "CHR '' '' \<notin> set comm" and rest: "list_all (\<lambda>w. CHR '' '' \<notin> set w) rest" "length rest \<ge> 50" "rest ! 21 = strconv_Itoa pages"
    and ok: "\<not> fault f OpRead [''proc'', strconv_Itoa pid, ''stat'']"
    using assms(1) by (auto simp: shows_pages_def)
  have one: "length (strings_Split comm '' '') = 1" using split_nosep [OF comm] by (simp add: strings_Split_def)
  then have "length (strings_Split comm '' '') \<le> 22" by simp
  from GetStat_field [OF ok f rest(1,2) this, of v] show ?thesis
    using rest(3) one assms(2,3) by (simp add: parseInt64_def ParseInt_Itoa)
qed

text \<open>
  The iterations of \<open>StreamPid\<close> while the process runs, and the last one, which finds the closed
  channel; by then the process may be gone.
\<close>

definition watched :: "pid_vars \<Rightarrow> int \<Rightarrow> (fs \<times> bool) list \<Rightarrow> int list \<Rightarrow> bool" where
  "watched v pid its pages \<longleftrightarrow>
     list_all2 (\<lambda>(f, takes_done) p. \<not> takes_done \<and> shows_pages pid p f \<and> in_int64 p \<and> in_int64 (p * pv_PageSize v)) its pages"

lemma StreamPid_samples:
  assumes "watched v pid its pages" and "\<forall>p. GetStat ''linux'' v pid f \<noteq> Inl p"
  shows "StreamPid ''linux'' v pid (its @ [(f, True)]) =
           Inr (map (\<lambda>p. \<lparr>si_CPU = 0, si_Memory = p * pv_PageSize v\<rparr>) pages, True)"
  using assms(1) unfolding watched_def
proof (induction its pages rule: list_all2_induct)
  case Nil
  show ?case using assms(2) by (cases "GetStat ''linux'' v pid f") (auto split: sum.splits)
next
  case (Cons it its p pages)
  obtain g where it: "it = (g, False)" "shows_pages pid p g" "in_int64 p" "in_int64 (p * pv_PageSize v)"
    using Cons.hyps(1) by (cases it) auto
  from GetStat_pages [OF it(2-4)] Cons.IH show ?case by (simp add: it(1))
qed

lemma peak_gt_iff: "limit < peak cur ss \<longleftrightarrow> limit < cur \<or> (\<exists>s\<in>set ss. limit < si_Memory s)"
  by (induction ss arbitrary: cur) (auto simp: less_max_iff_disj)

subsection \<open>Property\<close>

text \<open>
  C23. The memory limit of a run is enforced on what the kernel shows: when the stream of samples of a
  started program is read from well-formed stat lines, it delivers the resident pages of each
  read times the page size in order and ends; and the run is reported as over its memory limit
  exactly when one of these values or the peak the system reports at the end is above the limit
  (a limit below one byte is always exceeded).
\<close>

theorem memory_limit_enforced:
  assumes "watched v pid its pages" and "\<forall>p. GetStat ''linux'' v pid f0 \<noteq> Inl p"
    and "StreamPid ''linux'' v pid (its @ [(f0, True)]) = Inr (rf_samples r, ended)"
    and "rf_start r = None" and "run_report env params r f = (x, err)"
  shows "ended \<and> map si_Memory (rf_samples r) = map (\<lambda>p. p * pv_PageSize v) pages
         \<and> (err = Some MemoryLimitExceeded \<longleftrightarrow>
              (\<exists>p\<in>set pages. ep_ExecutionMemory params < p * pv_PageSize v)
              \<or> ep_ExecutionMemory params < final_memory r \<or> ep_ExecutionMemory params < 1)
         \<and> (err = Some MemoryLimitExceeded \<longrightarrow> determineExecutionError err = MemoryConstraintExceeded)"
proof -
  have s: "rf_samples r = map (\<lambda>p. \<lparr>si_CPU = 0, si_Memory = p * pv_PageSize v\<rparr>) pages" "ended"
    using StreamPid_samples [OF assms(1,2)] assms(3) by simp_all
  have "err = Some MemoryLimitExceeded \<longleftrightarrow> ep_ExecutionMemory params < peak_memory r"
    using run_report_memory [OF assms(4,5)] by (cases "peak_memory r \<le> ep_ExecutionMemory params") auto
  also have "\<dots> \<longleftrightarrow> (\<exists>p\<in>set pages. ep_ExecutionMemory params < p * pv_PageSize v)
      \<or> ep_ExecutionMemory params < final_memory r \<or> ep_ExecutionMemory params < 1"
    by (auto simp: peak_memory_def less_max_iff_disj peak_gt_iff s(1) Byte_def)
  finally show ?thesis using s by (auto simp: determineExecutionError_def)
qed

text \<open>A process with 25 resident pages, read once before it ends.\<close>

definition demo_proc :: fs where
  "demo_proc = \<lparr>files = [[''proc'', strconv_Itoa 7, ''stat''] \<mapsto> stat_line 7 ''(sh)'' (replicate 21 ''0'' @ ''25'' # replicate 28 ''0'')],
     dirs = {}, fault = (\<lambda>op k. False)\<rparr>"

lemma demo_proc_watched: "watched default_vars 7 [(demo_proc, False)] [25]"
proof -
  have "strconv_Itoa 25 = ''25''" by code_simp
  then have "shows_pages 7 25 demo_proc"
    unfolding shows_pages_def
    by (intro conjI exI [of _ "''(sh)''"] exI [of _ "replicate 21 ''0'' @ ''25'' # replicate 28 ''0''"])
      (simp_all add: demo_proc_def nth_append list_all_iff)
  then show ?thesis by (simp add: watched_def default_vars_def in_int64_def)
qed

theorem memory_limit_enforced_witness:
  "\<exists>samples. StreamPid ''linux'' default_vars 7 [(demo_proc, False), (demo_proc, True)] = Inr (samples, True)
     \<and> snd (run_report demo_runner demo_params (demo_run\<lparr>rf_samples := samples\<rparr>) demo_proc) = Some MemoryLimitExceeded"
proof -
  have one: "GetStat ''linux'' default_vars 7 demo_proc = Inr (Inr \<lparr>si_CPU = 0, si_Memory = 25 * pv_PageSize default_vars\<rparr>)"
    using demo_proc_watched by (intro GetStat_pages) (simp_all add: watched_def)
  let ?samples = "[\<lparr>si_CPU = 0, si_Memory = 25 * pv_PageSize default_vars\<rparr>]" and ?its = "[(demo_proc, False)]"
  have stream: "StreamPid ''linux'' default_vars 7 (?its @ [(demo_proc, True)]) = Inr (?samples, True)" by (simp add: one)
  obtain x err where x: "run_report demo_runner demo_params (demo_run\<lparr>rf_samples := ?samples\<rparr>) demo_proc = (x, err)" by fastforce
  have start: "rf_start (demo_run\<lparr>rf_samples := ?samples\<rparr>) = None"
    "StreamPid ''linux'' default_vars 7 (?its @ [(demo_proc, True)]) = Inr (rf_samples (demo_run\<lparr>rf_samples := ?samples\<rparr>), True)"
    using stream by (simp_all add: demo_run_def)
  from memory_limit_enforced [OF demo_proc_watched _ start(2,1) x] one
  have "err = Some MemoryLimitExceeded" by (simp add: demo_params_def default_vars_def)
  with stream x show ?thesis by (intro exI [of _ ?samples]) simp
qed

end
