(* ===== verification/Queue_Transport.thy ===== *)
theory Queue_Transport
  imports Queue_Handler
begin

text \<open>
  \<open>internal/queue/queue.go\<close> (the choice of the queue), \<open>nsq.go\<close> and \<open>sqs.go\<close>: the two transports between the
  API and the loader. The NSQ and SQS clients are third-party code: what they answer is a parameter.
  A queue is a Go value with value receivers, which \<open>Stop\<close> of the SQS queue depends on. The pointers
  to the manager, the repository and the file handler in the configurations are the environment of
  the handler and are left out here.
\<close>

subsection \<open>Configurations\<close>

record NsqConfig =
  nsq_Topic :: string
  nsq_Channel :: string
  NsqLookupAddress :: string
  NsqLookupPort :: int
  nsq_MaxInFlight :: int
  nsq_Consumer :: bool
  nsq_Producer :: bool

record SqsConfig =
  QueueURL :: string
  sqs_WaitTimeSeconds :: int
  sqs_MaxInFlight :: int
  sqs_Consumer :: bool

record queue_Config =
  qc_Nsq :: "NsqConfig option"
  qc_Sqs :: "SqsConfig option"
  qc_ForceLocalMode :: bool

subsection \<open>NSQ\<close>

text \<open>The answers of the NSQ client to the calls that open connections, and its \<open>Publish\<close>.\<close>

record 'q nsq_client =
  nsq_NewConsumer :: "string \<Rightarrow> string \<Rightarrow> error option"
  nsq_ConnectToNSQD :: "string \<Rightarrow> error option"
  nsq_NewProducer :: "string \<Rightarrow> error option"
  nsq_Publish :: "string \<Rightarrow> string \<Rightarrow> bytes \<Rightarrow> 'q \<Rightarrow> error option \<times> 'q"

text \<open>A connected consumer: what it was opened with and how many handlers it runs at once.\<close>

record nsq_consumer =
  nc_topic :: string
  nc_channel :: string
  nc_MaxInFlight :: int
  nc_handlers :: int
  nc_address :: string

record NsqQueue =
  nq_config :: NsqConfig
  nq_consumer :: "nsq_consumer option"
  nq_producer :: "string option"

definition nsq_address :: "NsqConfig \<Rightarrow> string" where
  "nsq_address params = NsqLookupAddress params @ '':'' @ strconv_Itoa (NsqLookupPort params)"

definition NewNsqProducer :: "'q nsq_client \<Rightarrow> NsqConfig \<Rightarrow> error + string" where
  "NewNsqProducer client params =
     (case nsq_NewProducer client (nsq_address params) of Some err \<Rightarrow> Inl err | None \<Rightarrow> Inr (nsq_address params))"

definition NewNsqConsumer :: "'q nsq_client \<Rightarrow> NsqConfig \<Rightarrow> error + nsq_consumer" where
  "NewNsqConsumer client params =
     (case nsq_NewConsumer client (nsq_Topic params) (nsq_Channel params) of
        Some err \<Rightarrow> Inl (Wrap err ''failed to create NSQ consumer'')
      | None \<Rightarrow>
          (case nsq_ConnectToNSQD client (nsq_address params) of
             Some err \<Rightarrow> Inl (Wrap err ''failed to connect to NSQ lookup'')
           | None \<Rightarrow>
               Inr \<lparr>nc_topic = nsq_Topic params, nc_channel = nsq_Channel params, nc_MaxInFlight = nsq_MaxInFlight params,
                    nc_handlers = nsq_MaxInFlight params, nc_address = nsq_address params\<rparr>))"

definition newNsqQueue :: "'q nsq_client \<Rightarrow> NsqConfig option \<Rightarrow> panic + (NsqQueue \<times> error option)" where
  "newNsqQueue client config =
     (case config of
        None \<Rightarrow> Inl NilDereference
      | Some cfg \<Rightarrow>
          let queue = \<lparr>nq_config = cfg, nq_consumer = None, nq_producer = None\<rparr>;
              opened = (if nsq_Consumer cfg
                        then map_sum id (\<lambda>c. queue\<lparr>nq_consumer := Some c\<rparr>) (NewNsqConsumer client cfg) else Inr queue)
          in Inr (case opened of
                    Inl err \<Rightarrow> (queue, Some err)
                  | Inr queue \<Rightarrow>
                      if nsq_Producer cfg
                      then (case NewNsqProducer client cfg of
                              Inl err \<Rightarrow> (queue, Some err)
                            | Inr p \<Rightarrow> (queue\<lparr>nq_producer := Some p\<rparr>, None))
                      else (queue, None)))"

definition NsqQueue_SubmitMessageToQueue :: "'q nsq_client \<Rightarrow> NsqQueue \<Rightarrow> bytes \<Rightarrow> 'q \<Rightarrow> panic + (error option \<times> 'q)" where
  "NsqQueue_SubmitMessageToQueue client n data q =
     (case nq_producer n of
        None \<Rightarrow> Inl NilDereference
      | Some address \<Rightarrow> Inr (nsq_Publish client address (nsq_Topic (nq_config n)) data q))"

definition NsqQueue_Stop :: "NsqQueue \<Rightarrow> panic + unit" where
  "NsqQueue_Stop n = (case nq_consumer n of None \<Rightarrow> Inl NilDereference | Some c \<Rightarrow> Inr ())"

text \<open>
  \<open>HandleMessage\<close>: an empty body is taken as handled at once; every other body starts a handler, and
  what the handler returns is returned. NSQ delivers a message again when the result is an error.
\<close>

definition HandleMessage :: "bytes \<Rightarrow> handler option" where
  "HandleMessage body = (if length body = 0 then None else Some (HStart body))"

definition nsq_redelivers :: "handler option \<Rightarrow> bool" where
  "nsq_redelivers h \<longleftrightarrow> (case h of None \<Rightarrow> False | Some h \<Rightarrow> handler_result h \<noteq> None)"

subsection \<open>SQS\<close>

record sqs_message =
  sm_Body :: string
  sm_ReceiptHandle :: string
  sm_MessageId :: string

record SqsQueue =
  sq_config :: SqsConfig
  sq_client :: bool
  sq_stopFlag :: bool

text \<open>
  \<open>newSqsQueue\<close>, given the error of opening the session; the second component says whether a polling
  goroutine was started on a copy of the queue.
\<close>

definition newSqsQueue :: "error option \<Rightarrow> SqsConfig \<Rightarrow> (SqsQueue \<times> bool) \<times> error option" where
  "newSqsQueue session_err config =
     (let queue = \<lparr>sq_config = config, sq_client = False, sq_stopFlag = False\<rparr>
      in case session_err of
           Some err \<Rightarrow> ((queue, False), Some err)
         | None \<Rightarrow> ((queue\<lparr>sq_client := True\<rparr>, sqs_Consumer config), None))"

definition setStopFlag :: "SqsQueue \<Rightarrow> SqsQueue" where
  "setStopFlag s = s\<lparr>sq_stopFlag := True\<rparr>"

text \<open>
  \<open>Stop\<close> has a value receiver: the flag is set in the copy of the call, and the queue of the caller is
  what it was. The result is the caller's queue after the call.
\<close>

definition SqsQueue_Stop :: "SqsQueue \<Rightarrow> SqsQueue" where
  "SqsQueue_Stop s = (let receiver = setStopFlag s in s)"

definition SqsQueue_SubmitMessageToQueue ::
  "(string \<Rightarrow> bytes \<Rightarrow> 'q \<Rightarrow> error option \<times> 'q) \<Rightarrow> SqsQueue \<Rightarrow> bytes \<Rightarrow> 'q \<Rightarrow> error option \<times> 'q" where
  "SqsQueue_SubmitMessageToQueue send s data q = send (QueueURL (sq_config s)) data q"

text \<open>
  The goroutine of one message: handle its body, then, deferred, delete it, whatever the handler
  returned. The state is the sequence of these calls; an error of \<open>DeleteMessage\<close> is only logged.
\<close>

datatype sqs_call = Handled sqs_message | Deleted sqs_message

datatype sqs_pc = AtHandle | AtDelete

fun sqs_body :: "sqs_message \<Rightarrow> sqs_pc \<Rightarrow> sqs_call list \<Rightarrow> (sqs_pc + error option) \<times> sqs_call list" where
  "sqs_body m AtHandle calls = (Inl AtDelete, calls @ [Handled m])"
| "sqs_body m AtDelete calls = (Inr None, calls @ [Deleted m])"

definition sqs_round :: "nat list \<Rightarrow> sqs_message list \<Rightarrow> sqs_call list \<Rightarrow> (sqs_message, sqs_pc, sqs_call list) group" where
  "sqs_round sched messages calls =
     group_run sqs_body sched (map (\<lambda>m. (m, Runs AtHandle)) (filter (\<lambda>m. sm_Body m \<noteq> []) messages), [], calls)"

text \<open>
  The polling loop for a finite number of rounds, each with the messages received, the error of
  receiving, which is only logged, and the schedule of its goroutines. The result is the sequence of
  calls and whether the loop has ended.
\<close>

fun startPollingMessages ::
  "SqsQueue \<Rightarrow> (sqs_message list \<times> error option \<times> nat list) list \<Rightarrow> sqs_call list \<Rightarrow> sqs_call list \<times> bool" where
  "startPollingMessages s [] calls = (calls, sq_stopFlag s)"
| "startPollingMessages s ((messages, err, sched) # rounds) calls =
     (if sq_stopFlag s then (calls, True)
      else startPollingMessages s rounds (snd (snd (sqs_round sched messages calls))))"

subsection \<open>The choice\<close>

datatype queue = NsqChosen NsqQueue | SqsChosen SqsQueue bool

definition NewQueue :: "'q nsq_client \<Rightarrow> error option \<Rightarrow> queue_Config \<Rightarrow> panic + (queue \<times> error option)" where
  "NewQueue client session_err config =
     (if qc_ForceLocalMode config \<or> qc_Sqs config = None \<or> QueueURL (the (qc_Sqs config)) = []
      then map_sum id (apfst NsqChosen) (newNsqQueue client (qc_Nsq config))
      else case newSqsQueue session_err (the (qc_Sqs config)) of ((s, polling), err) \<Rightarrow> Inr (SqsChosen s polling, err))"

subsection \<open>The interface of a queue\<close>

text \<open>
  What a producer relies on, for both queues: submitting does not panic, a message that is submitted
  without an error is the last one waiting, and one that is refused is not waiting.
\<close>

locale message_queue =
  fixes submit :: "bytes \<Rightarrow> 'q \<Rightarrow> panic + (error option \<times> 'q)" and waiting_messages :: "'q \<Rightarrow> bytes list" and ready :: "'q \<Rightarrow> bool"
  assumes submit_total: "ready q \<Longrightarrow> \<exists>r q'. submit data q = Inr (r, q') \<and> ready q'"
    and submit_accepted: "ready q \<Longrightarrow> submit data q = Inr (None, q') \<Longrightarrow> waiting_messages q' = waiting_messages q @ [data]"
    and submit_refused: "ready q \<Longrightarrow> submit data q = Inr (Some e, q') \<Longrightarrow> waiting_messages q' = waiting_messages q"
begin

fun submit_all :: "bytes list \<Rightarrow> 'q \<Rightarrow> panic + (error option list \<times> 'q)" where
  "submit_all [] q = Inr ([], q)"
| "submit_all (d # ds) q =
     (case submit d q of
        Inl p \<Rightarrow> Inl p
      | Inr (r, q1) \<Rightarrow> (case submit_all ds q1 of Inl p \<Rightarrow> Inl p | Inr (rs, q2) \<Rightarrow> Inr (r # rs, q2)))"

text \<open>A producer's messages wait in the order of submission, exactly those that were not refused.\<close>

lemma submit_all_waiting:
  "ready q \<Longrightarrow> \<exists>rs q'. submit_all ds q = Inr (rs, q') \<and> length rs = length ds
     \<and> waiting_messages q' = waiting_messages q @ map fst (filter (\<lambda>(d, r). r = None) (zip ds rs))"
proof (induction ds arbitrary: q)
  case (Cons d ds)
  obtain r q1 where d: "submit d q = Inr (r, q1)" "ready q1" using submit_total [OF Cons.prems] by blast
  obtain rs q2 where ds: "submit_all ds q1 = Inr (rs, q2)" "length rs = length ds"
    "waiting_messages q2 = waiting_messages q1 @ map fst (filter (\<lambda>(d, r). r = None) (zip ds rs))"
    using Cons.IH [OF d(2)] by blast
  with d(1) submit_accepted [OF Cons.prems, of d q1] submit_refused [OF Cons.prems, of d _ q1] show ?case
    by (cases r) auto
qed simp

end

text \<open>What the two services document of publishing: the message is added, or an error is reported and it is not.\<close>

definition nsq_laws :: "'q nsq_client \<Rightarrow> string \<Rightarrow> ('q \<Rightarrow> bytes list) \<Rightarrow> bool" where
  "nsq_laws client topic msgs \<longleftrightarrow>
     (\<forall>address data q. case nsq_Publish client address topic data q of
        (None, q') \<Rightarrow> msgs q' = msgs q @ [data] | (Some e, q') \<Rightarrow> msgs q' = msgs q)"

definition sqs_laws :: "(string \<Rightarrow> bytes \<Rightarrow> 'q \<Rightarrow> error option \<times> 'q) \<Rightarrow> string \<Rightarrow> ('q \<Rightarrow> bytes list) \<Rightarrow> bool" where
  "sqs_laws send url msgs \<longleftrightarrow>
     (\<forall>data q. case send url data q of (None, q') \<Rightarrow> msgs q' = msgs q @ [data] | (Some e, q') \<Rightarrow> msgs q' = msgs q)"

text \<open>A list of messages obeys the laws.\<close>

lemma sqs_laws_list: "sqs_laws (\<lambda>url data q. (None, q @ [data])) url (\<lambda>q. q)"
  by (simp add: sqs_laws_def)

interpretation nsq_messages: message_queue "NsqQueue_SubmitMessageToQueue client n" msgs
  "\<lambda>q. nq_producer n \<noteq> None \<and> nsq_laws client (nsq_Topic (nq_config n)) msgs" for client n msgs
proof
  fix q data
  assume r: "nq_producer n \<noteq> None \<and> nsq_laws client (nsq_Topic (nq_config n)) msgs"
  then obtain address where a: "nq_producer n = Some address" by auto
  have sub: "NsqQueue_SubmitMessageToQueue client n data q = Inr (nsq_Publish client address (nsq_Topic (nq_config n)) data q)"
    by (simp add: NsqQueue_SubmitMessageToQueue_def a)
  have law: "case nsq_Publish client address (nsq_Topic (nq_config n)) data q of
      (None, q') \<Rightarrow> msgs q' = msgs q @ [data] | (Some e, q') \<Rightarrow> msgs q' = msgs q"
    using r by (simp add: nsq_laws_def)
  show "\<exists>x q'. NsqQueue_SubmitMessageToQueue client n data q = Inr (x, q') \<and> nq_producer n \<noteq> None \<and> nsq_laws client (nsq_Topic (nq_config n)) msgs"
    using sub r by (metis prod.exhaust)
  show "NsqQueue_SubmitMessageToQueue client n data q = Inr (None, q') \<Longrightarrow> msgs q' = msgs q @ [data]" for q'
    using law sub by simp
  show "NsqQueue_SubmitMessageToQueue client n data q = Inr (Some e, q') \<Longrightarrow> msgs q' = msgs q" for e q'
    using law sub by simp
qed

interpretation sqs_messages: message_queue "\<lambda>data q. Inr (SqsQueue_SubmitMessageToQueue send s data q)" msgs
  "\<lambda>q. sqs_laws send (QueueURL (sq_config s)) msgs" for send s msgs
proof
  fix q data
  assume r: "sqs_laws send (QueueURL (sq_config s)) msgs"
  have law: "case send (QueueURL (sq_config s)) data q of
      (None, q') \<Rightarrow> msgs q' = msgs q @ [data] | (Some e, q') \<Rightarrow> msgs q' = msgs q"
    using r by (simp add: sqs_laws_def)
  show "\<exists>x q'. Inr (SqsQueue_SubmitMessageToQueue send s data q) = Inr (x, q') \<and> sqs_laws send (QueueURL (sq_config s)) msgs"
    using r by (metis prod.exhaust)
  show "Inr (SqsQueue_SubmitMessageToQueue send s data q) = Inr (None, q') \<Longrightarrow> msgs q' = msgs q @ [data]" for q'
    using law by (simp add: SqsQueue_SubmitMessageToQueue_def)
  show "Inr (SqsQueue_SubmitMessageToQueue send s data q) = Inr (Some e, q') \<Longrightarrow> msgs q' = msgs q" for e q'
    using law by (simp add: SqsQueue_SubmitMessageToQueue_def)
qed

subsection \<open>One round of polling\<close>

text \<open>What a goroutine has done so far, and the calls of a whole group.\<close>

fun sqs_done :: "sqs_message \<times> sqs_pc goroutine \<Rightarrow> sqs_call list" where
  "sqs_done (m, Runs AtHandle) = []"
| "sqs_done (m, Runs AtDelete) = [Handled m]"
| "sqs_done (m, Returned r) = [Handled m, Deleted m]"
| "sqs_done (m, Done r) = [Handled m, Deleted m]"

definition handled_first :: "sqs_call list \<Rightarrow> bool" where
  "handled_first calls \<longleftrightarrow> (\<forall>p m. prefix p calls \<longrightarrow> count_list p (Deleted m) \<le> count_list p (Handled m))"

definition round_inv :: "(sqs_message, sqs_pc, sqs_call list) group \<Rightarrow> bool" where
  "round_inv g \<longleftrightarrow> mset (snd (snd g)) = mset (concat (map sqs_done (fst g))) \<and> handled_first (snd (snd g))"

lemma handled_first_snoc:
  "handled_first (calls @ [x]) \<longleftrightarrow>
     handled_first calls \<and> (\<forall>m. count_list (calls @ [x]) (Deleted m) \<le> count_list (calls @ [x]) (Handled m))"
  unfolding handled_first_def prefix_snoc by blast

lemma sqs_done_counts:
  "count (mset (concat (map sqs_done ts))) (Deleted m) \<le> count (mset (concat (map sqs_done ts))) (Handled m)"
proof (induction ts)
  case (Cons t ts)
  then show ?case by (cases t rule: sqs_done.cases) auto
qed simp

lemma count_list_mset: "count_list xs x = count (mset xs) x"
  by (induction xs) auto

lemma round_step:
  assumes "round_inv g"
  shows "round_inv (group_step sqs_body i g)"
proof -
  obtain ts queue calls where g: "g = (ts, queue, calls)" by (rule prod_cases3)
  show ?thesis
  proof (cases "i < length ts")
    case True
    obtain m t where t: "ts ! i = (m, t)" by fastforce
    have upd: "mset (concat (map sqs_done (ts[i := x]))) + mset (sqs_done (ts ! i)) =
        mset (concat (map sqs_done ts)) + mset (sqs_done x)" for x
      using mset_concat_update [OF True, of sqs_done x] by simp
    show ?thesis
    proof (cases "(m, t)" rule: sqs_done.cases)
      case (1 m')
      with upd [of "(m, Runs AtDelete)"] assms t True sqs_done_counts [of "ts[i := (m, Runs AtDelete)]"] show ?thesis
        by (auto simp: round_inv_def g group_step_def handled_first_snoc count_list_mset)
    next
      case (2 m')
      with upd [of "(m, Returned None)"] assms t True sqs_done_counts [of "ts[i := (m, Returned None)]"] show ?thesis
        by (auto simp: round_inv_def g group_step_def handled_first_snoc count_list_mset)
    next
      case (3 m' r)
      with upd [of "(m, Done r)"] assms t True show ?thesis by (auto simp: round_inv_def g group_step_def)
    next
      case (4 m' r)
      with assms t True show ?thesis by (auto simp: round_inv_def g group_step_def)
    qed
  qed (use assms in \<open>simp add: g group_step_def\<close>)
qed

lemma round_run: "round_inv g \<Longrightarrow> round_inv (group_run sqs_body sched g)"
  by (induction sched arbitrary: g) (simp_all add: round_step)

interpretation sqs_ranked: ranked_body sqs_body "\<lambda>pc. if pc = AtHandle then 1 else 0"
proof
  fix m pc calls pc' calls'
  assume "sqs_body m pc calls = (Inl pc', calls')"
  then show "(if pc' = AtHandle then 1 else 0) < (if pc = AtHandle then 1 else (0 :: nat))" by (cases pc) auto
qed

lemma finished_round:
  assumes "finished (ts, errs, calls)"
  shows "concat (map sqs_done ts) = concat (map (\<lambda>m. [Handled m, Deleted m]) (map fst ts))"
proof -
  have "sqs_done t = [Handled (fst t), Deleted (fst t)]" if "t \<in> set ts" for t
    using assms that by (cases t rule: sqs_done.cases) (auto simp: finished_def is_done_def list_all_iff)
  then show ?thesis by (simp add: comp_def cong: map_cong)
qed

lemma polling_goes_on:
  "\<not> sq_stopFlag s \<Longrightarrow> startPollingMessages s rounds calls =
     (fold (\<lambda>(messages, err, sched) calls. snd (snd (sqs_round sched messages calls))) rounds calls, False)"
  by (induction s rounds calls rule: startPollingMessages.induct) auto

subsection \<open>Properties\<close>





end
