(* ===== verification/Deployment.thy ===== *)
theory Deployment
  imports Consumer_Api Queue_Transport
begin

text \<open>
  How the programs are put together: the command line (\<open>internal/parser/arguments.go\<close>), the start up
  of the API and of the loader (\<open>cmd/services/cars-api/main.go\<close>, \<open>cmd/services/cars-loader/main.go\<close>), the
  tool that builds the sandbox images (\<open>cmd/tools/container-builder/main.go\<close>) and the translation of
  validator errors (\<open>internal/validation/validation.go\<close>). What third-party code answers at start up is
  the record \<open>startup\<close>.
\<close>

subsection \<open>Arguments\<close>

record Arguments =
  DatabaseConn :: string
  MaxConcurrentContainers :: int
  WaitTimeSeconds :: int
  SqsQueueUrl :: string
  S3BucketName :: string
  NsqAddress :: string
  NsqChannel :: string
  NsqPort :: int
  NsqTopic :: string

definition zero_arguments :: Arguments where
  "zero_arguments =
     \<lparr>DatabaseConn = [], MaxConcurrentContainers = 0, WaitTimeSeconds = 0, SqsQueueUrl = [], S3BucketName = [],
      NsqAddress = [], NsqChannel = [], NsqPort = 0, NsqTopic = []\<rparr>"

datatype flag_value = FlagString string | FlagInt int

text \<open>
  The variables the flags are bound to, in the order they are registered, with their defaults. A
  flag library assigns the default when a flag is registered and the given value when it is parsed;
  a flag it does not know, or a value of the wrong type, ends the program.
\<close>

datatype flag_var = StringVar "string \<Rightarrow> Arguments \<Rightarrow> Arguments" string | IntVar "int \<Rightarrow> Arguments \<Rightarrow> Arguments" int

definition flags :: "(string \<times> flag_var) list" where
  "flags =
     [(''database-connection-string'', StringVar (\<lambda>v a. a\<lparr>DatabaseConn := v\<rparr>)
         ''host=database user=root password=root port=54320 dbname=compile TimeZone=UTC''),
      (''max-concurrent-containers'', IntVar (\<lambda>v a. a\<lparr>MaxConcurrentContainers := v\<rparr>) 5),
      (''wait-time-seconds'', IntVar (\<lambda>v a. a\<lparr>MaxConcurrentContainers := v\<rparr>) 10),
      (''sqs-queue'', StringVar (\<lambda>v a. a\<lparr>SqsQueueUrl := v\<rparr>) []),
      (''s3-bucket'', StringVar (\<lambda>v a. a\<lparr>S3BucketName := v\<rparr>) []),
      (''nsq-address'', StringVar (\<lambda>v a. a\<lparr>NsqAddress := v\<rparr>) ''nsqd''),
      (''nsq-channel'', StringVar (\<lambda>v a. a\<lparr>NsqChannel := v\<rparr>) ''main''),
      (''nsq-port'', IntVar (\<lambda>v a. a\<lparr>NsqPort := v\<rparr>) 4150),
      (''nsq-topic'', StringVar (\<lambda>v a. a\<lparr>NsqTopic := v\<rparr>) ''containers'')]"

fun register :: "flag_var \<Rightarrow> Arguments \<Rightarrow> Arguments" where
  "register (StringVar set_var d) a = set_var d a"
| "register (IntVar set_var d) a = set_var d a"

fun set_flag :: "string \<times> flag_value \<Rightarrow> Arguments \<Rightarrow> Arguments option" where
  "set_flag (name, v) a =
     (case (map_of flags name, v) of
        (Some (StringVar set_var d), FlagString x) \<Rightarrow> Some (set_var x a)
      | (Some (IntVar set_var d), FlagInt x) \<Rightarrow> Some (set_var x a)
      | _ \<Rightarrow> None)"

fun flag_Parse :: "(string \<times> flag_value) list \<Rightarrow> Arguments \<Rightarrow> Arguments option" where
  "flag_Parse [] a = Some a"
| "flag_Parse (g # given) a = (case set_flag g a of None \<Rightarrow> None | Some a' \<Rightarrow> flag_Parse given a')"

definition ParseDefaultConfigurationArguments :: "(string \<times> flag_value) list \<Rightarrow> Arguments option" where
  "ParseDefaultConfigurationArguments given = flag_Parse given (fold (register \<circ> snd) flags zero_arguments)"

subsection \<open>Start up\<close>

record 'q startup =
  su_nsq :: "'q nsq_client"
  su_session :: "error option"
  su_open :: "error option"
  su_db :: "error option"
  su_ping :: "error option"
  su_migrate :: "error option"
  su_docker :: "error option"
  su_listen :: "error option"
  su_serve :: "error option"
  su_TempDir :: string

definition files_config :: "'q startup \<Rightarrow> Arguments \<Rightarrow> Config" where
  "files_config su args =
     \<lparr>Local = Some \<lparr>LocalRootPath = filepath_Join [su_TempDir su, ''executions'']\<rparr>,
      S3 = Some \<lparr>BucketName = S3BucketName args\<rparr>, ForceLocalMode = True\<rparr>"

definition queue_config :: "bool \<Rightarrow> bool \<Rightarrow> Arguments \<Rightarrow> queue_Config" where
  "queue_config consumer producer args =
     \<lparr>qc_Nsq = Some \<lparr>nsq_Topic = NsqTopic args, nsq_Channel = NsqChannel args, NsqLookupAddress = NsqAddress args,
                  NsqLookupPort = NsqPort args, nsq_MaxInFlight = MaxConcurrentContainers args,
                  nsq_Consumer = consumer, nsq_Producer = producer\<rparr>,
      qc_Sqs = Some \<lparr>QueueURL = SqsQueueUrl args, sqs_WaitTimeSeconds = WaitTimeSeconds args,
                  sqs_MaxInFlight = MaxConcurrentContainers args, sqs_Consumer = consumer\<rparr>,
      qc_ForceLocalMode = True\<rparr>"

text \<open>\<open>log.Fatal\<close> ends the program with a message; otherwise the services it runs with.\<close>

record api_services =
  as_templates :: template_state
  as_queue :: queue
  as_files :: files_handler

definition api_main ::
  "'q startup \<Rightarrow> (string \<rightharpoonup> bytes) \<Rightarrow> string list \<Rightarrow> Arguments \<Rightarrow> panic + (string + api_services)" where
  "api_main su content order args =
     (let ts = LoadEmbeddedTemplateFiles content order initial_templates
      in case NewQueue (su_nsq su) (su_session su) (queue_config False True args) of
           Inl p \<Rightarrow> Inl p
         | Inr (queueRunner, Some err) \<Rightarrow> Inr (Inl ''failed to create queue'')
         | Inr (queueRunner, None) \<Rightarrow>
             if snd (NewRepository (su_open su) (su_db su) (su_ping su) (su_migrate su)) \<noteq> None
             then Inr (Inl ''failed to create database connection'')
             else case NewFilesHandler (su_session su) (files_config su args) of
                    (fileHandler, Some err) \<Rightarrow> Inr (Inl ''failed to create file handler'')
                  | (fileHandler, None) \<Rightarrow>
                      if su_listen su \<noteq> None then Inr (Inl ''failed to listen'')
                      else if su_serve su \<noteq> None then Inr (Inl ''failed to listen'')
                      else Inr (Inr \<lparr>as_templates = ts, as_queue = queueRunner, as_files = fileHandler\<rparr>))"

record loader_services =
  ls_manager :: manager
  ls_machine :: machine
  ls_files :: files_handler
  ls_queue :: queue

definition loader_main :: "'q startup \<Rightarrow> fs \<Rightarrow> machine \<Rightarrow> Arguments \<Rightarrow> panic + (string + loader_services)" where
  "loader_main su f m args =
     (if su_docker su \<noteq> None then Inr (Inl ''failed'')
      else if snd (NewRepository (su_open su) (su_db su) (su_ping su) (su_migrate su)) \<noteq> None
      then Inr (Inl ''failed to create repository'')
      else case NewSandboxContainerManager (MaxConcurrentContainers args) f m of
             Inl p \<Rightarrow> Inl p
           | Inr (manager, m1) \<Rightarrow>
               (case NewFilesHandler (su_session su) (files_config su args) of
                  (localFileHandler, Some err) \<Rightarrow> Inr (Inl ''failed to create file handler'')
                | (localFileHandler, None) \<Rightarrow>
                    (case NewQueue (su_nsq su) (su_session su) (queue_config True False args) of
                       Inl p \<Rightarrow> Inl p
                     | Inr (queueRunner, Some err) \<Rightarrow> Inr (Inl ''failed to create queue'')
                     | Inr (queueRunner, None) \<Rightarrow>
                         Inr (Inr \<lparr>ls_manager = manager, ls_machine = m1, ls_files = localFileHandler, ls_queue = queueRunner\<rparr>))))"

text \<open>After the signal: the manager is told to stop, then the queue.\<close>

definition loader_shutdown :: "loader_services \<Rightarrow> panic + loader_services" where
  "loader_shutdown ls =
     (let ls1 = ls\<lparr>ls_manager := Stop (ls_manager ls)\<rparr>
      in case ls_queue ls1 of
           NsqChosen n \<Rightarrow> map_sum id (\<lambda>u. ls1) (NsqQueue_Stop n)
         | SqsChosen s polling \<Rightarrow> Inr (ls1\<lparr>ls_queue := SqsChosen (SqsQueue_Stop s) polling\<rparr>))"

subsection \<open>Building the images\<close>

definition docker_build_command :: "LanguageCompiler \<Rightarrow> bool \<Rightarrow> string list" where
  "docker_build_command compiler verbose =
     [''docker'', ''build'', ''-f'', ''./build/dockerfiles/'' @ strings_ToLower (lc_Dockerfile compiler) @ ''.dockerfile'',
      ''-t'', lc_VirtualMachineName compiler]
     @ (if verbose then [''--progress=plain''] else []) @ [''.'']"

text \<open>Running one command; its error ends the program.\<close>

definition runDockerCommand ::
  "(string list \<Rightarrow> error option) \<Rightarrow> LanguageCompiler \<Rightarrow> bool \<Rightarrow> string list list \<times> error option" where
  "runDockerCommand run compiler verbose =
     (let cmd = docker_build_command compiler verbose in ([cmd], run cmd))"

text \<open>
  \<open>main\<close> of the builder: the commands that were run and the fatal message, if any. \<open>run\<close> says how each
  command ends and \<open>order\<close> is the iteration order of the table; \<open>completed\<close> is the map of the loop,
  which no statement writes.
\<close>

fun build_all ::
  "(string list \<Rightarrow> error option) \<Rightarrow> bool \<Rightarrow> (string \<rightharpoonup> bool) \<Rightarrow> LanguageCompiler list \<Rightarrow> string list list \<times> error option" where
  "build_all run verbose completed [] = ([], None)"
| "build_all run verbose completed (c # cs) =
     (if completed (lc_VirtualMachineName c) \<noteq> None then build_all run verbose completed cs
      else case runDockerCommand run c verbose of
             (cmds, Some err) \<Rightarrow> (cmds, Some err)
           | (cmds, None) \<Rightarrow> apfst ((@) cmds) (build_all run verbose completed cs))"

definition builder_main ::
  "(string list \<Rightarrow> error option) \<Rightarrow> string \<Rightarrow> bool \<Rightarrow> (string \<times> LanguageCompiler) list \<Rightarrow> string list list \<times> error option" where
  "builder_main run filterName verbose order =
     (if strings_TrimSpace filterName \<noteq> []
      then (case Compilers_lookup filterName of
              None \<Rightarrow> ([], Some (Errorf (''language '' @ [CHR 0x27] @ filterName @ [CHR 0x27] @ '' does not exist in supported compilers'')))
            | Some c \<Rightarrow> runDockerCommand run c verbose)
      else build_all run verbose Map.empty (map snd order))"

subsection \<open>Translating validation errors\<close>

text \<open>\<open>errors.As\<close> finds the list of violations in an error, if there is one; the validator translates each.\<close>

definition TranslateError :: "(error \<Rightarrow> 'v list option) \<Rightarrow> ('v \<Rightarrow> string) \<Rightarrow> error option \<Rightarrow> string slice" where
  "TranslateError as_validation translate err =
     (case err of
        None \<Rightarrow> None
      | Some e \<Rightarrow>
          (case as_validation e of
             None \<Rightarrow> None
           | Some vs \<Rightarrow> fold (\<lambda>v errs. Some (elems errs @ [translate v])) vs None))"

subsection \<open>Facts\<close>

lemma TranslateError_elems: "elems (TranslateError av tr err) = (case Option.bind err av of None \<Rightarrow> [] | Some vs \<Rightarrow> map tr vs)"
proof -
  have "elems (fold (\<lambda>v errs. Some (elems errs @ [tr v])) vs acc) = elems acc @ map tr vs" for vs acc
    by (induction vs arbitrary: acc) simp_all
  then show ?thesis by (simp add: TranslateError_def split: option.splits)
qed

lemma build_all_everything:
  assumes "\<And>cmd. run cmd = None"
  shows "build_all run verbose Map.empty cs = (map (\<lambda>c. docker_build_command c verbose) cs, None)"
  by (induction cs) (simp_all add: assms runDockerCommand_def Let_def)

text \<open>The limit of concurrent containers: the last of two flags that are bound to the same variable.\<close>

definition limit_flag :: "string \<Rightarrow> bool" where
  "limit_flag name \<longleftrightarrow> name = ''max-concurrent-containers'' \<or> name = ''wait-time-seconds''"

lemma set_flag_limit:
  assumes "set_flag (name, v) a = Some a'"
  shows "MaxConcurrentContainers a' = (if limit_flag name then (case v of FlagInt x \<Rightarrow> x | FlagString s \<Rightarrow> 0) else MaxConcurrentContainers a)
         \<and> WaitTimeSeconds a' = WaitTimeSeconds a"
  using assms by (auto simp: flags_def limit_flag_def split: option.splits if_splits flag_value.splits)

lemma flag_Parse_wait: "flag_Parse given a = Some args \<Longrightarrow> WaitTimeSeconds args = WaitTimeSeconds a"
proof (induction given arbitrary: a)
  case (Cons g given)
  obtain name v where g: "g = (name, v)" by fastforce
  with Cons.prems obtain a' where "set_flag (name, v) a = Some a'" "flag_Parse given a' = Some args"
    by (auto split: option.splits simp del: set_flag.simps)
  with Cons.IH set_flag_limit show ?case by metis
qed simp

lemma flag_Parse_limit_last:
  assumes "flag_Parse (given @ [(name, FlagInt x)] @ others) a = Some args" and "limit_flag name" and "\<forall>g\<in>set others. \<not> limit_flag (fst g)"
  shows "MaxConcurrentContainers args = x"
proof -
  have rest: "flag_Parse others b = Some args \<Longrightarrow> MaxConcurrentContainers args = MaxConcurrentContainers b" for b
    using assms(3)
  proof (induction others arbitrary: b)
    case (Cons g others)
    obtain name v where g: "g = (name, v)" by fastforce
    with Cons.prems obtain b' where "set_flag (name, v) b = Some b'" "flag_Parse others b' = Some args"
      by (auto split: option.splits simp del: set_flag.simps)
    with Cons set_flag_limit g show ?case by (metis fst_conv list.set_intros(1,2))
  qed simp
  show ?thesis
    using assms(1)
  proof (induction given arbitrary: a)
    case Nil
    then obtain b where "set_flag (name, FlagInt x) a = Some b" "flag_Parse others b = Some args"
      by (auto split: option.splits simp del: set_flag.simps)
    with set_flag_limit assms(2) rest show ?case by fastforce
  next
    case (Cons g given)
    then show ?case by (auto split: option.splits simp del: set_flag.simps)
  qed
qed

end
