(* ===== verification/Spec2Isabelle.thy ===== *)
theory Spec2Isabelle
  imports End_To_End Memory_Watch Deployment
begin

text \<open>
  A verification of CARS, the compile and run sandbox: a service that takes source code over gRPC,
  runs it in a Docker container and reports output, verdict and measurements.

  \<^bold>\<open>The program and its theories.\<close> A request goes through four programs that share a file store, a
  database and a queue.

    \<^item> \<open>cars-api\<close> (\<open>internal/api/consumer/server.go\<close>, \<open>internal/gen/pb\<close>). The theory \<open>Request_Validation\<close>
      has the generated validation of the messages and \<open>Validation_Errors\<close> its error types, \<open>Consumer_Api\<close> the
      methods of the server and the gRPC handlers. A method is a function from its request and the state \<open>api\<close> (files, queue,
      database) to a panic or a result with the new state.
    \<^item> The queue (\<open>internal/queue\<close>). \<open>Queue_Transport\<close> has \<open>NewQueue\<close>, the NSQ and the SQS queue and the
      SQS polling loop; \<open>Queue_Handler\<close> has the message and \<open>handleNewCompileRequest\<close> as a small-step
      program: \<open>handler\<close> is its program counter with its local variables, \<open>handler_step\<close> runs it to the
      next point where other goroutines can be observed.
    \<^item> \<open>cars-loader\<close> (\<open>internal/sandbox\<close>, \<open>internal/docker\<close>, \<open>internal/config\<close>). \<open>Sandbox_Container\<close> has the
      container: preparing its directory, starting it, reacting to Docker events, reading the runner's
      answer. \<open>Container_Manager\<close> has the registry, the limiter (a bounded channel) and the event loop.
      \<open>Execution_Profile\<close> has the profile of the machine and the check for gVisor, \<open>Compilers\<close> the language
      table, \<open>Sandbox_Status\<close> the statuses, \<open>Memory_Units\<close> the units of memory. \<open>Loader_System\<close> interleaves
      any number of handlers with the event loop and an arbitrary outside world; \<open>Loader_Events\<close> counts the steps
      of its executions and follows the events of one container through them.
    \<^item> \<open>cars-runner\<close> (\<open>cmd/services/cars-runner/main.go\<close>, \<open>internal/pid\<close>), which runs inside the
      container. \<open>Runner\<close> has the compilation, the run with its memory watch, the scanning of the outputs
      and the classification; \<open>Proc_Stat\<close> has the reader of \<open>/proc/<pid>/stat\<close>, and \<open>Memory_Watch\<close> puts the two
      together for the memory limit (\<open>memory_limit_enforced\<close>).
    \<^item> The stores. \<open>Files_Store\<close> has the local and the S3 file store (\<open>internal/files\<close>), \<open>Repository_Model\<close> the
      table of executions (\<open>internal/repository\<close>).
    \<^item> \<open>Deployment\<close> has the command line, the main functions of API and loader and the tool that builds the
      images.

  Below them, \<open>Cars_Prelude\<close> has panics, errors, slices, 64-bit arithmetic and channels; \<open>Go_Strings\<close>,
  \<open>Go_Path\<close>, \<open>Go_Filesystem\<close> and \<open>Go_Json\<close> have what the program uses of Go's standard library: byte
  strings, lexical paths, a file system with faults chosen by an oracle, and \<open>encoding/json\<close> with its
  parser, printer and round trip. \<open>Goroutines\<close> has the pattern of one goroutine per job with a wait
  group. \<open>Sandbox_Protocol\<close> composes sandbox and runner, \<open>Service_System\<close> API and loader, \<open>End_To_End\<close> follows one
  job through all of them, and this theory composes the two programs as they are started.

  \<^bold>\<open>Conventions.\<close> A panic is \<open>Inl\<close> of the type \<open>panic\<close>, an error a value of \<open>error\<close>, a nil pointer or nil
  error \<open>None\<close>. Strings are byte lists. Integers that can overflow are taken modulo 2 to the 64
  where the code computes with them. The order of a Go map is an argument. Third-party code (the Docker
  client, gorm, AWS, NSQ, gRPC interceptors, uuid, operating system commands) is a field of a record that
  the definitions take, and what the code relies on is a named predicate (\<open>gorm_laws\<close>, \<open>s3_laws\<close>, \<open>nsq_laws\<close>, \<open>sqs_laws\<close>,
  \<open>queue_law\<close>, \<open>validating\<close>, \<open>well_behaved\<close>) with an instance that satisfies it.

  \<^bold>\<open>Interfaces.\<close> The locales state what one part promises another, and each is interpreted on the model:
  \<open>stringer\<close> (the generated String methods), \<open>slot_limiter\<close> (the bounded channel), \<open>goroutine_group\<close> and
  \<open>ranked_body\<close> (goroutines that do not disturb each other, and that end), \<open>execution_table\<close> (the rows of the
  database), \<open>message_queue\<close> (submitted messages wait in order; interpreted on the NSQ and the SQS queue), \<open>file_store\<close> (what is written
  is read back; interpreted on the local and the S3 store and used by the API), \<open>message_errors\<close> and its extension
  \<open>validated_message\<close> (the error types and the validation of a message; interpreted on all nine messages).

  \<^bold>\<open>What is proved.\<close> End to end: the program that runs is the client's and the client is told what it did
  (\<open>client_is_told_what_ran\<close>). In its three parts: a validated request reaches the sandbox unchanged
  (\<open>compile_request_reaches_sandbox\<close>), what the runner measured is what the container's response says
  (\<open>request_to_response\<close>), and that response is what the client is told (\<open>result_reaches_client\<close>).
  Concurrency: the service refines the loader system (\<open>service_refines_loader\<close>), in which started
  containers never exceed the limit (\<open>loader_bounds_containers\<close>) and handlers block only where they
  should (\<open>handler_progress\<close>), take a bounded number of steps (\<open>handlers_terminate\<close>) and read a response only after
  Docker announced the removal of the container (\<open>response_after_removal\<close>); no message of the API crashes the loader
  (\<open>service_handlers_never_panic\<close>). Components: each operation of the container, the manager, the stores,
  the runner, the process statistics, the validation and the queues has its functional behaviour, its
  panics and its errors. Some theorems state defects exactly: slots that leak
  (\<open>leaked_slots_stop_loader\<close>), removals that are announced too early (\<open>early_removal_is_lost\<close>), results lost by the late insertion of the row
  (\<open>late_insert_loses_result\<close>), compile methods that gRPC cannot reach
  (\<open>compile_service_unimplemented\<close>), a queue that does not stop (\<open>SqsQueue_Stop_ineffective\<close>), compile errors
  that are hidden (\<open>compile_error_is_last\<close>) or misreported (\<open>runner_classifies\<close>).

  \<^bold>\<open>Loops and bounds.\<close> Loops over finite data are recursive functions. Loops that wait for the outside
  world take the finite list of what they receive (\<open>Start\<close>, \<open>StreamPid\<close>, \<open>startPollingMessages\<close>), and
  concurrent code takes a schedule; \<open>WriteFiles_terminates\<close> and \<open>sqs_round_handles_then_deletes\<close> show that
  every fair schedule ends. The JSON parser has fuel, two units per byte of its input, which
  \<open>parse_fuel_enough\<close> shows to be enough, and Go's nesting limit of 10000. \<open>handler_steps\<close> counts the steps of a handler; five lead
  from the completed container to its end.

  \<^bold>\<open>Not modelled.\<close> Logging; the real duration of timeouts (a timeout is a choice the outside world makes);
  the two time stamps gorm maintains; non-ASCII case folding in file paths and language names; the
  marshalling code of \<open>consumer.pb.go\<close>, which the protobuf runtime drives; the registration of
  translations and \<open>getTranslator\<close>, which only call third-party code; \<open>build/tools.go\<close>.
\<close>

subsection \<open>Deployment\<close>

lemma queue_config_chosen:
  assumes "NewQueue client session_err (queue_config consumer producer args) = Inr (q, None)"
  obtains n where "q = NsqChosen n" "nsq_Topic (nq_config n) = NsqTopic args"
    "consumer \<Longrightarrow> \<exists>c. nq_consumer n = Some c \<and> nc_topic c = NsqTopic args \<and> nc_channel c = NsqChannel args
       \<and> nc_address c = NsqAddress args @ '':'' @ strconv_Itoa (NsqPort args) \<and> nc_handlers c = MaxConcurrentContainers args"
    "producer \<Longrightarrow> nq_producer n = Some (NsqAddress args @ '':'' @ strconv_Itoa (NsqPort args))"
    "\<not> producer \<Longrightarrow> nq_producer n = None"
  using assms
  by (auto simp: NewQueue_def queue_config_def newNsqQueue_def NewNsqConsumer_def NewNsqProducer_def nsq_address_def Let_def
      split: if_splits sum.splits option.splits)

definition quiet_nsq :: "(string \<times> bytes) list nsq_client" where
  "quiet_nsq =
     \<lparr>nsq_NewConsumer = (\<lambda>t c. None), nsq_ConnectToNSQD = (\<lambda>a. None), nsq_NewProducer = (\<lambda>a. None),
      nsq_Publish = (\<lambda>a t data q. (None, q @ [(t, data)]))\<rparr>"

lemma quiet_nsq_laws: "nsq_laws quiet_nsq topic (\<lambda>q. map snd (filter (\<lambda>x. fst x = topic) q))"
  by (simp add: nsq_laws_def quiet_nsq_def)

definition quiet_startup :: "(string \<times> bytes) list startup" where
  "quiet_startup =
     \<lparr>su_nsq = quiet_nsq, su_session = None, su_open = None, su_db = None, su_ping = None, su_migrate = None, su_docker = None,
      su_listen = None, su_serve = None, su_TempDir = ''/tmp''\<rparr>"

definition default_arguments :: Arguments where
  "default_arguments = fold (register \<circ> snd) flags zero_arguments"



text \<open>
  The flag \<open>wait-time-seconds\<close> is bound to the variable of \<open>max-concurrent-containers\<close>: the limit is 10
  by default and otherwise the value of whichever of the two was given last, and the waiting time is
  always 0.
\<close>

theorem wait_time_flag_sets_limit:
  assumes "ParseDefaultConfigurationArguments (given @ [(name, FlagInt x)] @ others) = Some args"
    and "limit_flag name" and "\<forall>g\<in>set others. \<not> limit_flag (fst g)"
  shows "MaxConcurrentContainers args = x \<and> WaitTimeSeconds args = 0"
proof -
  have "WaitTimeSeconds (fold (register \<circ> snd) flags zero_arguments) = 0" by (simp add: flags_def zero_arguments_def)
  then show ?thesis
    using assms flag_Parse_limit_last [OF _ assms(2,3)] flag_Parse_wait unfolding ParseDefaultConfigurationArguments_def by metis
qed

end
